(* ===== verification/Prelude.thy ===== *)
theory Prelude
  imports Main "HOL-Library.Word"
begin

text \<open>
  Shared ground of the development: the machine types of the Go sources, the
  result type that carries Go's \<open>error\<close> values and run-time panics, the fact
  collections the components fill, the bit-level lemmas on big-endian byte
  sequences, and the notion of reachable state with its invariant rule, which is
  the interface every state machine of the development is checked against.
\<close>

unbundle bit_operations_syntax

section \<open>Machine types\<close>

type_synonym byte = "8 word"
type_synonym bytes = "8 word list"
type_synonym u16 = "16 word"
type_synonym u32 = "32 word"
type_synonym u64 = "64 word"

text \<open>
  A Go string is a sequence of bytes; it is a \<open>string\<close> (8-bit characters) here, and
  the conversions \<open>[]byte(s)\<close> and \<open>string(b)\<close> keep the bytes.
\<close>

definition bytes_of_string :: "string \<Rightarrow> bytes" where
  "bytes_of_string s = map (\<lambda>c. word_of_nat (of_char c)) s"

definition string_of_bytes :: "bytes \<Rightarrow> string" where
  "string_of_bytes bs = map (\<lambda>b. char_of (unat b)) bs"

section \<open>Results: values, errors and panics\<close>

text \<open>
  A Go call that returns \<open>(T, error)\<close> gives \<open>Ok v\<close> or \<open>Err msg\<close>. A run-time
  panic (division by zero, index out of range) is neither: it is \<open>Panic\<close>.
\<close>

datatype 'a result = Ok 'a | Err string | Panic string

fun is_Ok :: "'a result \<Rightarrow> bool" where
  "is_Ok (Ok _) = True"
| "is_Ok _ = False"

definition bind_result :: "'a result \<Rightarrow> ('a \<Rightarrow> 'b result) \<Rightarrow> 'b result" where
  "bind_result r f = (case r of Ok v \<Rightarrow> f v | Err e \<Rightarrow> Err e | Panic e \<Rightarrow> Panic e)"

lemma bind_result_simps [simp]:
  "bind_result (Ok v) f = f v"
  "bind_result (Err e) f = Err e"
  "bind_result (Panic e) f = Panic e"
  by (simp_all add: bind_result_def)

lemma bind_result_Ok_conv:
  "bind_result r f = Ok w \<longleftrightarrow> (\<exists>v. r = Ok v \<and> f v = Ok w)"
  by (cases r) auto

lemma is_Ok_conv: "is_Ok r \<longleftrightarrow> (\<exists>v. r = Ok v)"
  by (cases r) auto

section \<open>Collections of facts\<close>

named_theorems go_lib \<open>laws of the Go library functions\<close>
named_theorems wire \<open>laws of the wire encodings\<close>
named_theorems machine \<open>unfolding of the state-machine steps\<close>

section \<open>Bytes and strings\<close>

lemma length_bytes_of_string [simp]: "length (bytes_of_string s) = length s"
  by (simp add: bytes_of_string_def)

lemma length_string_of_bytes [simp]: "length (string_of_bytes bs) = length bs"
  by (simp add: string_of_bytes_def)

lemma bytes_of_string_append [simp]:
  "bytes_of_string (s @ t) = bytes_of_string s @ bytes_of_string t"
  by (simp add: bytes_of_string_def)

lemma unat_byte_of_char [simp]: "unat (word_of_nat (of_char c) :: byte) = of_char c"
  by (simp add: unat_of_nat of_char_mod_256)

lemma unat_byte_less [simp]: "unat (b :: byte) < 256"
  using unsigned_less [of b, where ?'a = nat] by simp

lemma unat_byte_mod [simp]: "unat (b :: byte) mod 256 = unat b"
  by simp

lemma string_of_bytes_of_string [simp, go_lib]: "string_of_bytes (bytes_of_string s) = s"
  by (induction s) (simp_all add: string_of_bytes_def bytes_of_string_def)

lemma bytes_of_string_of_bytes [simp, go_lib]: "bytes_of_string (string_of_bytes bs) = bs"
  by (induction bs) (simp_all add: string_of_bytes_def bytes_of_string_def)

lemma inj_bytes_of_string: "bytes_of_string s = bytes_of_string t \<longleftrightarrow> s = t"
  by (metis string_of_bytes_of_string)

section \<open>Big-endian integers\<close>

text \<open>
  \<open>encoding/binary.BigEndian\<close> on 32-bit values, and the eight shifted bytes that the
  wire format writes for a 64-bit counter. A shift of the source is \<open>drop_bit\<close> or
  \<open>push_bit\<close>, a conversion \<open>byte(x)\<close> or \<open>uint64(b)\<close> is \<open>ucast\<close>.
\<close>

definition put_be32 :: "u32 \<Rightarrow> bytes" where
  "put_be32 v = [ucast (drop_bit 24 v), ucast (drop_bit 16 v), ucast (drop_bit 8 v), ucast v]"

definition get_be32 :: "byte \<Rightarrow> byte \<Rightarrow> byte \<Rightarrow> byte \<Rightarrow> u32" where
  "get_be32 a b c d =
     push_bit 24 (ucast a) OR push_bit 16 (ucast b) OR push_bit 8 (ucast c) OR ucast d"

definition put_be64 :: "u64 \<Rightarrow> bytes" where
  "put_be64 c = [ucast (drop_bit 56 c), ucast (drop_bit 48 c), ucast (drop_bit 40 c), ucast (drop_bit 32 c),
     ucast (drop_bit 24 c), ucast (drop_bit 16 c), ucast (drop_bit 8 c), ucast c]"

definition get_be64 :: "byte \<Rightarrow> byte \<Rightarrow> byte \<Rightarrow> byte \<Rightarrow> byte \<Rightarrow> byte \<Rightarrow> byte \<Rightarrow> byte \<Rightarrow> u64" where
  "get_be64 a b c d e f g h =
     push_bit 56 (ucast a) OR push_bit 48 (ucast b) OR push_bit 40 (ucast c) OR push_bit 32 (ucast d) OR
     push_bit 24 (ucast e) OR push_bit 16 (ucast f) OR push_bit 8 (ucast g) OR ucast h"

lemma bit_window:
  "(k \<le> n \<and> n - k < m \<and> n - k < 8 \<and> bit c (k + (n - k))) = (k \<le> n \<and> n - k < m \<and> n < k + 8 \<and> bit c n)"
  for k n m :: nat
  by auto

lemma bit_byte_ge [simp]: "8 \<le> n \<Longrightarrow> \<not> bit (b :: byte) n"
  using bit_imp_le_length [of b n] by auto

lemma get_put_be32 [simp, wire]:
  "get_be32 (ucast (drop_bit 24 v)) (ucast (drop_bit 16 v)) (ucast (drop_bit 8 v)) (ucast v) = v"
proof (rule bit_word_eqI)
  fix n assume n: "n < LENGTH(32)"
  show "bit (get_be32 (ucast (drop_bit 24 v)) (ucast (drop_bit 16 v)) (ucast (drop_bit 8 v)) (ucast v)) n
      = bit v n"
    using n by (cases "bit v n") (simp_all add: get_be32_def bit_simps bit_window, arith)
qed

lemma put_get_be32 [simp, wire]: "put_be32 (get_be32 a b c d) = [a, b, c, d]"
  unfolding get_be32_def put_be32_def
  by (simp, intro conjI; rule bit_word_eqI; auto simp add: bit_simps)


lemma get_put_be64 [simp, wire]:
  "get_be64 (ucast (drop_bit 56 c)) (ucast (drop_bit 48 c)) (ucast (drop_bit 40 c)) (ucast (drop_bit 32 c))
     (ucast (drop_bit 24 c)) (ucast (drop_bit 16 c)) (ucast (drop_bit 8 c)) (ucast c) = c" (is "?l = _")
proof (rule bit_word_eqI)
  fix n assume n: "n < LENGTH(64)"
  then consider "n < 8" | "8 \<le> n" "n < 16" | "16 \<le> n" "n < 24" | "24 \<le> n" "n < 32"
    | "32 \<le> n" "n < 40" | "40 \<le> n" "n < 48" | "48 \<le> n" "n < 56" | "56 \<le> n" "n < 64"
    by fastforce
  then show "bit ?l n = bit c n"
    by cases (simp_all add: get_be64_def bit_simps less_diff_conv2)
qed

lemma put_get_be64 [simp, wire]: "put_be64 (get_be64 a b c d e f g h) = [a, b, c, d, e, f, g, h]"
  unfolding get_be64_def put_be64_def
  by (simp, intro conjI; rule bit_word_eqI; auto simp add: bit_simps)

lemma length_put_be32 [simp]: "length (put_be32 v) = 4"
  by (simp add: put_be32_def)

lemma length_put_be64 [simp]: "length (put_be64 c) = 8"
  by (simp add: put_be64_def)

section \<open>Codecs\<close>

text \<open>
  The interface of an encoder with a partial decoder: what is encoded decodes to
  itself. Injectivity of the encoder and the uniqueness of decoded values follow
  once and for all; the base64 codecs, the fixed-width integers and the connect
  URI are instances.
\<close>

locale codec =
  fixes enc :: "'a \<Rightarrow> 'b" and dec :: "'b \<Rightarrow> 'a option"
  assumes dec_enc: "dec (enc x) = Some x"
begin

lemma enc_inj: "enc x = enc y \<longleftrightarrow> x = y"
  using dec_enc by (metis option.inject)

lemma enc_dec_canonical: "y \<in> range enc \<Longrightarrow> \<exists>!x. enc x = y \<and> dec y = Some x"
  using dec_enc enc_inj by auto

end

fun decode_be32 :: "bytes \<Rightarrow> u32 option" where
  "decode_be32 [a, b, c, d] = Some (get_be32 a b c d)"
| "decode_be32 _ = None"

fun decode_be64 :: "bytes \<Rightarrow> u64 option" where
  "decode_be64 [a, b, c, d, e, f, g, h] = Some (get_be64 a b c d e f g h)"
| "decode_be64 _ = None"

interpretation be32: codec put_be32 decode_be32
  by unfold_locales (simp add: put_be32_def)

interpretation be64: codec put_be64 decode_be64
  by unfold_locales (simp add: put_be64_def)

section \<open>Reachable states and invariants\<close>

text \<open>
  The reachable states of a system given by its initial states and its step relation,
  and the interface of an inductive invariant. Each state machine of the development
  instantiates \<open>safe_system\<close> with its own step relation.
\<close>

inductive reach :: "('s \<Rightarrow> bool) \<Rightarrow> ('s \<Rightarrow> 's \<Rightarrow> bool) \<Rightarrow> 's \<Rightarrow> bool"
  for init :: "'s \<Rightarrow> bool" and step :: "'s \<Rightarrow> 's \<Rightarrow> bool" where
  reach_init: "init s \<Longrightarrow> reach init step s"
| reach_step: "reach init step s \<Longrightarrow> step s t \<Longrightarrow> reach init step t"

locale safe_system =
  fixes init :: "'s \<Rightarrow> bool" and step :: "'s \<Rightarrow> 's \<Rightarrow> bool" and inv :: "'s \<Rightarrow> bool"
  assumes inv_init: "init s \<Longrightarrow> inv s"
    and inv_step: "step s t \<Longrightarrow> inv s \<Longrightarrow> inv t"
begin

lemma reach_inv: "reach init step s \<Longrightarrow> inv s"
  by (induction rule: reach.induct) (auto intro: inv_init inv_step)

lemma steps_inv: "step\<^sup>*\<^sup>* s t \<Longrightarrow> inv s \<Longrightarrow> inv t"
  by (induction rule: rtranclp_induct) (auto intro: inv_step)

end

lemma reach_steps: "step\<^sup>*\<^sup>* s t \<Longrightarrow> reach init step s \<Longrightarrow> reach init step t"
  by (induction rule: rtranclp_induct) (auto intro: reach_step)

text \<open>
  The interface of a refinement: a concrete machine with its invariant, an abstract one, and
  a function \<open>abs\<close> that turns every concrete step from a state of the invariant into some
  steps of the abstract machine. What holds in the reachable states of the abstract machine
  then holds of the concrete ones.
\<close>

locale simulation = safe_system init step inv
  for init :: "'s \<Rightarrow> bool" and step :: "'s \<Rightarrow> 's \<Rightarrow> bool" and inv :: "'s \<Rightarrow> bool" +
  fixes ainit :: "'a \<Rightarrow> bool" and astep :: "'a \<Rightarrow> 'a \<Rightarrow> bool" and abs :: "'s \<Rightarrow> 'a"
  assumes abs_init: "init s \<Longrightarrow> ainit (abs s)"
    and abs_step: "step s t \<Longrightarrow> inv s \<Longrightarrow> astep\<^sup>*\<^sup>* (abs s) (abs t)"
begin

lemma abs_steps:
  assumes "step\<^sup>*\<^sup>* s t" "inv s"
  shows "astep\<^sup>*\<^sup>* (abs s) (abs t)"
  using assms(1)
proof (induction rule: rtranclp_induct)
  case (step t u)
  then show ?case using abs_step steps_inv [OF step.hyps(1) assms(2)] by (meson rtranclp_trans)
qed simp

lemma abs_reach: "reach init step s \<Longrightarrow> reach ainit astep (abs s)"
proof (induction rule: reach.induct)
  case (reach_init s)
  then show ?case by (intro reach.reach_init abs_init)
next
  case (reach_step s t)
  then show ?case using abs_step reach_inv by (blast intro: reach_steps)
qed

lemma abs_transfer: "(\<And>a. reach ainit astep a \<Longrightarrow> P a) \<Longrightarrow> reach init step s \<Longrightarrow> P (abs s)"
  using abs_reach by blast

end

end
