(* ===== verification/GoNet.thy ===== *)
theory GoNet
  imports GoStrings
begin

text \<open>
  Go's address handling as the sources use it: \<open>net.IP\<close> values (4 or 16 bytes),
  \<open>netip.ParseAddr\<close>, \<open>net.ParseIP\<close>, \<open>net.ParseCIDR\<close>, the textual form of an address,
  and the \<open>host:port\<close> functions \<open>net.SplitHostPort\<close> and \<open>net.JoinHostPort\<close>.
\<close>

type_synonym net_ip = bytes

section \<open>Parsing addresses\<close>

definition parse_octet :: "string \<Rightarrow> byte option" where
  "parse_octet s =
     (if s \<noteq> [] \<and> list_all is_digit s \<and> (hd s = CHR ''0'' \<longrightarrow> length s = 1) \<and> nat_of_digits s \<le> 255
      then Some (word_of_nat (nat_of_digits s)) else None)"

definition parse_v4 :: "string \<Rightarrow> bytes option" where
  "parse_v4 s =
     (case map parse_octet (Split (CHR ''.'') s) of
        [Some a, Some b, Some c, Some d] \<Rightarrow> Some [a, b, c, d]
      | _ \<Rightarrow> None)"

definition hex_val :: "char \<Rightarrow> nat option" where
  "hex_val c =
     (let n = of_char c :: nat
      in if 48 \<le> n \<and> n \<le> 57 then Some (n - 48)
         else if 97 \<le> n \<and> n \<le> 102 then Some (n - 87)
         else if 65 \<le> n \<and> n \<le> 70 then Some (n - 55)
         else None)"

definition hex_group :: "string \<Rightarrow> nat" where
  "hex_group s = foldl (\<lambda>a c. 16 * a + (case hex_val c of Some v \<Rightarrow> v | None \<Rightarrow> 0)) 0 s"

text \<open>
  The loop of the IPv6 parser: groups of one to four hex digits, at most one ellipsis
  (remembered as the position where the zeros go), an optional dotted IPv4 tail.
\<close>

function v6_groups :: "string \<Rightarrow> bytes \<Rightarrow> nat option \<Rightarrow> (bytes \<times> nat option) option" where
  "v6_groups s acc ell =
     (if 16 \<le> length acc then (if s = [] then Some (acc, ell) else None)
      else
        let h = takeWhile (\<lambda>c. hex_val c \<noteq> None) s; rest = drop (length h) s;
            g = hex_group h; acc' = acc @ [word_of_nat (g div 256), word_of_nat g]
        in if h = [] \<or> 4 < length h then None
           else if rest \<noteq> [] \<and> hd rest = CHR ''.'' then
             (if ell = None \<and> length acc \<noteq> 12 then None
              else if 12 < length acc then None
              else map_option (\<lambda>v. (acc @ v, ell)) (parse_v4 s))
           else case rest of
             [] \<Rightarrow> Some (acc', ell)
           | [_] \<Rightarrow> None
           | c # d # t \<Rightarrow>
               if c \<noteq> CHR '':'' then None
               else if d = CHR '':'' then
                 (if ell \<noteq> None then None
                  else if t = [] then Some (acc', Some (length acc'))
                  else v6_groups t acc' (Some (length acc')))
               else v6_groups (d # t) acc' ell)"
  by pat_completeness auto
termination
  by (relation "measure (\<lambda>(s, acc, ell). 16 - length acc)") auto

declare v6_groups.simps [simp del]

definition expand_ellipsis :: "bytes \<times> nat option \<Rightarrow> bytes option" where
  "expand_ellipsis r =
     (case r of
        (acc, None) \<Rightarrow> if length acc = 16 then Some acc else None
      | (acc, Some e) \<Rightarrow>
          if 16 \<le> length acc then None
          else Some (take e acc @ replicate (16 - length acc) 0 @ drop e acc))"

definition parse_v6 :: "string \<Rightarrow> bytes option" where
  "parse_v6 s =
     (if take 2 s = ''::'' then
        (if drop 2 s = [] then Some (replicate 16 0)
         else Option.bind (v6_groups (drop 2 s) [] (Some 0)) expand_ellipsis)
      else Option.bind (v6_groups s [] None) expand_ellipsis)"

datatype netip = Addr4 bytes | Addr6 bytes string

text \<open>
  \<open>netip.ParseAddr\<close>: the first of dot, colon and percent decides which parser runs. The
  second component of an IPv6 address is its zone.
\<close>

fun addr_kind :: "string \<Rightarrow> char option" where
  "addr_kind [] = None"
| "addr_kind (c # s) = (if c = CHR ''.'' \<or> c = CHR '':'' \<or> c = CHR ''%'' then Some c else addr_kind s)"

definition ParseAddr :: "string \<Rightarrow> netip option" where
  "ParseAddr s =
     (if addr_kind s = Some (CHR ''.'') then map_option Addr4 (parse_v4 s)
      else if addr_kind s = Some (CHR '':'') then
        (case Cut (CHR ''%'') s of (a, zone, found) \<Rightarrow>
           if found \<and> zone = [] then None else map_option (\<lambda>b. Addr6 b zone) (parse_v6 a))
      else None)"

definition v4_in_v6_prefix :: bytes where
  "v4_in_v6_prefix = replicate 10 0 @ [0xff, 0xff]"

fun As16 :: "netip \<Rightarrow> bytes" where
  "As16 (Addr4 b) = v4_in_v6_prefix @ b"
| "As16 (Addr6 b _) = b"

fun addr_zone :: "netip \<Rightarrow> string" where
  "addr_zone (Addr4 _) = []"
| "addr_zone (Addr6 _ z) = z"

fun BitLen :: "netip \<Rightarrow> nat" where
  "BitLen (Addr4 _) = 32"
| "BitLen (Addr6 _ _) = 128"

definition ParseIP :: "string \<Rightarrow> net_ip option" where
  "ParseIP s = (case ParseAddr s of None \<Rightarrow> None | Some a \<Rightarrow> if addr_zone a \<noteq> [] then None else Some (As16 a))"

definition To4 :: "net_ip \<Rightarrow> bytes option" where
  "To4 ip =
     (if length ip = 4 then Some ip
      else if length ip = 16 \<and> take 12 ip = v4_in_v6_prefix then Some (drop 12 ip)
      else None)"

section \<open>Networks\<close>

record ip_net =
  net_addr :: bytes
  mask_ones :: nat
  mask_bits :: nat

text \<open>\<open>net.CIDRMask(n, 8*k)\<close>: \<open>n\<close> one bits, then zeros.\<close>

fun CIDRMask :: "nat \<Rightarrow> nat \<Rightarrow> bytes" where
  "CIDRMask n 0 = []"
| "CIDRMask n (Suc k) = (NOT (drop_bit (min n 8) (0xff :: byte))) # CIDRMask (n - 8) k"

definition mask_ip :: "bytes \<Rightarrow> bytes \<Rightarrow> bytes" where
  "mask_ip ip m = map2 (AND) ip m"

text \<open>
  \<open>net.ParseCIDR\<close>, the network part: for an IPv4 text the four masked bytes with a
  32-bit mask, for an IPv6 text the sixteen masked bytes with a 128-bit mask.
\<close>

definition ParseCIDR :: "string \<Rightarrow> ip_net option" where
  "ParseCIDR s =
     (case Cut (CHR ''/'') s of (addr, plen, found) \<Rightarrow>
        if \<not> found then None
        else case ParseAddr addr of
          None \<Rightarrow> None
        | Some a \<Rightarrow>
            if addr_zone a \<noteq> [] \<or> plen = [] \<or> \<not> list_all is_digit plen \<or> BitLen a < nat_of_digits plen
            then None
            else let n = nat_of_digits plen; b = (case a of Addr4 b \<Rightarrow> b | Addr6 b _ \<Rightarrow> b)
                 in Some \<lparr>net_addr = mask_ip b (CIDRMask n (length b)), mask_ones = n,
                         mask_bits = BitLen a\<rparr>)"

section \<open>Printing addresses\<close>

definition dotted :: "bytes \<Rightarrow> string" where
  "dotted b = Join (map (\<lambda>x. dec_nat (unat x)) b) ''.''"

definition hex_digit :: "nat \<Rightarrow> char" where
  "hex_digit n = (if n < 10 then char_of (48 + n) else char_of (87 + n))"

fun hex_nat :: "nat \<Rightarrow> string" where
  "hex_nat n = (if n < 16 then [hex_digit n] else hex_nat (n div 16) @ [hex_digit (n mod 16)])"

declare hex_nat.simps [simp del]

fun groups16 :: "bytes \<Rightarrow> nat list" where
  "groups16 (a # b # bs) = (unat a * 256 + unat b) # groups16 bs"
| "groups16 _ = []"

definition zero_run :: "nat list \<Rightarrow> nat \<Rightarrow> nat" where
  "zero_run gs i = length (takeWhile (\<lambda>g. g = 0) (drop i gs))"

text \<open>The first longest run of at least two zero groups, as its start and length.\<close>

definition best_run :: "nat list \<Rightarrow> (nat \<times> nat) option" where
  "best_run gs =
     foldl (\<lambda>best i. let n = zero_run gs i
                     in if n \<ge> 2 \<and> (case best of None \<Rightarrow> True | Some (_, m) \<Rightarrow> m < n) then Some (i, n) else best)
       None [0..<length gs]"

definition v6_string :: "bytes \<Rightarrow> string" where
  "v6_string b =
     (let gs = groups16 b
      in case best_run gs of
           None \<Rightarrow> Join (map hex_nat gs) '':''
         | Some (i, n) \<Rightarrow>
             Join (map hex_nat (take i gs)) '':'' @ ''::'' @ Join (map hex_nat (drop (i + n) gs)) '':'')"

definition IP_String :: "net_ip \<Rightarrow> string" where
  "IP_String ip =
     (case To4 ip of Some b \<Rightarrow> dotted b
      | None \<Rightarrow> if length ip = 16 then v6_string ip else ''?'')"

section \<open>Host and port\<close>

text \<open>\<open>net.JoinHostPort\<close> brackets a host that contains a colon.\<close>

definition JoinHostPort :: "string \<Rightarrow> string \<Rightarrow> string" where
  "JoinHostPort host port =
     (if CHR '':'' \<in> set host then ''['' @ host @ '']:'' @ port else host @ '':'' @ port)"

fun last_index :: "char \<Rightarrow> string \<Rightarrow> nat option" where
  "last_index c [] = None"
| "last_index c (d # s) =
     (case last_index c s of Some i \<Rightarrow> Some (Suc i) | None \<Rightarrow> if d = c then Some 0 else None)"

fun index_of :: "char \<Rightarrow> string \<Rightarrow> nat option" where
  "index_of c [] = None"
| "index_of c (d # s) = (if d = c then Some 0 else map_option Suc (index_of c s))"

text \<open>
  \<open>net.SplitHostPort\<close>: the port is what follows the last colon; a bracketed host must
  be closed right before that colon, an unbracketed one contains no colon, and no stray
  bracket is left on either side.
\<close>

definition SplitHostPort :: "string \<Rightarrow> (string \<times> string) option" where
  "SplitHostPort hp =
     (case last_index (CHR '':'') hp of
        None \<Rightarrow> None
      | Some i \<Rightarrow>
          if hp \<noteq> [] \<and> hd hp = CHR ''['' then
            (case index_of (CHR '']'') hp of
               None \<Rightarrow> None
             | Some e \<Rightarrow>
                 if e + 1 = length hp then None
                 else if e + 1 \<noteq> i then None
                 else if CHR ''['' \<in> set (drop 1 hp) then None
                 else if CHR '']'' \<in> set (drop (e + 1) hp) then None
                 else Some (take (e - 1) (drop 1 hp), drop (i + 1) hp))
          else
            (if CHR '':'' \<in> set (take i hp) then None
             else if CHR ''['' \<in> set hp then None
             else if CHR '']'' \<in> set hp then None
             else Some (take i hp, drop (i + 1) hp)))"

section \<open>Laws\<close>

lemma expand_ellipsis_length: "expand_ellipsis r = Some b \<Longrightarrow> length b = 16"
  by (auto simp: expand_ellipsis_def split: prod.splits option.splits if_splits)

lemma parse_v6_length: "parse_v6 s = Some b \<Longrightarrow> length b = 16"
  by (auto simp: parse_v6_def bind_eq_Some_conv expand_ellipsis_length split: if_splits)

lemma parse_v4_length: "parse_v4 s = Some b \<Longrightarrow> length b = 4"
  by (auto simp: parse_v4_def split: list.splits option.splits)

lemma ParseAddr_length:
  "ParseAddr s = Some (Addr4 b) \<Longrightarrow> length b = 4"
  "ParseAddr s = Some (Addr6 b z) \<Longrightarrow> length b = 16"
  by (auto simp: ParseAddr_def parse_v4_length parse_v6_length split: if_splits prod.splits)

lemma length_CIDRMask [simp]: "length (CIDRMask n k) = k"
  by (induction k arbitrary: n) simp_all

lemma drop_CIDRMask: "drop j (CIDRMask n k) = CIDRMask (n - 8 * j) (k - j)"
proof (induction j arbitrary: n k)
  case (Suc j)
  show ?case
  proof (cases k)
    case (Suc k')
    with Suc.IH [of "n - 8" k'] show ?thesis by (simp add: diff_diff_eq)
  qed simp
qed simp

lemma CIDRMask_4:
  "CIDRMask n 4 =
     [NOT (drop_bit (min n 8) 0xff), NOT (drop_bit (min (n - 8) 8) 0xff),
      NOT (drop_bit (min (n - 16) 8) 0xff), NOT (drop_bit (min (n - 24) 8) 0xff)]"
  by (simp add: numeral_eq_Suc)

lemma bit_mask_byte: "t < 8 \<Longrightarrow> bit (NOT (drop_bit k (0xff :: byte))) t \<longleftrightarrow> 8 \<le> k + t"
proof -
  assume t: "t < 8"
  have ff: "(0xff :: byte) = mask 8" by (simp add: mask_eq_exp_minus_1)
  have "bit (0xff :: byte) (k + t) \<longleftrightarrow> k + t < 8"
    unfolding ff bit_mask_iff by auto
  with t show ?thesis by (auto simp: bit_simps)
qed

lemma dotted_ascii: "ascii (dotted b)"
  by (auto simp: dotted_def intro!: Join_ascii)

end
