(* ===== verification/Pool.thy ===== *)
theory Pool
  imports GoNet
begin

text \<open>
  The tunnel address pool of \<open>internal/server/pool.go\<close>: an IPv4 network from which
  \<open>/32\<close> addresses are handed out and taken back. All arithmetic is that of \<open>uint32\<close>.
\<close>

section \<open>The pool\<close>

record ip_pool =
  pool_network :: ip_net
  pool_base :: u32
  pool_size :: u32
  pool_gateway :: u32
  pool_next :: u32
  pool_assigned :: "u32 set"

fun Uint32 :: "bytes \<Rightarrow> u32" where
  "Uint32 (a # b # c # d # _) = get_be32 a b c d"
| "Uint32 _ = 0"

definition newIPPool :: "string \<Rightarrow> string \<Rightarrow> ip_pool result" where
  "newIPPool cidr gateway =
     (case ParseCIDR cidr of
        None \<Rightarrow> Err (''parse tunnel cidr '' @ cidr)
      | Some network \<Rightarrow>
          case To4 (net_addr network) of
            None \<Rightarrow> Err ''tunnel cidr must be IPv4''
          | Some ip4 \<Rightarrow>
              case Option.bind (ParseIP gateway) To4 of
                None \<Rightarrow> Err (''invalid gateway '' @ gateway)
              | Some gw \<Rightarrow>
                  Ok \<lparr>pool_network = network, pool_base = Uint32 ip4,
                      pool_size = push_bit (mask_bits network - mask_ones network) 1,
                      pool_gateway = Uint32 gw,
                      pool_next = Uint32 ip4 + 1,
                      pool_assigned = {}\<rparr>)"

definition Ones :: "ip_pool \<Rightarrow> nat" where
  "Ones p = mask_ones (pool_network p)"

definition uint32ToIP :: "u32 \<Rightarrow> net_ip" where
  "uint32ToIP v = put_be32 v"

text \<open>
  The scan of \<open>Allocate\<close> from loop index \<open>i\<close>. The remainder by \<open>size - 2\<close> is a run-time
  panic when the divisor is zero.
\<close>

definition candidate :: "ip_pool \<Rightarrow> u32 \<Rightarrow> u32" where
  "candidate p i =
     pool_base p + 1 + ((pool_next p - pool_base p - 1 + i) mod (pool_size p - 2))"

function alloc_scan :: "ip_pool \<Rightarrow> nat \<Rightarrow> u32 result" where
  "alloc_scan p i =
     (if i < unat (pool_size p) then
        if pool_size p - 2 = 0 then Panic ''integer divide by zero''
        else let cand = candidate p (word_of_nat i)
             in if cand = pool_gateway p \<or> cand \<in> pool_assigned p then alloc_scan p (Suc i)
                else Ok cand
      else Err ''tunnel address pool exhausted'')"
  by pat_completeness auto
termination
  by (relation "measure (\<lambda>(p, i). unat (pool_size p) - i)") auto

declare alloc_scan.simps [simp del]

definition Allocate :: "ip_pool \<Rightarrow> net_ip result \<times> ip_pool" where
  "Allocate p =
     (case alloc_scan p 0 of
        Ok cand \<Rightarrow>
          (Ok (uint32ToIP cand),
           p\<lparr>pool_assigned := insert cand (pool_assigned p), pool_next := cand + 1\<rparr>)
      | Err e \<Rightarrow> (Err e, p)
      | Panic e \<Rightarrow> (Panic e, p))"

definition Release :: "net_ip \<Rightarrow> ip_pool \<Rightarrow> ip_pool" where
  "Release ip p =
     (case To4 ip of
        None \<Rightarrow> p
      | Some ip4 \<Rightarrow> p\<lparr>pool_assigned := pool_assigned p - {Uint32 ip4}\<rparr>)"

definition ipToUint32 :: "net_ip \<Rightarrow> u32" where
  "ipToUint32 ip = (case To4 ip of Some b \<Rightarrow> Uint32 b | None \<Rightarrow> 0)"

section \<open>Addresses and their bytes\<close>

lemma Uint32_put [simp, wire]: "Uint32 (put_be32 v) = v"
  by (simp add: put_be32_def)

lemma To4_uint32ToIP [simp]: "To4 (uint32ToIP v) = Some (put_be32 v)"
  by (simp add: To4_def uint32ToIP_def)

lemma ipToUint32_uint32ToIP [simp]: "ipToUint32 (uint32ToIP v) = v"
  by (simp add: ipToUint32_def)

lemma Release_uint32ToIP [simp]:
  "Release (uint32ToIP v) p = p\<lparr>pool_assigned := pool_assigned p - {v}\<rparr>"
  by (simp add: Release_def)

section \<open>Well-formed pools\<close>

text \<open>
  The addresses a pool may hand out: strictly between the network and the broadcast
  address, and not the gateway.
\<close>

definition usable :: "ip_pool \<Rightarrow> u32 set" where
  "usable p =
     {a. unat (pool_base p) < unat a \<and> unat a < unat (pool_base p) + unat (pool_size p) - 1 \<and>
         a \<noteq> pool_gateway p}"

text \<open>
  A pool over a network of prefix length 1 to 30: the size is a power of two, the base
  is a multiple of it, the cursor points behind a usable address, and only usable
  addresses are assigned.
\<close>

definition pool_wf :: "ip_pool \<Rightarrow> bool" where
  "pool_wf p \<longleftrightarrow>
     4 \<le> unat (pool_size p) \<and> unat (pool_size p) \<le> 2 ^ 31 \<and>
     unat (pool_base p) + unat (pool_size p) \<le> 2 ^ 32 \<and>
     unat (pool_base p) < unat (pool_next p) \<and>
     unat (pool_next p) < unat (pool_base p) + unat (pool_size p) \<and>
     pool_assigned p \<subseteq> usable p"

lemma unat_u32_less [simp]: "unat (v :: u32) < 4294967296"
  using unsigned_less [of v, where ?'a = nat] by simp

text \<open>The candidate of step \<open>i\<close>, free of wrap-around.\<close>

lemma unat_candidate:
  assumes wf: "pool_wf p" and i: "i < unat (pool_size p)"
  defines "m \<equiv> unat (pool_size p) - 2" and "o' \<equiv> unat (pool_next p) - unat (pool_base p) - 1"
  shows "unat (candidate p (word_of_nat i)) = unat (pool_base p) + 1 + (o' + i) mod m"
proof -
  have m: "0 < m" "o' \<le> m" "m \<le> 2 ^ 31 - 2" "unat (pool_base p) + m + 2 \<le> 2 ^ 32"
    using wf by (auto simp: pool_wf_def m_def o'_def)
  have size: "unat (pool_size p - 2) = m"
    using wf by (simp add: m_def pool_wf_def unat_sub_if_size)
  have le: "pool_base p \<le> pool_next p" "1 \<le> pool_next p - pool_base p"
    using wf by (auto simp: pool_wf_def word_le_nat_alt unat_sub_if_size)
  have off: "unat (pool_next p - pool_base p - 1) = o'"
    using le by (simp add: o'_def unat_sub word_le_nat_alt)
  have i': "unat (word_of_nat i :: u32) = i"
    using i wf by (simp add: pool_wf_def unat_of_nat)
  have sum: "unat (pool_next p - pool_base p - 1 + word_of_nat i) = o' + i"
    using i m off i' by (simp add: unat_word_ariths m_def)
  have r: "unat ((pool_next p - pool_base p - 1 + word_of_nat i) mod (pool_size p - 2)) = (o' + i) mod m"
    by (simp add: unat_mod_distrib sum size)
  have plus: "unat (pool_base p + 1 + w) = unat (pool_base p) + 1 + unat w"
    if "unat (pool_base p) + 1 + unat w < 2 ^ 32" for w
    using that by (simp add: unat_word_ariths)
  have "(o' + i) mod m < m" using m(1) by simp
  with m(4) r show ?thesis
    unfolding candidate_def by (subst plus) simp_all
qed

lemma candidate_usable:
  assumes "pool_wf p" "i < unat (pool_size p)" "candidate p (word_of_nat i) \<noteq> pool_gateway p"
  shows "candidate p (word_of_nat i) \<in> usable p"
proof -
  have "0 < unat (pool_size p) - 2" using assms(1) by (simp add: pool_wf_def)
  then have "(unat (pool_next p) - unat (pool_base p) - 1 + i) mod (unat (pool_size p) - 2)
      < unat (pool_size p) - 2" by simp
  with assms unat_candidate [OF assms(1,2)] show ?thesis
    by (simp add: usable_def)
qed

text \<open>Every usable address is the candidate of some step of the scan.\<close>

lemma candidate_covers:
  assumes wf: "pool_wf p" and a: "a \<in> usable p"
  shows "\<exists>i < unat (pool_size p). candidate p (word_of_nat i) = a"
proof -
  define m where "m = unat (pool_size p) - 2"
  define off where "off = unat (pool_next p) - unat (pool_base p) - 1"
  define r where "r = unat a - unat (pool_base p) - 1"
  define i where "i = (r + (m - off mod m)) mod m"
  have m: "0 < m" "m < unat (pool_size p)" using wf by (auto simp: pool_wf_def m_def)
  have r: "r < m" "unat a = unat (pool_base p) + 1 + r"
    using a by (auto simp: usable_def r_def m_def)
  have i: "i < unat (pool_size p)" using m by (simp add: i_def less_trans [OF mod_less_divisor])
  have "(off + i) mod m = (off mod m + (r + (m - off mod m))) mod m"
    unfolding i_def by (simp add: mod_simps)
  also have "off mod m + (r + (m - off mod m)) = r + m"
    using mod_less_divisor [OF m(1), of off] by linarith
  finally have "(off + i) mod m = r" using r(1) by simp
  with unat_candidate [OF wf i] r(2) have "unat (candidate p (word_of_nat i)) = unat a"
    by (simp add: off_def m_def)
  then have "candidate p (word_of_nat i) = a" by (simp add: word_unat_eq_iff)
  with i show ?thesis by blast
qed

section \<open>The scan\<close>

lemma wf_divisor: "pool_wf p \<Longrightarrow> pool_size p - 2 \<noteq> 0"
  by (auto simp: pool_wf_def)

lemma alloc_scan_Ok:
  assumes "pool_wf p" "alloc_scan p i = Ok a"
  shows "a \<in> usable p \<and> a \<notin> pool_assigned p"
  using assms
proof (induction p i rule: alloc_scan.induct)
  case (1 p i)
  note step = alloc_scan.simps [of p i]
  show ?case
    using 1 candidate_usable [of p i] by (auto simp: step Let_def split: if_splits)
qed

lemma alloc_scan_Err:
  assumes "pool_wf p" "alloc_scan p i = Err e" "i \<le> j" "j < unat (pool_size p)"
  shows "candidate p (word_of_nat j) = pool_gateway p \<or> candidate p (word_of_nat j) \<in> pool_assigned p"
  using assms
proof (induction p i rule: alloc_scan.induct)
  case (1 p i)
  note step = alloc_scan.simps [of p i]
  show ?case
    using 1 by (cases "j = i") (auto simp: step Let_def split: if_splits)
qed

lemma alloc_scan_no_panic:
  assumes "pool_wf p"
  shows "alloc_scan p i \<noteq> Panic e"
  using assms
proof (induction p i rule: alloc_scan.induct)
  case (1 p i)
  note step = alloc_scan.simps [of p i]
  show ?case
    using 1 wf_divisor [OF 1(2)] by (auto simp: step Let_def)
qed

lemma alloc_scan_exhausted:
  assumes "pool_wf p" "alloc_scan p 0 = Err e"
  shows "usable p \<subseteq> pool_assigned p"
proof
  fix a assume a: "a \<in> usable p"
  then obtain i where "i < unat (pool_size p)" "candidate p (word_of_nat i) = a"
    using candidate_covers [OF assms(1)] by blast
  with alloc_scan_Err [OF assms, of i] a show "a \<in> pool_assigned p"
    by (auto simp: usable_def)
qed

section \<open>The interface of an address pool\<close>

text \<open>
  What the server relies on, independently of how the pool looks for a free address:
  an allocation delivers an available address not in use, it fails only when none is
  left, and a release makes exactly that address free again.
\<close>

locale address_pool =
  fixes alloc :: "'p \<Rightarrow> 'a result \<times> 'p" and release :: "'a \<Rightarrow> 'p \<Rightarrow> 'p"
    and used :: "'p \<Rightarrow> 'a set" and avail :: "'p \<Rightarrow> 'a set" and wf :: "'p \<Rightarrow> bool"
  assumes alloc_Ok: "wf p \<Longrightarrow> alloc p = (Ok a, p') \<Longrightarrow>
      a \<in> avail p \<and> a \<notin> used p \<and> used p' = insert a (used p) \<and> avail p' = avail p \<and> wf p'"
    and alloc_Err: "wf p \<Longrightarrow> alloc p = (Err e, p') \<Longrightarrow> p' = p \<and> avail p \<subseteq> used p"
    and alloc_no_Panic: "wf p \<Longrightarrow> alloc p \<noteq> (Panic e, p')"
    and release_used: "wf p \<Longrightarrow> a \<in> avail p \<Longrightarrow>
      used (release a p) = used p - {a} \<and> avail (release a p) = avail p \<and> wf (release a p)"
    and used_avail: "wf p \<Longrightarrow> used p \<subseteq> avail p"
begin

lemma alloc_succeeds_iff:
  assumes "wf p"
  shows "is_Ok (fst (alloc p)) \<longleftrightarrow> used p \<noteq> avail p"
proof (cases "alloc p")
  case (Pair r p')
  show ?thesis
  proof (cases r)
    case (Ok a)
    with Pair alloc_Ok [OF assms, of a p'] show ?thesis by auto
  next
    case (Err e)
    with Pair alloc_Err [OF assms, of e p'] used_avail [OF assms] show ?thesis by auto
  next
    case (Panic e)
    with Pair alloc_no_Panic [OF assms, of e p'] show ?thesis by simp
  qed
qed

lemma release_after_alloc:
  assumes "wf p" "alloc p = (Ok a, p')"
  shows "used (release a p') = used p" "avail (release a p') = avail p" "wf (release a p')"
  using alloc_Ok [OF assms] release_used [of p' a] by auto

lemma release_makes_room:
  assumes "wf p" "a \<in> used p"
  shows "is_Ok (fst (alloc (release a p)))"
proof -
  have "a \<in> avail p" using assms used_avail by blast
  with release_used [OF assms(1)] have "wf (release a p)" "used (release a p) \<noteq> avail (release a p)"
    using assms(2) by auto
  then show ?thesis by (simp add: alloc_succeeds_iff)
qed

end

lemma Allocate_wf:
  assumes wf: "pool_wf p" and a: "a \<in> usable p"
  shows "pool_wf (p\<lparr>pool_assigned := insert a (pool_assigned p), pool_next := a + 1\<rparr>)"
proof -
  have "unat (a + 1) = unat a + 1"
    using wf a by (auto simp: pool_wf_def usable_def unat_word_ariths)
  with wf a show ?thesis by (auto simp: pool_wf_def usable_def)
qed

lemma uint32ToIP_inj [simp]: "uint32ToIP a = uint32ToIP b \<longleftrightarrow> a = b"
  by (simp add: uint32ToIP_def be32.enc_inj)

abbreviation pool_used :: "ip_pool \<Rightarrow> net_ip set" where
  "pool_used p \<equiv> uint32ToIP ` pool_assigned p"

abbreviation pool_avail :: "ip_pool \<Rightarrow> net_ip set" where
  "pool_avail p \<equiv> uint32ToIP ` usable p"

lemma usable_update [simp]:
  "usable (p\<lparr>pool_assigned := A\<rparr>) = usable p" "usable (p\<lparr>pool_next := n\<rparr>) = usable p"
  by (simp_all add: usable_def)

interpretation pool: address_pool Allocate Release pool_used pool_avail pool_wf
proof (unfold_locales, goal_cases)
  case (1 p a p')
  then show ?case
    using Allocate_wf [OF 1(1)] alloc_scan_Ok [OF 1(1)]
    by (auto simp: Allocate_def split: result.splits)
next
  case (2 p e p')
  then show ?case
    using alloc_scan_exhausted [OF 2(1)] by (auto simp: Allocate_def split: result.splits)
next
  case (3 p e p')
  then show ?case
    using alloc_scan_no_panic [OF 3] by (auto simp: Allocate_def split: result.splits)
next
  case (4 p a)
  then show ?case by (auto simp: pool_wf_def)
next
  case (5 p)
  then show ?case by (auto simp: pool_wf_def)
qed

section \<open>New pools\<close>

text \<open>The host part of a masked address is zero.\<close>

lemma masked_low_bits:
  assumes "length b = 4" "n \<le> 32" "i < 32 - n"
  shows "\<not> bit (Uint32 (mask_ip b (CIDRMask n 4))) i"
proof -
  obtain b0 b1 b2 b3 where b: "b = [b0, b1, b2, b3]"
    using assms(1) by (auto simp: numeral_eq_Suc length_Suc_conv)
  consider "i < 8" | "8 \<le> i" "i < 16" | "16 \<le> i" "i < 24" | "24 \<le> i" "i < 32"
    using assms(3) by fastforce
  then show ?thesis
    using assms(2,3)
    by cases (auto simp: b mask_ip_def CIDRMask_4 get_be32_def bit_or_iff bit_push_bit_iff
        bit_ucast_iff bit_and_iff bit_mask_byte min_def split: if_splits)
qed

lemma aligned_room:
  assumes "\<And>i. i < k \<Longrightarrow> \<not> bit (v :: u32) i" "k < 32"
  shows "unat v + 2 ^ k \<le> 2 ^ 32"
proof -
  have "take_bit k v = 0" using assms(1) by (auto intro!: bit_word_eqI simp: bit_take_bit_iff)
  then have "unat v mod 2 ^ k = 0"
    by (metis take_bit_eq_mod unsigned_0 unsigned_take_bit_eq)
  then obtain q where q: "unat v = 2 ^ k * q" by auto
  have "(2 :: nat) ^ 32 = 2 ^ k * 2 ^ (32 - k)"
    using assms(2) by (simp flip: power_add)
  moreover from this q have "2 ^ k * q < 2 ^ k * 2 ^ (32 - k)"
    using unsigned_less [of v, where ?'a = nat] by simp
  then have "q < 2 ^ (32 - k)" by simp
  ultimately show ?thesis using q by (metis Suc_leI mult_Suc_right add.commute mult_le_mono2)
qed

lemma unat_shift_one: "k < 32 \<Longrightarrow> unat (push_bit k 1 :: u32) = 2 ^ k"
  using unsigned_push_bit_eq [of k "1 :: u32", where ?'a = nat] power_strict_increasing [of k 32 "2 :: nat"]
  by (simp add: take_bit_eq_mod)

text \<open>The four bytes of a network address and the number of its host bits.\<close>

lemma ParseCIDR_v4:
  assumes "ParseCIDR s = Some net" "To4 (net_addr net) = Some ip4"
    and "mask_bits net - mask_ones net \<le> 32"
  shows "\<exists>b. length b = 4 \<and> ip4 = mask_ip b (CIDRMask (32 - (mask_bits net - mask_ones net)) 4)"
proof -
  from assms(1) obtain a n where a: "ParseAddr (fst (Cut (CHR ''/'') s)) = Some a" and n: "n \<le> BitLen a"
    and net: "net = \<lparr>net_addr = mask_ip (case a of Addr4 b \<Rightarrow> b | Addr6 b _ \<Rightarrow> b)
        (CIDRMask n (length (case a of Addr4 b \<Rightarrow> b | Addr6 b _ \<Rightarrow> b))), mask_ones = n, mask_bits = BitLen a\<rparr>"
    by (auto simp: ParseCIDR_def Let_def split: prod.splits option.splits if_splits)
  show ?thesis
  proof (cases a)
    case (Addr4 b)
    with a have "length b = 4" using ParseAddr_length(1) by blast
    with Addr4 net assms(2) n show ?thesis by (auto simp: To4_def mask_ip_def)
  next
    case (Addr6 b z)
    with a have b: "length b = 16" using ParseAddr_length(2) by blast
    with Addr6 net assms(2) have ip4: "ip4 = drop 12 (mask_ip b (CIDRMask n 16))"
      by (auto simp: To4_def mask_ip_def split: if_splits)
    have "ip4 = mask_ip (drop 12 b) (CIDRMask (n - 96) 4)"
      by (simp add: ip4 mask_ip_def drop_map drop_zip drop_CIDRMask)
    moreover have k: "mask_bits net - mask_ones net = 128 - n" by (simp add: net Addr6)
    then have "n - 96 = 32 - (mask_bits net - mask_ones net)" using assms(3) n Addr6 by simp
    ultimately have "ip4 = mask_ip (drop 12 b) (CIDRMask (32 - (mask_bits net - mask_ones net)) 4)"
      by simp
    moreover have "length (drop 12 b) = 4" using b by simp
    ultimately show ?thesis by blast
  qed
qed

lemma newIPPool_wf:
  assumes "newIPPool cidr gw = Ok p"
    and k: "2 \<le> mask_bits (pool_network p) - mask_ones (pool_network p)"
      "mask_bits (pool_network p) - mask_ones (pool_network p) \<le> 31"
  shows "pool_wf p \<and> pool_assigned p = {}"
proof -
  define k where "k = mask_bits (pool_network p) - mask_ones (pool_network p)"
  from assms(1) obtain ip4 where cidr: "ParseCIDR cidr = Some (pool_network p)"
    and ip4: "To4 (net_addr (pool_network p)) = Some ip4"
    and p: "pool_base p = Uint32 ip4" "pool_size p = push_bit k 1" "pool_next p = Uint32 ip4 + 1"
      "pool_assigned p = {}"
    by (auto simp: newIPPool_def k_def split: option.splits)
  have k: "2 \<le> k" "k \<le> 31" using k by (simp_all add: k_def)
  obtain b where "length b = 4" "ip4 = mask_ip b (CIDRMask (32 - k) 4)"
    using ParseCIDR_v4 [OF cidr ip4] k(2) by (auto simp: k_def)
  then have "\<not> bit (pool_base p) i" if "i < k" for i
    using masked_low_bits [of b "32 - k" i] that k(2) p(1) by simp
  then have room: "unat (pool_base p) + 2 ^ k \<le> 2 ^ 32"
    using aligned_room [of k "pool_base p"] k(2) by simp
  have pow: "(4 :: nat) \<le> 2 ^ k" "(2 :: nat) ^ k \<le> 2 ^ 31"
    using k power_increasing [of 2 k "2 :: nat"] power_increasing [of k 31 "2 :: nat"] by simp_all
  have size: "unat (pool_size p) = 2 ^ k"
    using k(2) unat_shift_one [of k] p(2) by simp
  have "unat (pool_next p) = unat (pool_base p) + 1"
    using room pow p(1,3) by (simp add: unat_word_ariths)
  with room pow size p(4) show ?thesis by (simp add: pool_wf_def)
qed

section \<open>Properties\<close>

text \<open>The pool of the default configuration.\<close>

definition default_pool :: ip_pool where
  "default_pool =
     \<lparr>pool_network = \<lparr>net_addr = [10, 66, 0, 0], mask_ones = 24, mask_bits = 32\<rparr>,
      pool_base = 0x0A420000, pool_size = 256, pool_gateway = 0x0A420001, pool_next = 0x0A420001,
      pool_assigned = {}\<rparr>"

lemma newIPPool_default: "newIPPool ''10.66.0.0/24'' ''10.66.0.1'' = Ok default_pool"
  by code_simp

lemma default_pool_wf [simp]: "pool_wf default_pool"
  by (simp add: pool_wf_def default_pool_def)

lemma default_pool_usable: "0x0A420002 \<in> usable default_pool"
  by (simp add: usable_def default_pool_def)

lemma default_pool_free [simp]: "pool_assigned default_pool = {}" "usable default_pool \<noteq> {}"
  "{} \<noteq> usable default_pool" "Ones default_pool = 24"
  using default_pool_usable by (auto simp: default_pool_def Ones_def)

text \<open>C13: allocation from a well-formed pool. It never panics; it fails exactly when every
  usable address is assigned and then changes nothing; and otherwise it returns an address
  strictly inside the network, not the gateway and not assigned, which is assigned from then
  on, in a well-formed pool over the same addresses.\<close>

theorem Allocate_correct:
  assumes "pool_wf p"
  shows "case Allocate p of
      (Ok ip, p') \<Rightarrow> \<exists>a \<in> usable p - pool_assigned p. ip = uint32ToIP a \<and>
        pool_assigned p' = insert a (pool_assigned p) \<and> usable p' = usable p \<and> pool_wf p'
    | (Err e, p') \<Rightarrow> p' = p \<and> pool_assigned p = usable p
    | (Panic e, p') \<Rightarrow> False"
proof (cases "Allocate p")
  case (Pair r p')
  show ?thesis
  proof (cases r)
    case (Ok ip)
    then show ?thesis
      using Pair alloc_scan_Ok [OF assms, of 0] pool.alloc_Ok [OF assms, of ip p']
      by (auto simp: Allocate_def split: result.splits)
  next
    case (Err e)
    then show ?thesis
      using Pair alloc_scan_exhausted [OF assms] assms
      by (auto simp: Allocate_def pool_wf_def split: result.splits)
  next
    case (Panic e)
    then show ?thesis using Pair pool.alloc_no_Panic [OF assms, of e p'] by simp
  qed
qed

theorem Allocate_correct_witness:
  "case Allocate default_pool of
      (Ok ip, p') \<Rightarrow> \<exists>a \<in> usable default_pool - pool_assigned default_pool. ip = uint32ToIP a \<and>
        pool_assigned p' = insert a (pool_assigned default_pool) \<and> usable p' = usable default_pool \<and> pool_wf p'
    | (Err e, p') \<Rightarrow> p' = default_pool \<and> pool_assigned default_pool = usable default_pool
    | (Panic e, p') \<Rightarrow> False"
  by (rule Allocate_correct [OF default_pool_wf])

text \<open>A released address is the next one handed out when the pool was full.\<close>

lemma Release_then_Allocate:
  assumes "pool_wf p" "pool_assigned p = usable p" "a \<in> usable p"
  shows "fst (Allocate (Release (uint32ToIP a) p)) = Ok (uint32ToIP a)"
proof -
  let ?q = "Release (uint32ToIP a) p"
  have q: "pool_wf ?q" using assms pool.release_used [of p "uint32ToIP a"] by auto
  have "is_Ok (fst (Allocate ?q))"
    using assms by (intro pool.release_makes_room) auto
  then obtain ip p' where ip: "Allocate ?q = (Ok ip, p')" by (metis is_Ok_conv prod.collapse)
  from pool.alloc_Ok [OF q ip] assms(2) have "ip \<in> pool_avail p" "ip \<notin> uint32ToIP ` (usable p - {a})"
    by simp_all
  then have "ip = uint32ToIP a" by auto
  with ip show ?thesis by simp
qed

lemma Release_then_Allocate_witness:
  "\<exists>p a. fst (Allocate (Release (uint32ToIP a) p)) = Ok (uint32ToIP a) \<and>
    pool_network p = pool_network default_pool"
proof -
  let ?p = "default_pool\<lparr>pool_assigned := usable default_pool\<rparr>"
  have wf: "pool_wf ?p" using default_pool_wf by (simp add: pool_wf_def)
  have "fst (Allocate (Release (uint32ToIP 0x0A420002) ?p)) = Ok (uint32ToIP 0x0A420002)"
    by (rule Release_then_Allocate [OF wf]) (simp_all add: default_pool_usable)
  then show ?thesis by (intro exI [of _ ?p] exI [of _ "0x0A420002"]) (simp add: default_pool_def)
qed

text \<open>Every IPv4 network with a prefix of 1 to 30 bits makes a well-formed, empty pool.\<close>

lemma newIPPool_usable:
  assumes "newIPPool cidr gw = Ok p"
    and "2 \<le> mask_bits (pool_network p) - mask_ones (pool_network p)"
      "mask_bits (pool_network p) - mask_ones (pool_network p) \<le> 31"
  shows "pool_wf p \<and> pool_assigned p = {}"
  using newIPPool_wf [OF assms] .

lemma newIPPool_usable_witness: "pool_wf default_pool \<and> pool_assigned default_pool = {}"
  using newIPPool_usable [OF newIPPool_default] by (simp add: default_pool_def)


end
