(* ===== verification/GoBase64.thy ===== *)
theory GoBase64
  imports GoStrings
begin

text \<open>
  Go's package \<open>encoding/base64\<close>: the four predefined encodings the sources use,
  \<open>EncodeToString\<close> and \<open>DecodeString\<close>. The decoder is the non-strict one of the
  package: it skips carriage returns and line feeds wherever they occur and does not
  look at the unused low bits of the last symbol. Both liberties matter to the replay
  guard of the server, so they are modelled as they are.
\<close>

record base64_encoding =
  url_alphabet :: bool
  padded :: bool

definition StdEncoding :: base64_encoding where
  "StdEncoding = \<lparr>url_alphabet = False, padded = True\<rparr>"

definition RawStdEncoding :: base64_encoding where
  "RawStdEncoding = \<lparr>url_alphabet = False, padded = False\<rparr>"

definition URLEncoding :: base64_encoding where
  "URLEncoding = \<lparr>url_alphabet = True, padded = True\<rparr>"

definition RawURLEncoding :: base64_encoding where
  "RawURLEncoding = \<lparr>url_alphabet = True, padded = False\<rparr>"

definition enc_sym :: "bool \<Rightarrow> nat \<Rightarrow> char" where
  "enc_sym url n =
     (if n < 26 then char_of (65 + n)
      else if n < 52 then char_of (71 + n)
      else if n < 62 then char_of (n - 4)
      else if n = 62 then (if url then CHR ''-'' else CHR ''+'')
      else (if url then CHR ''_'' else CHR ''/''))"

definition dec_sym :: "bool \<Rightarrow> char \<Rightarrow> nat option" where
  "dec_sym url c =
     (let n = of_char c :: nat
      in if 65 \<le> n \<and> n \<le> 90 then Some (n - 65)
         else if 97 \<le> n \<and> n \<le> 122 then Some (n - 71)
         else if 48 \<le> n \<and> n \<le> 57 then Some (n + 4)
         else if c = (if url then CHR ''-'' else CHR ''+'') then Some 62
         else if c = (if url then CHR ''_'' else CHR ''/'') then Some 63
         else None)"

abbreviation pad_char :: char where "pad_char \<equiv> CHR ''=''"

definition pad_with :: "base64_encoding \<Rightarrow> nat \<Rightarrow> string" where
  "pad_with e n = (if padded e then replicate n pad_char else [])"

fun EncodeToString :: "base64_encoding \<Rightarrow> bytes \<Rightarrow> string" where
  "EncodeToString e [] = []"
| "EncodeToString e [a] =
     map (enc_sym (url_alphabet e)) [unat a div 4, unat a mod 4 * 16] @ pad_with e 2"
| "EncodeToString e [a, b] =
     map (enc_sym (url_alphabet e))
       [unat a div 4, unat a mod 4 * 16 + unat b div 16, unat b mod 16 * 4] @ pad_with e 1"
| "EncodeToString e (a # b # c # bs) =
     map (enc_sym (url_alphabet e))
       [unat a div 4, unat a mod 4 * 16 + unat b div 16, unat b mod 16 * 4 + unat c div 64,
        unat c mod 64] @ EncodeToString e bs"

text \<open>The bytes a group of two, three or four symbols stands for.\<close>

definition byte1 :: "nat \<Rightarrow> nat \<Rightarrow> byte" where
  "byte1 v w = word_of_nat (v * 4 + w div 16)"

definition byte2 :: "nat \<Rightarrow> nat \<Rightarrow> byte" where
  "byte2 w x = word_of_nat (w mod 16 * 16 + x div 4)"

definition byte3 :: "nat \<Rightarrow> nat \<Rightarrow> byte" where
  "byte3 x y = word_of_nat (x mod 4 * 64 + y)"

fun decode_quanta :: "base64_encoding \<Rightarrow> string \<Rightarrow> bytes option" where
  "decode_quanta e [] = Some []"
| "decode_quanta e [a] = None"
| "decode_quanta e [a, b] =
     (if padded e then None
      else case (dec_sym (url_alphabet e) a, dec_sym (url_alphabet e) b) of
        (Some v, Some w) \<Rightarrow> Some [byte1 v w] | _ \<Rightarrow> None)"
| "decode_quanta e [a, b, c] =
     (if padded e then None
      else case (dec_sym (url_alphabet e) a, dec_sym (url_alphabet e) b, dec_sym (url_alphabet e) c) of
        (Some v, Some w, Some x) \<Rightarrow> Some [byte1 v w, byte2 w x] | _ \<Rightarrow> None)"
| "decode_quanta e (a # b # c # d # s) =
     (case (dec_sym (url_alphabet e) a, dec_sym (url_alphabet e) b) of
        (Some v, Some w) \<Rightarrow>
          (case (dec_sym (url_alphabet e) c, dec_sym (url_alphabet e) d) of
             (Some x, Some y) \<Rightarrow>
               map_option (\<lambda>bs. byte1 v w # byte2 w x # byte3 x y # bs) (decode_quanta e s)
           | (Some x, None) \<Rightarrow>
               if padded e \<and> d = pad_char \<and> s = [] then Some [byte1 v w, byte2 w x] else None
           | (None, _) \<Rightarrow>
               if padded e \<and> c = pad_char \<and> d = pad_char \<and> s = [] then Some [byte1 v w] else None)
      | _ \<Rightarrow> None)"

definition is_newline :: "char \<Rightarrow> bool" where
  "is_newline c \<longleftrightarrow> c = LF \<or> c = CR"

definition DecodeString :: "base64_encoding \<Rightarrow> string \<Rightarrow> bytes option" where
  "DecodeString e s = decode_quanta e (filter (\<lambda>c. \<not> is_newline c) s)"

section \<open>Symbols\<close>

text \<open>Facts on characters are decided on their codes.\<close>

lemma char_code_eq: "c = d \<longleftrightarrow> (of_char c :: nat) = of_char d"
  by simp

definition enc_code :: "bool \<Rightarrow> nat \<Rightarrow> nat" where
  "enc_code u n =
     (if n < 26 then 65 + n else if n < 52 then 71 + n else if n < 62 then n - 4
      else if n = 62 then (if u then 45 else 43) else (if u then 95 else 47))"

lemma of_char_enc_sym: "n < 64 \<Longrightarrow> of_char (enc_sym u n) = enc_code u n"
  by (simp add: enc_sym_def enc_code_def)

lemma enc_code_laws:
  assumes "n < 64"
  shows "enc_code u n \<noteq> 9" "enc_code u n \<noteq> 10" "enc_code u n \<noteq> 11" "enc_code u n \<noteq> 12"
    "enc_code u n \<noteq> 13" "enc_code u n \<noteq> 32" "enc_code u n \<noteq> 61" "enc_code u n \<noteq> 124"
  using assms by (auto simp: enc_code_def)

lemma enc_sym_laws:
  assumes "n < 64"
  shows "dec_sym u (enc_sym u n) = Some n" "\<not> is_newline (enc_sym u n)"
    "enc_sym u n \<noteq> pad_char" "enc_sym u n \<noteq> CHR ''|''" "\<not> is_space (enc_sym u n)"
proof -
  show "dec_sym u (enc_sym u n) = Some n"
    using assms unfolding dec_sym_def Let_def of_char_enc_sym [OF assms]
    by (auto simp: enc_code_def enc_sym_def)
qed (use enc_code_laws [OF assms, of u] in
    \<open>auto simp: char_code_eq of_char_enc_sym [OF assms] is_newline_def is_space_def
      simp del: of_char_eq_iff\<close>)

lemma dec_sym_bound: "dec_sym u c = Some v \<Longrightarrow> v < 64"
  by (auto simp: dec_sym_def Let_def split: if_splits)

lemma dec_sym_pad [simp]: "dec_sym u pad_char = None"
  by (cases u) (simp_all add: dec_sym_def Let_def)

lemma dec_sym_newline: "is_newline c \<Longrightarrow> dec_sym u c = None"
  by (cases u) (auto simp: dec_sym_def Let_def is_newline_def)

section \<open>Round trip\<close>

lemma digit_split:
  fixes x y m :: nat
  assumes "y < m"
  shows "(x * m + y) div m = x" "(x * m + y) mod m = y"
  using assms by simp_all

lemma byte_digits [simp]:
  "unat (b :: byte) div 4 < 64" "unat b div 16 < 16" "unat b div 64 < 4"
  by (simp_all add: less_mult_imp_div_less)

lemma sextet_bounds [simp]:
  "unat (a :: byte) mod 4 * 16 < 64" "unat a mod 4 * 16 + unat (b :: byte) div 16 < 64"
  "unat b mod 16 * 4 < 64" "unat b mod 16 * 4 + unat (c :: byte) div 64 < 64"
proof -
  have "unat a mod 4 < 4" "unat b mod 16 < 16" by simp_all
  then show "unat a mod 4 * 16 < 64" "unat a mod 4 * 16 + unat b div 16 < 64"
    "unat b mod 16 * 4 < 64" "unat b mod 16 * 4 + unat c div 64 < 64"
    using byte_digits(2) [of b] byte_digits(3) [of c] by linarith+
qed

lemma sextets_join [simp]:
  "byte1 (unat a div 4) (unat a mod 4 * 16) = a"
  "byte1 (unat a div 4) (unat a mod 4 * 16 + unat b div 16) = a"
  "byte2 (unat a mod 4 * 16 + unat b div 16) (unat b mod 16 * 4) = b"
  "byte2 (unat a mod 4 * 16 + unat b div 16) (unat b mod 16 * 4 + unat c div 64) = b"
  "byte3 (unat b mod 16 * 4 + unat c div 64) (unat c mod 64) = c"
  by (simp_all add: byte1_def byte2_def byte3_def digit_split del: div_mult_self1 mod_mult_self1)

lemma decode_quanta_encode: "decode_quanta e (EncodeToString e bs) = Some bs"
  by (induction e bs rule: EncodeToString.induct) (simp_all add: enc_sym_laws pad_with_def numeral_2_eq_2)

lemma EncodeToString_chars:
  "set (EncodeToString e bs) \<subseteq> insert pad_char (enc_sym (url_alphabet e) ` {..< 64})"
  by (induction e bs rule: EncodeToString.induct) (auto simp: pad_with_def split: if_splits)

lemma EncodeToString_char_cases:
  assumes "c \<in> set (EncodeToString e bs)"
  obtains "c = pad_char" | n where "n < 64" "c = enc_sym (url_alphabet e) n"
  using EncodeToString_chars [of e bs] assms by auto

lemma EncodeToString_plain:
  "c \<in> set (EncodeToString e bs) \<Longrightarrow> \<not> is_newline c \<and> \<not> is_space c \<and> c \<noteq> CHR ''|''"
  by (erule EncodeToString_char_cases) (simp add: is_newline_def is_space_def, simp add: enc_sym_laws)

lemma EncodeToString_ascii [simp]: "ascii (EncodeToString e bs)"
proof -
  have "of_char c < (128 :: nat)" if "c \<in> set (EncodeToString e bs)" for c
    using that by (rule EncodeToString_char_cases) (simp, auto simp: of_char_enc_sym enc_code_def)
  then show ?thesis by (simp add: ascii_def)
qed

lemma EncodeToString_no_newline:
  "filter (\<lambda>c. \<not> is_newline c) (EncodeToString e bs) = EncodeToString e bs"
  by (auto simp: filter_id_conv dest: EncodeToString_plain)

lemma DecodeString_EncodeToString [simp, go_lib]: "DecodeString e (EncodeToString e bs) = Some bs"
  by (simp add: DecodeString_def EncodeToString_no_newline decode_quanta_encode)

interpretation b64: codec "EncodeToString e" "DecodeString e" for e
  by unfold_locales simp

lemma EncodeToString_no_space: "list_all (\<lambda>c. \<not> is_space c) (EncodeToString e bs)"
  by (auto simp: list_all_iff dest: EncodeToString_plain)

lemma TrimSpace_EncodeToString [simp, go_lib]: "TrimSpace (EncodeToString e bs) = EncodeToString e bs"
  by (rule TrimSpace_no_space) (rule EncodeToString_no_space)

section \<open>The decoder is not injective\<close>

text \<open>Line breaks are invisible to the decoder, wherever they are put.\<close>

lemma DecodeString_newline: "is_newline c \<Longrightarrow> DecodeString e (s @ c # t) = DecodeString e (s @ t)"
  by (simp add: DecodeString_def)

text \<open>The four unused bits of the last symbol of a padded one-byte group are ignored.\<close>

lemma decode_quanta_last_bits:
  "w div 16 = w' div 16 \<Longrightarrow> byte1 v w = byte1 v w'"
  by (simp add: byte1_def)

section \<open>Lengths\<close>

text \<open>A padded text is a whole number of groups of four symbols.\<close>

lemma decode_quanta_padded: "padded e \<Longrightarrow> decode_quanta e s = Some bs \<Longrightarrow> 4 dvd length s"
proof (induction e s arbitrary: bs rule: decode_quanta.induct)
  case (5 e a b c d s)
  show ?case
  proof (cases "s = []")
    case False
    with "5.prems" obtain v w x y bs' where "dec_sym (url_alphabet e) a = Some v"
      "dec_sym (url_alphabet e) b = Some w" "dec_sym (url_alphabet e) c = Some x"
      "dec_sym (url_alphabet e) d = Some y" "decode_quanta e s = Some bs'"
      by (auto split: option.splits)
    then have "4 dvd length s"
      using "5.IH" "5.prems"(1) by blast
    then show ?thesis by (simp, presburger)
  qed (simp, presburger)
qed (auto split: option.splits)

text \<open>The length of an unpadded text: four symbols for three bytes, and the remainder.\<close>

lemma length_EncodeToString_raw:
  "\<not> padded e \<Longrightarrow> length (EncodeToString e bs) = (4 * length bs + 2) div 3"
proof (induction e bs rule: EncodeToString.induct)
  case (4 e a b c bs)
  then show ?case by simp
qed (simp_all add: pad_with_def)

end
