(* ===== verification/GoSha256.thy ===== *)
theory GoSha256
  imports Prelude
begin

text \<open>
  Go's packages \<open>crypto/sha256\<close> and \<open>crypto/hmac\<close> as the handshake uses them: the
  SHA-256 compression on 32-bit words, the padded message, and HMAC with its 64-byte
  block. All definitions are executable.
\<close>

section \<open>SHA-256\<close>

text \<open>
  The constants by their definition: the first 32 bits of the fractional parts of the cube
  roots of the first 64 primes, and of the square roots of the first eight. \<open>root_bits\<close> finds
  the integer \<open>k\<close>-th root of \<open>n\<close> bit by bit.
\<close>

primrec root_bits :: "nat \<Rightarrow> int \<Rightarrow> nat \<Rightarrow> int \<Rightarrow> int" where
  "root_bits k n 0 a = a"
| "root_bits k n (Suc i) a = root_bits k n i (let b = a + 2 ^ i in if b ^ k \<le> n then b else a)"

definition first_primes :: "int list" where
  "first_primes = filter (\<lambda>n. list_all (\<lambda>d. n mod d \<noteq> 0) [2 .. n - 1]) [2 .. 311]"

definition sha256_K :: "u32 list" where
  "sha256_K = map (\<lambda>p. word_of_int (root_bits 3 (p * 2 ^ 96) 36 0)) first_primes"

definition sha256_H0 :: "u32 list" where
  "sha256_H0 = map (\<lambda>p. word_of_int (root_bits 2 (p * 2 ^ 64) 36 0)) [2, 3, 5, 7, 11, 13, 17, 19]"

text \<open>What the bitwise search finds is the root.\<close>

lemma root_bits_root:
  assumes "0 < k" "a ^ k \<le> n" "n < (a + 2 ^ i) ^ k"
  shows "(root_bits k n i a) ^ k \<le> n \<and> n < (root_bits k n i a + 1) ^ k"
  using assms(2,3)
proof (induction i arbitrary: a)
  case (Suc i)
  show ?case
  proof (cases "(a + 2 ^ i) ^ k \<le> n")
    case True
    have "a + 2 ^ i + 2 ^ i = a + 2 ^ Suc i" by simp
    then have "n < (a + 2 ^ i + 2 ^ i) ^ k" using Suc.prems(2) by (simp only:)
    from Suc.IH [OF True this] True show ?thesis by (simp add: Let_def)
  next
    case False
    then have "n < (a + 2 ^ i) ^ k" by simp
    from Suc.IH [OF Suc.prems(1) this] False show ?thesis by (simp add: Let_def)
  qed
qed simp

definition rotr :: "nat \<Rightarrow> u32 \<Rightarrow> u32" where
  "rotr n x = drop_bit n x OR push_bit (32 - n) x"

definition Ch :: "u32 \<Rightarrow> u32 \<Rightarrow> u32 \<Rightarrow> u32" where
  "Ch x y z = (x AND y) XOR (NOT x AND z)"

definition Maj :: "u32 \<Rightarrow> u32 \<Rightarrow> u32 \<Rightarrow> u32" where
  "Maj x y z = (x AND y) XOR (x AND z) XOR (y AND z)"

definition Sum0 :: "u32 \<Rightarrow> u32" where
  "Sum0 x = rotr 2 x XOR rotr 13 x XOR rotr 22 x"

definition Sum1 :: "u32 \<Rightarrow> u32" where
  "Sum1 x = rotr 6 x XOR rotr 11 x XOR rotr 25 x"

definition sig0 :: "u32 \<Rightarrow> u32" where
  "sig0 x = rotr 7 x XOR rotr 18 x XOR drop_bit 3 x"

definition sig1 :: "u32 \<Rightarrow> u32" where
  "sig1 x = rotr 17 x XOR rotr 19 x XOR drop_bit 10 x"

text \<open>
  The message schedule, kept as the window of its last sixteen words (oldest first):
  one step drops the oldest word and appends the next one.
\<close>

fun sched_next :: "u32 list \<Rightarrow> u32 list" where
  "sched_next (w0 # w1 # ws) =
     w1 # ws @ [sig1 (ws ! 12) + ws ! 7 + sig0 w1 + w0]"
| "sched_next ws = ws"

fun sha256_rounds :: "u32 list \<Rightarrow> u32 list \<Rightarrow> u32 list \<Rightarrow> u32 list" where
  "sha256_rounds [] w st = st"
| "sha256_rounds (k # ks) w [a, b, c, d, e, f, g, h] =
     (let t1 = h + Sum1 e + Ch e f g + k + hd w;
          t2 = Sum0 a + Maj a b c
      in sha256_rounds ks (sched_next w) [t1 + t2, a, b, c, d + t1, e, f, g])"
| "sha256_rounds (k # ks) w st = st"

fun words_be :: "bytes \<Rightarrow> u32 list" where
  "words_be (a # b # c # d # bs) = get_be32 a b c d # words_be bs"
| "words_be _ = []"

definition sha256_block :: "u32 list \<Rightarrow> bytes \<Rightarrow> u32 list" where
  "sha256_block st blk = map2 (+) st (sha256_rounds sha256_K (words_be blk) st)"

function sha256_blocks :: "u32 list \<Rightarrow> bytes \<Rightarrow> u32 list" where
  "sha256_blocks st bs =
     (if length bs < 64 then st else sha256_blocks (sha256_block st (take 64 bs)) (drop 64 bs))"
  by pat_completeness auto
termination
  by (relation "measure (\<lambda>(st, bs). length bs)") auto

declare sha256_blocks.simps [simp del]

definition sha256_pad :: "bytes \<Rightarrow> bytes" where
  "sha256_pad m =
     (let n = length m
      in m @ [0x80] @ replicate ((119 - n mod 64) mod 64) 0 @ put_be64 (word_of_nat (8 * n)))"

definition sha256 :: "bytes \<Rightarrow> bytes" where
  "sha256 m = concat (map put_be32 (sha256_blocks sha256_H0 (sha256_pad m)))"

section \<open>HMAC-SHA256\<close>

definition hmac_key :: "bytes \<Rightarrow> bytes" where
  "hmac_key k =
     (let k' = (if 64 < length k then sha256 k else k) in k' @ replicate (64 - length k') 0)"

definition hmac_sha256 :: "bytes \<Rightarrow> bytes \<Rightarrow> bytes" where
  "hmac_sha256 k m =
     (let k0 = hmac_key k
      in sha256 (map (\<lambda>b. b XOR 0x5c) k0 @ sha256 (map (\<lambda>b. b XOR 0x36) k0 @ m)))"

section \<open>Digest lengths\<close>

lemma length_sha256_rounds: "length (sha256_rounds ks w st) = length st"
  by (induction ks w st rule: sha256_rounds.induct) (simp_all add: Let_def)

lemma length_sha256_block [simp]: "length (sha256_block st blk) = length st"
  by (simp add: sha256_block_def length_sha256_rounds)

lemma length_sha256_blocks [simp]: "length (sha256_blocks st bs) = length st"
proof (induction st bs rule: sha256_blocks.induct)
  case (1 st bs)
  then show ?case by (cases "length bs < 64") (simp_all add: sha256_blocks.simps [of st bs])
qed

lemma length_concat_be32: "length (concat (map put_be32 ws)) = 4 * length ws"
  by (induction ws) simp_all

lemma length_sha256 [simp]: "length (sha256 m) = 32"
  by (simp add: sha256_def length_concat_be32 sha256_H0_def)

text \<open>The padded message is a whole number of blocks.\<close>

lemma sha256_pad_blocks: "64 dvd length (sha256_pad m)"
proof -
  obtain q r where n: "length m = 64 * q + r" and r: "r < 64"
    by (metis mod_less_divisor mult_div_mod_eq zero_less_numeral)
  have "(119 - r) mod 64 = (if r \<le> 55 then 55 - r else 119 - r)"
    using r by (simp add: mod_if)
  moreover have "length (sha256_pad m) = length m + 1 + (119 - r) mod 64 + 8"
    using n r by (simp add: sha256_pad_def Let_def)
  ultimately have "length (sha256_pad m) = 64 * (if r \<le> 55 then q + 1 else q + 2)"
    using n r by simp
  then show ?thesis by simp
qed

lemma length_hmac_key [simp]: "length (hmac_key k) = 64"
  by (simp add: hmac_key_def Let_def)

lemma length_hmac_sha256 [simp]: "length (hmac_sha256 k m) = 32"
  by (simp add: hmac_sha256_def Let_def)

end
