(* ===== verification/Protocol.thy ===== *)
theory Protocol
  imports GoBase64 GoSha256
begin

text \<open>
  The wire protocol: constants and control messages of \<open>internal/protocol/protocol.go\<close>,
  handshake authentication, key derivation and the AEAD session of
  \<open>internal/protocol/crypto.go\<close>. HKDF and ChaCha20-Poly1305 come from
  \<open>golang.org/x/crypto\<close> and are arguments of the definitions that call them; what the
  sources rely on is stated as the predicates \<open>aead_correct\<close> and \<open>aead_expands\<close>.
\<close>

section \<open>Constants and control messages\<close>

definition Version :: int where "Version = 2"
definition DefaultTunnelCIDR :: string where "DefaultTunnelCIDR = ''10.66.0.0/24''"
definition DefaultGateway :: string where "DefaultGateway = ''10.66.0.1''"
definition DefaultMTU :: int where "DefaultMTU = 1400"
definition PSKLen :: nat where "PSKLen = 32"
definition SaltLen :: nat where "SaltLen = 16"
definition KeyLen :: nat where "KeyLen = 32"
definition AuthWindow :: int where "AuthWindow = 90"

definition MsgHello :: string where "MsgHello = ''hello''"
definition MsgWelcome :: string where "MsgWelcome = ''welcome''"
definition MsgError :: string where "MsgError = ''error''"
definition MsgPing :: string where "MsgPing = ''ping''"
definition MsgPong :: string where "MsgPong = ''pong''"

record hello_msg =
  hello_type :: string
  hello_version :: int
  hello_salt :: string
  hello_ts :: int
  hello_auth :: string
  hello_name :: string

record welcome_msg =
  welcome_type :: string
  welcome_salt :: string
  welcome_ip :: string
  welcome_mask :: int
  welcome_gateway :: string
  welcome_dns :: "string list"
  welcome_mtu :: int

section \<open>Handshake authentication\<close>

definition authInfo :: string where "authInfo = ''arnos-auth-v1''"

definition authContext :: "bytes \<Rightarrow> int \<Rightarrow> bytes" where
  "authContext salt ts = bytes_of_string authInfo @ salt @ bytes_of_string (FormatInt ts)"

definition ComputeAuth :: "bytes \<Rightarrow> bytes \<Rightarrow> int \<Rightarrow> string" where
  "ComputeAuth psk salt ts = EncodeToString StdEncoding (hmac_sha256 psk (authContext salt ts))"

definition VerifyAuth :: "bytes \<Rightarrow> bytes \<Rightarrow> int \<Rightarrow> string \<Rightarrow> bool" where
  "VerifyAuth psk salt ts auth \<longleftrightarrow>
     bytes_of_string (ComputeAuth psk salt ts) = bytes_of_string auth"

text \<open>
  \<open>RandBytes\<close>: the random source either fails or delivers the bytes it is asked for.
\<close>

type_synonym rand_source = "nat \<Rightarrow> bytes result"

definition RandBytes :: "rand_source \<Rightarrow> nat \<Rightarrow> bytes result" where
  "RandBytes rand n = bind_result (rand n) Ok"

section \<open>Sessions\<close>

text \<open>
  The third-party cryptography: \<open>hkdf psk salt info n\<close> is \<open>n\<close> bytes read from the HKDF
  reader, and an AEAD keyed with \<open>key\<close> seals and opens under a nonce.
\<close>

record crypto =
  hkdf :: "bytes \<Rightarrow> bytes \<Rightarrow> bytes \<Rightarrow> nat \<Rightarrow> bytes result"
  aead_seal :: "bytes \<Rightarrow> bytes \<Rightarrow> bytes \<Rightarrow> bytes"
  aead_open :: "bytes \<Rightarrow> bytes \<Rightarrow> bytes \<Rightarrow> bytes result"

definition AEADKeySize :: nat where "AEADKeySize = 32"
definition NonceSize :: nat where "NonceSize = 12"
definition Overhead :: nat where "Overhead = 16"

text \<open>An AEAD opens what it sealed, under the same key and nonce.\<close>

definition aead_correct :: "crypto \<Rightarrow> bool" where
  "aead_correct cr \<longleftrightarrow>
     (\<forall>key nonce pt. aead_open cr key nonce (aead_seal cr key nonce pt) = Ok pt)"

text \<open>A sealed text is the plaintext's length plus the tag.\<close>

definition aead_expands :: "crypto \<Rightarrow> bool" where
  "aead_expands cr \<longleftrightarrow>
     (\<forall>key nonce pt. length (aead_seal cr key nonce pt) = length pt + Overhead)"

text \<open>\<open>chacha20poly1305.New\<close> refuses a key of the wrong length; the cipher is its key.\<close>

definition aead_new :: "bytes \<Rightarrow> bytes result" where
  "aead_new key =
     (if length key = AEADKeySize then Ok key else Err ''chacha20poly1305: bad key length'')"

record session =
  send_key :: bytes
  recv_key :: bytes
  sendCtr :: u64
  recvMax :: u64
  recvSeen :: bool

definition expandKey :: "crypto \<Rightarrow> bytes \<Rightarrow> bytes \<Rightarrow> string \<Rightarrow> bytes result" where
  "expandKey cr psk salt info = bind_result (hkdf cr psk salt (bytes_of_string info) KeyLen) Ok"

definition DeriveSession :: "crypto \<Rightarrow> bytes \<Rightarrow> bytes \<Rightarrow> bytes \<Rightarrow> bool \<Rightarrow> session result" where
  "DeriveSession cr psk clientSalt serverSalt isServer =
     (let salt = clientSalt @ serverSalt
      in bind_result (expandKey cr psk salt ''arnos-c2s-v1'') (\<lambda>c2s.
         bind_result (expandKey cr psk salt ''arnos-s2c-v1'') (\<lambda>s2c.
         bind_result (aead_new c2s) (\<lambda>aeadC2S.
         bind_result (aead_new s2c) (\<lambda>aeadS2C.
           Ok (if isServer
               then \<lparr>send_key = aeadS2C, recv_key = aeadC2S, sendCtr = 0, recvMax = 0, recvSeen = False\<rparr>
               else \<lparr>send_key = aeadC2S, recv_key = aeadS2C, sendCtr = 0, recvMax = 0, recvSeen = False\<rparr>))))))"

definition nonceFor :: "u64 \<Rightarrow> bytes" where
  "nonceFor ctr =
     [0, 0, 0, 0,
      ucast (drop_bit 56 ctr), ucast (drop_bit 48 ctr), ucast (drop_bit 40 ctr),
      ucast (drop_bit 32 ctr), ucast (drop_bit 24 ctr), ucast (drop_bit 16 ctr),
      ucast (drop_bit 8 ctr), ucast ctr]"

section \<open>Data frames\<close>

definition padHeaderLen :: nat where "padHeaderLen = 2"
definition MaxPad :: nat where "MaxPad = 256"

text \<open>
  \<open>randPad\<close> reads two random bytes for the length and then that many bytes; the errors
  of the reader are ignored by the code, which keeps the zeroed buffer.
\<close>

definition randPad :: "byte \<Rightarrow> byte \<Rightarrow> (nat \<Rightarrow> bytes) \<Rightarrow> bytes" where
  "randPad b0 b1 fill =
     (let n = unat (push_bit 8 (ucast b0 :: u16) OR ucast b1) mod (MaxPad + 1)
      in if n = 0 then [] else take n (fill n @ replicate n 0))"

definition sealRaw :: "crypto \<Rightarrow> session \<Rightarrow> bytes \<Rightarrow> bytes \<Rightarrow> bytes \<times> session" where
  "sealRaw cr s payload pad =
     (let s' = s\<lparr>sendCtr := sendCtr s + 1\<rparr>;
          ctr = sendCtr s' - 1;
          nonce = nonceFor ctr;
          pt = [word_of_nat (length payload div 256), word_of_nat (length payload)] @ payload @ pad
      in (put_be64 ctr @ aead_seal cr (send_key s) nonce pt, s'))"

definition Seal :: "crypto \<Rightarrow> session \<Rightarrow> bytes \<Rightarrow> byte \<Rightarrow> byte \<Rightarrow> (nat \<Rightarrow> bytes) \<Rightarrow> bytes \<times> session" where
  "Seal cr s payload b0 b1 fill = sealRaw cr s payload (randPad b0 b1 fill)"

definition ErrShortFrame :: string where "ErrShortFrame = ''arnos: short data frame''"
definition ErrReplay :: string where "ErrReplay = ''arnos: replayed frame''"

text \<open>
  \<open>Open\<close> returns its result and the session afterwards: the counter is recorded as soon
  as the tag has verified and the counter has advanced, before the padding is checked.
\<close>

definition unpad :: "bytes \<Rightarrow> bytes result" where
  "unpad pt =
     (if length pt < padHeaderLen then Err ErrShortFrame
      else let realLen = unat (pt ! 0) * 256 + unat (pt ! 1)
           in if realLen > length pt - padHeaderLen then Err ErrShortFrame
              else Ok (take realLen (drop padHeaderLen pt)))"

definition frame_ctr :: "bytes \<Rightarrow> u64" where
  "frame_ctr frame =
     get_be64 (frame ! 0) (frame ! 1) (frame ! 2) (frame ! 3) (frame ! 4) (frame ! 5) (frame ! 6) (frame ! 7)"

definition Open :: "crypto \<Rightarrow> session \<Rightarrow> bytes \<Rightarrow> bytes result \<times> session" where
  "Open cr s frame =
     (if length frame < 8 then (Err ErrShortFrame, s)
      else let ctr = frame_ctr frame
           in case aead_open cr (recv_key s) (nonceFor ctr) (drop 8 frame) of
                Err e \<Rightarrow> (Err e, s)
              | Panic e \<Rightarrow> (Panic e, s)
              | Ok pt \<Rightarrow>
                  if recvSeen s \<and> ctr \<le> recvMax s then (Err ErrReplay, s)
                  else (unpad pt, s\<lparr>recvMax := ctr, recvSeen := True\<rparr>))"

section \<open>Streams of frames\<close>

text \<open>
  Sealing and opening in sequence, as the writer and reader loops do: the session is
  threaded through the calls.
\<close>

fun seal_all :: "crypto \<Rightarrow> session \<Rightarrow> (bytes \<times> bytes) list \<Rightarrow> bytes list \<times> session" where
  "seal_all cr s [] = ([], s)"
| "seal_all cr s ((payload, pad) # ms) =
     (let (f, s1) = sealRaw cr s payload pad; (fs, s2) = seal_all cr s1 ms in (f # fs, s2))"

fun open_all :: "crypto \<Rightarrow> session \<Rightarrow> bytes list \<Rightarrow> bytes result list \<times> session" where
  "open_all cr s [] = ([], s)"
| "open_all cr s (f # fs) =
     (let (r, s1) = Open cr s f; (rs, s2) = open_all cr s1 fs in (r # rs, s2))"

lemma seal_all_Cons [simp]:
  "seal_all cr s ((payload, pad) # ms) =
     (fst (sealRaw cr s payload pad) # fst (seal_all cr (snd (sealRaw cr s payload pad)) ms),
      snd (seal_all cr (snd (sealRaw cr s payload pad)) ms))"
  by (simp add: Let_def case_prod_beta)

lemma open_all_Cons [simp]:
  "open_all cr s (f # fs) =
     (fst (Open cr s f) # fst (open_all cr (snd (Open cr s f)) fs),
      snd (open_all cr (snd (Open cr s f)) fs))"
  by (simp add: Let_def case_prod_beta)

declare seal_all.simps(2) [simp del] open_all.simps(2) [simp del]

section \<open>Authentication lemmas\<close>

lemma VerifyAuth_iff: "VerifyAuth psk salt ts auth \<longleftrightarrow> auth = ComputeAuth psk salt ts"
  by (auto simp: VerifyAuth_def inj_bytes_of_string)

lemma ComputeAuth_ascii [simp]: "ascii (ComputeAuth psk salt ts)"
  by (simp add: ComputeAuth_def)

lemma authContext_inj:
  assumes "length salt = length salt'"
  shows "authContext salt ts = authContext salt' ts' \<longleftrightarrow> salt = salt' \<and> ts = ts'"
  using assms by (auto simp: authContext_def inj_bytes_of_string FormatInt_inj)

section \<open>Frame lemmas\<close>

lemma length_nonceFor [simp]: "length (nonceFor ctr) = NonceSize"
  by (simp add: nonceFor_def NonceSize_def)

lemma nonceFor_conv: "nonceFor ctr = replicate 4 0 @ put_be64 ctr"
  by (simp add: nonceFor_def put_be64_def numeral_eq_Suc)

lemma nonceFor_inj [simp]: "nonceFor c = nonceFor d \<longleftrightarrow> c = d"
  by (simp add: nonceFor_conv be64.enc_inj)

lemma frame_ctr_put [simp, wire]: "frame_ctr (put_be64 c @ rest) = c"
  by (simp add: frame_ctr_def put_be64_def)

lemma drop_put_be64 [simp]: "drop 8 (put_be64 c @ rest) = rest"
  by simp

text \<open>The two length bytes give the length back, below 65536.\<close>

lemma len_header:
  assumes "n < 65536"
  shows "unat (word_of_nat (n div 256) :: byte) * 256 + unat (word_of_nat n :: byte) = n"
proof -
  have "n div 256 < 256" using assms by (simp add: less_mult_imp_div_less)
  then show ?thesis by (simp add: unat_of_nat)
qed

lemma unpad_pad:
  assumes "length payload < 65536"
  shows "unpad ([word_of_nat (length payload div 256), word_of_nat (length payload)] @ payload @ pad)
    = Ok payload"
  using len_header [OF assms] by (simp add: unpad_def padHeaderLen_def)

lemma sealRaw_conv:
  "sealRaw cr s payload pad =
     (put_be64 (sendCtr s) @
        aead_seal cr (send_key s) (nonceFor (sendCtr s))
          ([word_of_nat (length payload div 256), word_of_nat (length payload)] @ payload @ pad),
      s\<lparr>sendCtr := sendCtr s + 1\<rparr>)"
  by (simp add: sealRaw_def Let_def)

lemma length_sealRaw:
  assumes "aead_expands cr"
  shows "length (fst (sealRaw cr s payload pad)) = 8 + padHeaderLen + length payload + length pad + Overhead"
  using assms by (simp add: sealRaw_conv aead_expands_def padHeaderLen_def)

lemma length_randPad: "length (randPad b0 b1 fill) \<le> MaxPad"
proof -
  define n where "n = unat (push_bit 8 (ucast b0 :: u16) OR ucast b1) mod (MaxPad + 1)"
  then have "n \<le> MaxPad"
    by (metis Suc_eq_plus1 less_Suc_eq_le mod_less_divisor zero_less_Suc)
  moreover have "randPad b0 b1 fill = (if n = 0 then [] else take n (fill n @ replicate n 0))"
    by (simp only: randPad_def Let_def n_def)
  ultimately show ?thesis by (auto simp: min_def)
qed

lemma Open_sealRaw:
  assumes "aead_correct cr" "send_key tx = recv_key rx" "length payload < 65536"
    and "recvSeen rx \<longrightarrow> recvMax rx < sendCtr tx"
  shows "Open cr rx (fst (sealRaw cr tx payload pad)) =
    (Ok payload, rx\<lparr>recvMax := sendCtr tx, recvSeen := True\<rparr>)"
  using assms unpad_pad [OF assms(3)]
  by (auto simp: Open_def sealRaw_conv aead_correct_def Let_def not_le)

text \<open>What \<open>Open\<close> can do to the session: nothing, or record a larger counter.\<close>

lemma Open_keys [simp]:
  "recv_key (snd (Open cr s f)) = recv_key s" "send_key (snd (Open cr s f)) = send_key s"
  "sendCtr (snd (Open cr s f)) = sendCtr s"
  by (auto simp: Open_def Let_def split: result.splits)

lemma Open_mono:
  "recvSeen s \<Longrightarrow> recvSeen (snd (Open cr s f)) \<and> recvMax s \<le> recvMax (snd (Open cr s f))"
  by (auto simp: Open_def Let_def split: result.splits)

lemma open_all_keys [simp]: "recv_key (snd (open_all cr s fs)) = recv_key s"
  by (induction fs arbitrary: s) simp_all

lemma open_all_mono:
  "recvSeen s \<Longrightarrow> recvSeen (snd (open_all cr s fs)) \<and> recvMax s \<le> recvMax (snd (open_all cr s fs))"
proof (induction fs arbitrary: s)
  case (Cons f fs)
  from Open_mono [OF Cons.prems, of cr f] Cons.IH [of "snd (Open cr s f)"]
  show ?case by auto
qed simp

lemma Open_Ok_iff:
  "fst (Open cr s f) = Ok p \<longleftrightarrow>
     8 \<le> length f \<and> (recvSeen s \<longrightarrow> recvMax s < frame_ctr f) \<and>
     (\<exists>pt. aead_open cr (recv_key s) (nonceFor (frame_ctr f)) (drop 8 f) = Ok pt \<and> unpad pt = Ok p)"
  by (auto simp: Open_def Let_def not_le split: result.splits)

lemma Open_Ok_state:
  "fst (Open cr s f) = Ok p \<Longrightarrow> snd (Open cr s f) = s\<lparr>recvMax := frame_ctr f, recvSeen := True\<rparr>"
  by (auto simp: Open_def Let_def split: result.splits if_splits)

lemma Open_replay:
  assumes "aead_open cr (recv_key s) (nonceFor (frame_ctr f)) (drop 8 f) = Ok pt" "8 \<le> length f"
    and "recvSeen s" "frame_ctr f \<le> recvMax s"
  shows "Open cr s f = (Err ErrReplay, s)"
  using assms by (simp add: Open_def Let_def)

section \<open>Streams\<close>

text \<open>
  A sender whose next counter is \<open>n\<close> and a receiver that has seen only smaller
  counters: the state of a channel between two calls, as long as the counter has not
  wrapped.
\<close>

definition in_step :: "nat \<Rightarrow> session \<Rightarrow> session \<Rightarrow> bool" where
  "in_step n tx rx \<longleftrightarrow>
     sendCtr tx = word_of_nat n \<and> send_key tx = recv_key rx \<and> (recvSeen rx \<longrightarrow> unat (recvMax rx) < n)"

lemma unat_u64_of_nat: "n < 2 ^ 64 \<Longrightarrow> unat (word_of_nat n :: u64) = n"
  by (simp add: unat_of_nat)

lemma in_step_Open:
  assumes "aead_correct cr" "in_step n tx rx" "n < 2 ^ 64" "length payload < 65536"
  shows "Open cr rx (fst (sealRaw cr tx payload pad)) =
    (Ok payload, rx\<lparr>recvMax := word_of_nat n, recvSeen := True\<rparr>)"
proof -
  have "recvSeen rx \<longrightarrow> recvMax rx < sendCtr tx"
    using assms(2,3) by (simp add: in_step_def word_less_nat_alt unat_u64_of_nat)
  with assms show ?thesis
    by (subst Open_sealRaw) (simp_all add: in_step_def)
qed

lemma in_step_sent:
  assumes "in_step n tx rx"
  shows "in_step (Suc n) (snd (sealRaw cr tx payload pad)) rx"
  using assms by (auto simp: in_step_def sealRaw_conv)

lemma in_step_received:
  assumes "in_step n tx rx" "n < 2 ^ 64"
  shows "in_step (Suc n) (snd (sealRaw cr tx payload pad)) (rx\<lparr>recvMax := word_of_nat n, recvSeen := True\<rparr>)"
  using assms by (auto simp: in_step_def sealRaw_conv unat_u64_of_nat)

text \<open>
  Whatever subsequence of the frames arrives, in order, is opened to the payloads sent:
  a frame dropped on the way costs only its own packet.
\<close>

lemma stream_delivery:
  assumes "aead_correct cr" "in_step n tx rx" "n + length ms \<le> 2 ^ 64"
    and "\<forall>m \<in> set ms. length (fst m) < 65536"
    and "subseq ds (zip (fst (seal_all cr tx ms)) (map fst ms))"
  shows "fst (open_all cr rx (map fst ds)) = map (Ok \<circ> snd) ds"
  using assms
proof (induction ms arbitrary: n tx rx ds)
  case Nil
  then have "ds = []" by (simp add: list_emb_Nil2)
  then show ?case by simp
next
  case (Cons m ms)
  obtain payload pad where m: "m = (payload, pad)" by fastforce
  let ?f = "fst (sealRaw cr tx payload pad)" and ?tx = "snd (sealRaw cr tx payload pad)"
  let ?rest = "zip (fst (seal_all cr ?tx ms)) (map fst ms)"
  have n: "n < 2 ^ 64" "Suc n + length ms \<le> 2 ^ 64"
    using Cons.prems(3) by simp_all
  have short: "length payload < 65536" "\<forall>m \<in> set ms. length (fst m) < 65536"
    using Cons.prems(4) m by simp_all
  from Cons.prems(5) m have "subseq ds ((?f, payload) # ?rest)" by simp
  then consider "subseq ds ?rest"
    | ds' where "ds = (?f, payload) # ds'" "subseq ds' ?rest"
    by (cases ds) (auto elim: list_emb.cases split: if_splits)
  then show ?case
  proof cases
    case 1
    from Cons.IH [OF Cons.prems(1) in_step_sent [OF Cons.prems(2)] n(2) short(2) 1] show ?thesis .
  next
    case 2
    from Cons.IH [OF Cons.prems(1) in_step_received [OF Cons.prems(2) n(1)] n(2) short(2) 2(2)]
    show ?thesis using in_step_Open [OF Cons.prems(1,2) n(1) short(1), of pad] 2(1) by simp
  qed
qed

lemma stream_nonces:
  assumes "sendCtr tx = word_of_nat n" "n + length ms \<le> 2 ^ 64"
  shows "map frame_ctr (fst (seal_all cr tx ms)) = map word_of_nat [n ..< n + length ms]"
  using assms
proof (induction ms arbitrary: n tx)
  case (Cons m ms)
  obtain payload pad where m: "m = (payload, pad)" by fastforce
  have "sendCtr (snd (sealRaw cr tx payload pad)) = word_of_nat (Suc n)"
    using Cons.prems(1) by (simp add: sealRaw_conv)
  from Cons.IH [OF this] Cons.prems m show ?case
    by (simp add: sealRaw_conv upt_conv_Cons del: upt_Suc)
qed simp

section \<open>Forged frames\<close>

text \<open>A frame the receiver's AEAD does not accept, or too short to be one.\<close>

definition forged :: "crypto \<Rightarrow> bytes \<Rightarrow> bytes \<Rightarrow> bool" where
  "forged cr key f \<longleftrightarrow>
     length f < 8 \<or> \<not> is_Ok (aead_open cr key (nonceFor (frame_ctr f)) (drop 8 f))"

lemma Open_forged:
  assumes "forged cr (recv_key s) f"
  shows "snd (Open cr s f) = s \<and> \<not> is_Ok (fst (Open cr s f))"
  using assms by (auto simp: Open_def forged_def Let_def split: result.splits)

lemma open_all_forged:
  "snd (open_all cr s fs) = snd (open_all cr s (filter (\<lambda>f. \<not> forged cr (recv_key s) f) fs)) \<and>
   filter is_Ok (fst (open_all cr s fs)) =
     filter is_Ok (fst (open_all cr s (filter (\<lambda>f. \<not> forged cr (recv_key s) f) fs)))"
proof (induction fs arbitrary: s)
  case (Cons f fs)
  show ?case
    using Cons.IH [of "snd (Open cr s f)"] Open_forged [of cr s f] by simp
qed simp

section \<open>Mirrored sessions\<close>

lemma DeriveSession_mirror:
  assumes "DeriveSession cr psk cs ss True = Ok srv" "DeriveSession cr psk cs ss False = Ok cli"
  shows "send_key srv = recv_key cli \<and> send_key cli = recv_key srv \<and>
    in_step 0 srv cli \<and> in_step 0 cli srv"
  using assms by (auto simp: DeriveSession_def in_step_def Let_def bind_result_Ok_conv)

lemma DeriveSession_same_outcome:
  "is_Ok (DeriveSession cr psk cs ss True) \<longleftrightarrow> is_Ok (DeriveSession cr psk cs ss False)"
  by (auto simp: DeriveSession_def Let_def is_Ok_conv bind_result_Ok_conv)

section \<open>A toy cipher suite\<close>

text \<open>
  A concrete instance of the cryptography, on which hypotheses about it can be checked: the
  key is the info string, and the tag is the key.
\<close>

definition toy_tag :: "bytes \<Rightarrow> bytes" where
  "toy_tag key = take Overhead (key @ replicate Overhead 0)"

definition toy_crypto :: crypto where
  "toy_crypto =
     \<lparr>hkdf = (\<lambda>psk salt info n. Ok (take n (info @ replicate n 0))),
      aead_seal = (\<lambda>key nonce pt. pt @ toy_tag key),
      aead_open = (\<lambda>key nonce ct.
        if Overhead \<le> length ct \<and> drop (length ct - Overhead) ct = toy_tag key
        then Ok (take (length ct - Overhead) ct) else Err ''message authentication failed'')\<rparr>"

lemma length_toy_tag [simp]: "length (toy_tag key) = Overhead"
  by (simp add: toy_tag_def)

lemma toy_correct [simp]: "aead_correct toy_crypto"
  by (simp add: aead_correct_def toy_crypto_def)

lemma toy_expands [simp]: "aead_expands toy_crypto"
  by (simp add: aead_expands_def toy_crypto_def)

lemma toy_derive: "\<exists>s. DeriveSession toy_crypto psk cs ss isServer = Ok s"
  by (simp add: DeriveSession_def expandKey_def aead_new_def toy_crypto_def AEADKeySize_def KeyLen_def)

section \<open>Properties\<close>

text \<open>The authenticated text is unambiguous. Two handshakes with salts of the protocol's
  length are authenticated by the same bytes only if salt and timestamp are the same.\<close>

lemma auth_context_unambiguous:
  assumes "length salt = SaltLen" "length salt' = SaltLen"
    and "authContext salt ts = authContext salt' ts'"
  shows "salt = salt' \<and> ts = ts'"
  using assms authContext_inj by simp

lemma auth_context_unambiguous_witness:
  "replicate SaltLen (7 :: byte) = replicate SaltLen 7 \<and> (5 :: int) = 5"
  by (rule auth_context_unambiguous [of "replicate SaltLen 7" "replicate SaltLen 7" 5 5]) simp_all


definition toy_session :: "bool \<Rightarrow> session" where
  "toy_session srv = (case DeriveSession toy_crypto [] [] [] srv of Ok s \<Rightarrow> s)"

lemma toy_in_step: "in_step 0 (toy_session b) (toy_session (\<not> b))"
  using toy_derive [of "[]" "[]" "[]" True] toy_derive [of "[]" "[]" "[]" False] DeriveSession_mirror
  by (cases b) (force simp: toy_session_def)+


text \<open>C10: a replayed frame is refused for good. Once a frame has been opened, and whatever
  frames come after it, opening it again gives \<open>ErrReplay\<close> and leaves the session alone.\<close>

theorem replayed_frame_refused:
  assumes "fst (Open cr s f) = Ok p" "s' = snd (open_all cr (snd (Open cr s f)) fs)"
  shows "Open cr s' f = (Err ErrReplay, s')"
proof -
  let ?s1 = "snd (Open cr s f)"
  have s1: "?s1 = s\<lparr>recvMax := frame_ctr f, recvSeen := True\<rparr>"
    using assms(1) by (rule Open_Ok_state)
  then have "recvSeen s'" "frame_ctr f \<le> recvMax s'"
    using open_all_mono [of ?s1 cr fs] assms(2) by simp_all
  moreover have "recv_key s' = recv_key s" using assms(2) s1 by simp
  ultimately show ?thesis using assms(1) Open_replay [of cr s' f] by (auto simp: Open_Ok_iff)
qed

theorem replayed_frame_refused_witness:
  "\<exists>f s'. Open toy_crypto s' f = (Err ErrReplay, s') \<and> recvSeen s'"
proof -
  let ?f = "fst (sealRaw toy_crypto (toy_session True) [1, 2, 3] [])" and ?rx = "toy_session False"
  have o: "Open toy_crypto ?rx ?f = (Ok [1, 2, 3], ?rx\<lparr>recvMax := word_of_nat 0, recvSeen := True\<rparr>)"
    by (rule in_step_Open) (use toy_in_step [of True] in simp_all)
  let ?s = "snd (open_all toy_crypto (snd (Open toy_crypto ?rx ?f)) [])"
  have "Open toy_crypto ?s ?f = (Err ErrReplay, ?s)"
    by (rule replayed_frame_refused [where p = "[1, 2, 3]" and s = ?rx]) (simp_all only: o fst_conv)
  moreover have "recvSeen ?s" by (simp add: o)
  ultimately show ?thesis by blast
qed

text \<open>C11: forged frames are harmless. Frames that are too short or that the AEAD does not
  authenticate, injected anywhere into a sequence of frames, change neither the session at
  the end nor the packets that are opened.\<close>

theorem forged_frames_harmless:
  "snd (open_all cr s fs) = snd (open_all cr s (filter (\<lambda>f. \<not> forged cr (recv_key s) f) fs)) \<and>
   filter is_Ok (fst (open_all cr s fs)) =
     filter is_Ok (fst (open_all cr s (filter (\<lambda>f. \<not> forged cr (recv_key s) f) fs)))"
  by (rule open_all_forged)

end
