(* ===== verification/Replay.thy ===== *)
theory Replay
  imports Protocol
begin

text \<open>
  The handshake replay guard of \<open>internal/server/replay.go\<close>: a table from handshake keys
  to Unix expiry times, swept on every call. A point in time is a number of nanoseconds
  since the epoch, as \<open>time.Now\<close> delivers it; \<open>unix\<close> rounds it down to seconds.
\<close>

section \<open>The guard\<close>

definition second :: int where "second = 1000000000"

definition unix :: "int \<Rightarrow> int" where
  "unix now = now div second"

record replay_guard =
  rg_seen :: "string \<rightharpoonup> int"
  rg_ttl :: int

definition newReplayGuard :: replay_guard where
  "newReplayGuard = \<lparr>rg_seen = Map.empty, rg_ttl = (2 * AuthWindow + 5) * second\<rparr>"

definition replay_key :: "string \<Rightarrow> int \<Rightarrow> string" where
  "replay_key salt ts = salt @ ''|'' @ FormatInt ts"

definition sweep :: "int \<Rightarrow> (string \<rightharpoonup> int) \<Rightarrow> (string \<rightharpoonup> int)" where
  "sweep nowUnix seen =
     (\<lambda>k. case seen k of None \<Rightarrow> None | Some e \<Rightarrow> if e \<le> nowUnix then None else Some e)"

definition observe :: "replay_guard \<Rightarrow> int \<Rightarrow> string \<Rightarrow> int \<Rightarrow> bool \<times> replay_guard" where
  "observe g now salt ts =
     (let key = replay_key salt ts;
          exp = unix (now + rg_ttl g);
          seen = sweep (unix now) (rg_seen g)
      in if seen key \<noteq> None then (False, g\<lparr>rg_seen := seen\<rparr>)
         else (True, g\<lparr>rg_seen := seen(key \<mapsto> exp)\<rparr>))"

section \<open>Keys\<close>

lemma last_separator:
  assumes "c \<notin> set a" "c \<notin> set b" "s @ c # a = t @ c # b"
  shows "s = t \<and> a = b"
proof -
  have tail: "takeWhile (\<lambda>d. d \<noteq> c) (rev (u @ c # v)) = rev v" if "c \<notin> set v" for u v
    using that by (subst rev_append) (auto simp: takeWhile_tail)
  from assms have "rev a = rev b" by (metis tail)
  with assms(3) show ?thesis by simp
qed

lemma replay_key_inj: "replay_key s i = replay_key t j \<longleftrightarrow> s = t \<and> i = j"
proof
  have no: "CHR ''|'' \<notin> set (FormatInt k)" for k
    using FormatInt_chars [of "CHR ''|''" k] by (auto simp: is_digit_def)
  assume "replay_key s i = replay_key t j"
  then have "s @ CHR ''|'' # FormatInt i = t @ CHR ''|'' # FormatInt j"
    by (simp add: replay_key_def)
  from last_separator [OF no no this] show "s = t \<and> i = j"
    by (simp add: FormatInt_inj)
qed simp

section \<open>Replay filters\<close>

text \<open>
  The contract of a replay filter: a key is accepted exactly when it is not live, an
  accepted key is live for the filter's horizon, and no other call shortens its life.
\<close>

locale replay_filter =
  fixes obs :: "'g \<Rightarrow> int \<Rightarrow> 'k \<Rightarrow> bool \<times> 'g"
    and live :: "'g \<Rightarrow> 'k \<Rightarrow> int \<Rightarrow> bool"
    and within :: "int \<Rightarrow> int \<Rightarrow> bool"
    and wf :: "'g \<Rightarrow> bool"
  assumes obs_fresh: "wf g \<Longrightarrow> fst (obs g t k) \<longleftrightarrow> \<not> live g k t"
    and obs_records: "wf g \<Longrightarrow> fst (obs g t k) \<Longrightarrow> within t t' \<Longrightarrow> live (snd (obs g t k)) k t'"
    and obs_keeps: "wf g \<Longrightarrow> live g k t' \<Longrightarrow> t \<le> t' \<Longrightarrow> live (snd (obs g t k')) k t'"
    and obs_wf: "wf g \<Longrightarrow> wf (snd (obs g t k))"

fun obs_all :: "('g \<Rightarrow> int \<Rightarrow> 'k \<Rightarrow> bool \<times> 'g) \<Rightarrow> 'g \<Rightarrow> (int \<times> 'k) list \<Rightarrow> 'g" where
  "obs_all obs g [] = g"
| "obs_all obs g ((t, k) # xs) = obs_all obs (snd (obs g t k)) xs"

context replay_filter
begin

lemma obs_all_wf: "wf g \<Longrightarrow> wf (obs_all obs g xs)"
  by (induction xs arbitrary: g) (auto simp: obs_wf)

lemma obs_all_keeps:
  "wf g \<Longrightarrow> live g k t' \<Longrightarrow> \<forall>x \<in> set xs. fst x \<le> t' \<Longrightarrow> live (obs_all obs g xs) k t'"
  by (induction xs arbitrary: g) (auto simp: obs_wf obs_keeps)

lemma accepted_once:
  assumes "wf g" "fst (obs g t k)" "\<forall>x \<in> set xs. fst x \<le> t'" "within t t'"
  shows "\<not> fst (obs (obs_all obs (snd (obs g t k)) xs) t' k)"
proof -
  let ?g = "snd (obs g t k)"
  have wf: "wf ?g" by (rule obs_wf) (rule assms(1))
  have "live (obs_all obs ?g xs) k t'"
    by (rule obs_all_keeps [OF wf obs_records [OF assms(1,2,4)] assms(3)])
  then show ?thesis using obs_fresh [OF obs_all_wf [OF wf]] by simp
qed

end

section \<open>The guard is a replay filter\<close>

definition guard_obs :: "replay_guard \<Rightarrow> int \<Rightarrow> string \<times> int \<Rightarrow> bool \<times> replay_guard" where
  "guard_obs g now k = observe g now (fst k) (snd k)"

definition guard_live :: "replay_guard \<Rightarrow> string \<times> int \<Rightarrow> int \<Rightarrow> bool" where
  "guard_live g k now \<longleftrightarrow> (case rg_seen g (replay_key (fst k) (snd k)) of None \<Rightarrow> False | Some e \<Rightarrow> unix now < e)"

definition guard_within :: "int \<Rightarrow> int \<Rightarrow> bool" where
  "guard_within t t' \<longleftrightarrow> unix t' < unix t + 2 * AuthWindow + 5"

definition guard_wf :: "replay_guard \<Rightarrow> bool" where
  "guard_wf g \<longleftrightarrow> rg_ttl g = (2 * AuthWindow + 5) * second"

lemma unix_mono: "t \<le> t' \<Longrightarrow> unix t \<le> unix t'"
  by (simp add: unix_def second_def zdiv_mono1)

lemma unix_add_seconds: "unix (t + n * second) = unix t + n"
  by (simp add: unix_def second_def)

lemma sweep_Some: "sweep now seen k = Some e \<longleftrightarrow> seen k = Some e \<and> now < e"
  by (auto simp: sweep_def split: option.splits)

lemma sweep_None: "sweep now seen k = None \<longleftrightarrow> (\<forall>e. seen k = Some e \<longrightarrow> e \<le> now)"
  by (auto simp: sweep_def split: option.splits)

lemma observe_fresh_iff: "fst (observe g now s i) \<longleftrightarrow> sweep (unix now) (rg_seen g) (replay_key s i) = None"
  by (simp add: observe_def Let_def)

lemma observe_seen:
  "rg_seen (snd (observe g now s i)) =
     (if fst (observe g now s i)
      then (sweep (unix now) (rg_seen g))(replay_key s i \<mapsto> unix (now + rg_ttl g))
      else sweep (unix now) (rg_seen g))"
  by (simp add: observe_def Let_def)

lemma observe_ttl [simp]: "rg_ttl (snd (observe g now s i)) = rg_ttl g"
  by (simp add: observe_def Let_def)

interpretation guard: replay_filter guard_obs guard_live guard_within guard_wf
proof (unfold_locales, goal_cases)
  case (1 g t k)
  then show ?case
    by (auto simp: guard_obs_def guard_live_def observe_fresh_iff sweep_None split: option.splits)
next
  case (2 g t k t')
  then show ?case
    by (simp add: guard_obs_def guard_live_def guard_within_def guard_wf_def observe_seen
        unix_add_seconds)
next
  case (3 g k t' t k')
  from unix_mono [OF 3(3)] 3(2) obtain e
    where e: "rg_seen g (replay_key (fst k) (snd k)) = Some e" "unix t < e" "unix t' < e"
    by (auto simp: guard_live_def split: option.splits)
  then have s: "sweep (unix t) (rg_seen g) (replay_key (fst k) (snd k)) = Some e"
    by (simp add: sweep_Some)
  then have "fst (observe g t (fst k') (snd k')) \<longrightarrow> replay_key (fst k) (snd k) \<noteq> replay_key (fst k') (snd k')"
    by (auto simp: observe_fresh_iff)
  with s e(3) show ?case by (simp add: guard_obs_def guard_live_def observe_seen)
next
  case (4 g t k)
  then show ?case by (simp add: guard_obs_def guard_wf_def)
qed

section \<open>Size of the table\<close>

lemma observe_unexpired:
  assumes "guard_wf g" "rg_seen (snd (observe g now s i)) k = Some e"
  shows "unix now < e"
  using assms by (auto simp: observe_seen sweep_Some guard_wf_def unix_add_seconds AuthWindow_def split: if_splits)

lemma observe_finite:
  "finite (dom (rg_seen g)) \<Longrightarrow> finite (dom (rg_seen (snd (observe g now s i))))"
proof -
  assume fin: "finite (dom (rg_seen g))"
  have "dom (rg_seen (snd (observe g now s i))) \<subseteq> insert (replay_key s i) (dom (rg_seen g))"
    by (auto simp: observe_seen sweep_Some split: if_splits)
  then show ?thesis using fin finite_subset by blast
qed

section \<open>Properties\<close>

text \<open>What a run of observations leaves in the table.\<close>

lemma obs_all_snoc: "obs_all obs g (xs @ [(t, k)]) = snd (obs (obs_all obs g xs) t k)"
  by (induction xs arbitrary: g) auto

lemma run_table:
  assumes "rg_seen (obs_all guard_obs newReplayGuard xs) key = Some e"
  shows "\<exists>(t, k) \<in> set xs. key = replay_key (fst k) (snd k) \<and> e = unix t + 2 * AuthWindow + 5"
  using assms
proof (induction xs rule: rev_induct)
  case Nil
  then show ?case by (simp add: newReplayGuard_def)
next
  case (snoc x xs)
  obtain t k where x: "x = (t, k)" by (cases x)
  let ?g = "obs_all guard_obs newReplayGuard xs"
  have ttl: "rg_ttl ?g = (2 * AuthWindow + 5) * second"
    using guard.obs_all_wf [of newReplayGuard xs] by (simp add: guard_wf_def newReplayGuard_def)
  from snoc.prems have "rg_seen (snd (observe ?g t (fst k) (snd k))) key = Some e"
    by (simp add: x obs_all_snoc guard_obs_def [of ?g t k])
  then have "rg_seen ?g key = Some e \<or>
      key = replay_key (fst k) (snd k) \<and> e = unix t + 2 * AuthWindow + 5"
    by (auto simp: observe_seen sweep_Some ttl unix_add_seconds split: if_splits)
  with snoc.IH show ?case by (auto simp: x)
qed

text \<open>C35: the guard's memory is bounded by the recent traffic. After any sequence of
  observations, each entry of the table belongs to an observation made less than 185 seconds
  before the last one: a client that keeps connecting cannot make it grow without limit.\<close>

theorem guard_memory_bounded:
  assumes "g = obs_all guard_obs newReplayGuard (xs @ [(now, k)])"
  shows "dom (rg_seen g) \<subseteq>
    {replay_key (fst k') (snd k') | t k'. (t, k') \<in> set (xs @ [(now, k)]) \<and> unix now < unix t + 2 * AuthWindow + 5}"
proof
  fix key assume "key \<in> dom (rg_seen g)"
  then obtain e where e: "rg_seen g key = Some e" by blast
  from run_table [of "xs @ [(now, k)]" key e] e assms obtain t k'
    where k': "(t, k') \<in> set (xs @ [(now, k)])" "key = replay_key (fst k') (snd k')"
      "e = unix t + 2 * AuthWindow + 5" by blast
  have "guard_wf (obs_all guard_obs newReplayGuard xs)"
    by (rule guard.obs_all_wf) (simp add: guard_wf_def newReplayGuard_def)
  from observe_unexpired [OF this, of now "fst k" "snd k" key e] e assms
  have "unix now < e" by (simp add: obs_all_snoc guard_obs_def [of _ now k])
  with k' show "key \<in> {replay_key (fst k') (snd k') | t k'. (t, k') \<in> set (xs @ [(now, k)]) \<and>
      unix now < unix t + 2 * AuthWindow + 5}" by blast
qed

theorem guard_memory_bounded_witness:
  "dom (rg_seen (obs_all guard_obs newReplayGuard ([(0, ''a'', 1)] @ [(200 * second, ''b'', 2)]))) \<subseteq>
    {replay_key (fst k') (snd k') | t k'. (t, k') \<in> set ([(0, ''a'', 1)] @ [(200 * second, ''b'', 2)]) \<and>
       unix (200 * second) < unix t + 2 * AuthWindow + 5}"
  by (rule guard_memory_bounded [OF refl])

end
