(* ===== verification/GoJson.thy ===== *)
theory GoJson
  imports GoStrings
begin

text \<open>
  Go's \<open>encoding/json\<close> at the level of JSON values: a document is the tree it denotes
  (a text that is no JSON document is the absence of one), and \<open>Unmarshal\<close> into a struct
  walks the members of an object in order, matches each name with a field exactly or up
  to case, skips unknown names, leaves a field alone for \<open>null\<close>, and fails when a
  value has the wrong type. The strings of a document that was read are what the document
  denotes; those of a document that is written are made well-formed first.
\<close>

datatype json =
    JNull
  | JBool bool
  | JNum string
  | JStr string
  | JArr "json list"
  | JObj "(string \<times> json) list"

section \<open>Text\<close>

text \<open>
  A JSON document is UTF-8: encoding a Go string writes U+FFFD for every byte that does not
  belong to a well-formed sequence. \<open>utf8_len\<close> is the length of the sequence at the head,
  0 when there is none (overlong forms, surrogates and values above U+10FFFF are none).
\<close>

definition in_range :: "nat \<Rightarrow> nat \<Rightarrow> char \<Rightarrow> bool" where
  "in_range lo hi c \<longleftrightarrow> lo \<le> of_char c \<and> of_char c \<le> hi"

abbreviation continuation :: "char \<Rightarrow> bool" where
  "continuation \<equiv> in_range 0x80 0xBF"

fun utf8_len :: "string \<Rightarrow> nat" where
  "utf8_len (a # s) =
     (if in_range 0 0x7F a then 1
      else case s of
        [] \<Rightarrow> 0
      | b # s1 \<Rightarrow>
          if in_range 0xC2 0xDF a then (if continuation b then 2 else 0)
          else (case s1 of
             [] \<Rightarrow> 0
           | c # s2 \<Rightarrow>
               if in_range 0xE0 0xEF a then
                 (if in_range (if of_char a = (0xE0 :: nat) then 0xA0 else 0x80) (if of_char a = (0xED :: nat) then 0x9F else 0xBF) b
                     \<and> continuation c then 3 else 0)
               else (case s2 of
                  [] \<Rightarrow> 0
                | d # _ \<Rightarrow>
                    if in_range 0xF0 0xF4 a \<and>
                       in_range (if of_char a = (0xF0 :: nat) then 0x90 else 0x80) (if of_char a = (0xF4 :: nat) then 0x8F else 0xBF) b \<and>
                       continuation c \<and> continuation d then 4 else 0)))"
| "utf8_len [] = 0"

definition replacement :: string where
  "replacement = [CHR 0xEF, CHR 0xBF, CHR 0xBD]"

function json_text :: "string \<Rightarrow> string" where
  "json_text s =
     (if s = [] then []
      else let n = utf8_len s
           in if n = 0 then replacement @ json_text (tl s) else take n s @ json_text (drop n s))"
  by pat_completeness auto
termination
  by (relation "measure length") auto

declare json_text.simps [simp del]

text \<open>A string that is already well-formed.\<close>

definition utf8 :: "string \<Rightarrow> bool" where
  "utf8 s \<longleftrightarrow> json_text s = s"

definition JText :: "string \<Rightarrow> json" where
  "JText s = JStr (json_text s)"

section \<open>Fields\<close>

definition match_field :: "string list \<Rightarrow> string \<Rightarrow> string option" where
  "match_field fields key =
     (if key \<in> set fields then Some key else List.find (\<lambda>f. EqualFold f key) fields)"

fun get_string :: "string \<Rightarrow> json \<Rightarrow> string option" where
  "get_string old JNull = Some old"
| "get_string old (JStr s) = Some s"
| "get_string old _ = None"

fun get_int :: "int \<Rightarrow> json \<Rightarrow> int option" where
  "get_int old JNull = Some old"
| "get_int old (JNum s) = Atoi s"
| "get_int old _ = None"

fun get_bool :: "bool \<Rightarrow> json \<Rightarrow> bool option" where
  "get_bool old JNull = Some old"
| "get_bool old (JBool b) = Some b"
| "get_bool old _ = None"

fun get_strings :: "string list \<Rightarrow> json \<Rightarrow> string list option" where
  "get_strings old JNull = Some []"
| "get_strings old (JArr js) = those (map (get_string []) js)"
| "get_strings old _ = None"

text \<open>
  Decoding an object: \<open>assign\<close> stores one member into the struct. A failed member does
  not stop the walk in Go, but the call then reports an error, which is what counts.
\<close>

fun decode_members ::
  "('r \<Rightarrow> string \<Rightarrow> json \<Rightarrow> 'r option) \<Rightarrow> string list \<Rightarrow> (string \<times> json) list \<Rightarrow> 'r \<Rightarrow> 'r option"
where
  "decode_members assign fields [] r = Some r"
| "decode_members assign fields ((k, v) # ms) r =
     (case match_field fields k of
        None \<Rightarrow> decode_members assign fields ms r
      | Some f \<Rightarrow>
          (case assign r f v of
             None \<Rightarrow> None
           | Some r' \<Rightarrow> decode_members assign fields ms r'))"

fun Unmarshal ::
  "('r \<Rightarrow> string \<Rightarrow> json \<Rightarrow> 'r option) \<Rightarrow> string list \<Rightarrow> 'r \<Rightarrow> json \<Rightarrow> 'r option"
where
  "Unmarshal assign fields zero JNull = Some zero"
| "Unmarshal assign fields zero (JObj ms) = decode_members assign fields ms zero"
| "Unmarshal assign fields zero _ = None"

section \<open>Lemmas\<close>

lemma json_text_Nil [simp]: "json_text [] = []"
  by (simp add: json_text.simps)

lemma utf8_Nil [simp]: "utf8 []"
  by (simp add: utf8_def)

lemma json_text_ascii_Cons: "of_char c < (128 :: nat) \<Longrightarrow> json_text (c # s) = c # json_text s"
  by (subst json_text.simps) (simp add: in_range_def)

lemma ascii_utf8: "ascii s \<Longrightarrow> utf8 s"
  unfolding utf8_def by (induction s) (simp_all add: json_text_ascii_Cons)

lemmas ascii_text [simp] = ascii_utf8 [unfolded utf8_def]

lemma json_text_empty [simp]: "json_text s = [] \<longleftrightarrow> s = []"
proof
  assume "json_text s = []"
  then show "s = []" by (subst (asm) json_text.simps) (auto simp: replacement_def Let_def split: if_splits)
qed simp

text \<open>What is written is well-formed.\<close>

lemma utf8_len_le: "utf8_len s \<le> length s"
  by (cases s rule: utf8_len.cases) (auto split: list.splits if_splits)

lemma utf8_len_take:
  assumes "utf8_len s = n" "0 < n"
  shows "utf8_len (take n s @ t) = n"
proof (cases s)
  case (Cons a s0)
  from assms Cons show ?thesis
    by (cases s0; cases "tl s0"; cases "tl (tl s0)") (auto split: if_splits list.splits)
qed (use assms in simp)

lemma json_text_len: "utf8_len (take n s) = n \<Longrightarrow> 0 < n \<Longrightarrow> json_text (take n s @ t) = take n s @ json_text t"
proof -
  assume n: "utf8_len (take n s) = n" "0 < n"
  have l: "length (take n s) = n" using utf8_len_le [of "take n s"] n(1) by simp
  then have ne: "take n s \<noteq> []" using n(2) by auto
  have "utf8_len (take n s @ t) = n" using utf8_len_take [OF n, of t] l by simp
  then show ?thesis
    using n(2) l ne by (subst json_text.simps) (simp add: Let_def)
qed

lemma json_text_replacement: "json_text (replacement @ t) = replacement @ json_text t"
proof -
  have "utf8_len (take 3 replacement) = 3" by code_simp
  from json_text_len [OF this, of t] show ?thesis by (simp add: replacement_def)
qed

lemma utf8_json_text [simp]: "utf8 (json_text s)"
  unfolding utf8_def
proof (induction s rule: json_text.induct)
  case (1 s)
  let ?n = "utf8_len s"
  show ?case
  proof (cases "s = []")
    case False
    show ?thesis
    proof (cases "?n = 0")
      case True
      with False 1(1) show ?thesis
        by (subst (2 3) json_text.simps) (simp add: json_text_replacement)
    next
      case n: False
      then have "utf8_len (take ?n s) = ?n" using utf8_len_take [OF refl, of s "[]"] by simp
      with n False 1(2) show ?thesis
        by (subst (2 3) json_text.simps) (simp add: json_text_len Let_def)
    qed
  qed simp
qed

lemma json_text_append: "json_text (json_text s @ t) = json_text s @ json_text t"
proof (induction s rule: json_text.induct)
  case (1 s)
  let ?n = "utf8_len s"
  show ?case
  proof (cases "s = []")
    case False
    show ?thesis
    proof (cases "?n = 0")
      case True
      with False 1(1) show ?thesis
        by (simp add: json_text.simps [of s] json_text_replacement)
    next
      case n: False
      then have "utf8_len (take ?n s) = ?n" using utf8_len_take [OF refl, of s "[]"] by simp
      with n False 1(2) show ?thesis
        by (simp add: json_text.simps [of s] json_text_len Let_def)
    qed
  qed simp
qed

lemma utf8_append: "utf8 s \<Longrightarrow> utf8 t \<Longrightarrow> utf8 (s @ t)"
  unfolding utf8_def using json_text_append [of s t] by simp

lemmas json_text_idem [simp] = utf8_json_text [unfolded utf8_def]

lemma match_field_exact [simp]: "f \<in> set fields \<Longrightarrow> match_field fields f = Some f"
  by (simp add: match_field_def)

lemma those_map_Some [simp]: "those (map (\<lambda>x. Some (f x)) xs) = Some (map f xs)"
  by (induction xs) simp_all

lemma get_string_JText [simp]: "get_string old (JText s) = Some (json_text s)"
  by (simp add: JText_def)

lemma get_strings_JText [simp]: "get_strings old (JArr (map JText ss)) = Some (map json_text ss)"
  by (simp add: o_def)

lemma get_int_FormatInt [simp]: "in_int64 i \<Longrightarrow> get_int old (JNum (FormatInt i)) = Some i"
  by (simp add: Atoi_FormatInt)

end
