(* ===== verification/ServerConfig.thy ===== *)
theory ServerConfig
  imports GoJson Protocol
begin

text \<open>
  The server configuration of \<open>internal/config/config.go\<close>: defaults from the environment,
  validation of the TLS settings, and the pre-shared key, which is taken from the
  environment, else read from the state file, else generated and written there.
\<close>

section \<open>Settings\<close>

definition CertTraefik :: string where "CertTraefik = ''traefik''"
definition CertLetsEncrypt :: string where "CertLetsEncrypt = ''letsencrypt''"
definition TLSProxy :: string where "TLSProxy = ''proxy''"
definition TLSSelf :: string where "TLSSelf = ''self''"
definition ListenAuto :: string where "ListenAuto = ''auto''"

record server_config =
  Domain :: string
  TLSMode :: string
  ListenAddr :: string
  PublicHost :: string
  PublicPort :: int
  WSPath :: string
  PSK :: bytes
  TunnelCIDR :: string
  Gateway :: string
  MTU :: int
  DNS :: "string list"
  WANInterface :: string
  CertProvider :: string
  TraefikACMEPath :: string
  TLSCertPath :: string
  TLSKeyPath :: string
  ACMEEmail :: string
  ACMECacheDir :: string
  StateFile :: string

text \<open>
  The host: environment variables (the empty string when unset), files as the JSON
  documents they hold (\<open>None\<close> inside for a file that is no JSON), and whether the
  directory of a path can be made and the path be written.
\<close>

record host =
  os_env :: "string \<Rightarrow> string"
  os_files :: "string \<rightharpoonup> json option"
  os_mkdir :: "string \<Rightarrow> bool"
  os_write :: "string \<Rightarrow> bool"

definition env :: "host \<Rightarrow> string \<Rightarrow> string \<Rightarrow> string" where
  "env h key def = (let v = os_env h key in if v \<noteq> [] then v else def)"

definition envInt :: "host \<Rightarrow> string \<Rightarrow> int \<Rightarrow> int" where
  "envInt h key def =
     (let v = os_env h key
      in if v \<noteq> [] then (case Atoi v of Some n \<Rightarrow> n | None \<Rightarrow> def) else def)"

definition envList :: "host \<Rightarrow> string \<Rightarrow> string list \<Rightarrow> string list" where
  "envList h key def =
     (let v = os_env h key
      in if v \<noteq> [] then
           let out = filter (\<lambda>p. p \<noteq> []) (map TrimSpace (Split (CHR '','') v))
           in if 0 < length out then out else def
         else def)"

section \<open>The pre-shared key\<close>

definition decodeKey :: "string \<Rightarrow> bytes result" where
  "decodeKey s0 =
     (let s = TrimSpace s0
      in case DecodeString StdEncoding s of
           Some b \<Rightarrow> if length b = PSKLen then Ok b
             else (case DecodeString RawURLEncoding s of
                     Some b \<Rightarrow> if length b = PSKLen then Ok b else Err ''key must decode to 32 bytes''
                   | None \<Rightarrow> Err ''key must decode to 32 bytes'')
         | None \<Rightarrow>
             (case DecodeString RawURLEncoding s of
                Some b \<Rightarrow> if length b = PSKLen then Ok b else Err ''key must decode to 32 bytes''
              | None \<Rightarrow> Err ''key must decode to 32 bytes''))"

definition assign_persisted :: "string \<Rightarrow> string \<Rightarrow> json \<Rightarrow> string option" where
  "assign_persisted p f v = get_string p v"

definition unmarshal_persisted :: "json \<Rightarrow> string option" where
  "unmarshal_persisted j = Unmarshal assign_persisted [''psk''] [] j"

definition marshal_persisted :: "string \<Rightarrow> json" where
  "marshal_persisted psk = JObj [(''psk'', JText psk)]"

text \<open>The key of the state file, when the file is there and holds a usable one.\<close>

definition stored_key :: "host \<Rightarrow> string \<Rightarrow> bytes option" where
  "stored_key h path =
     (case os_files h path of
        Some (Some j) \<Rightarrow>
          (case unmarshal_persisted j of
             Some p \<Rightarrow> if p \<noteq> [] then (case decodeKey p of Ok psk \<Rightarrow> Some psk | _ \<Rightarrow> None) else None
           | None \<Rightarrow> None)
      | _ \<Rightarrow> None)"

definition resolvePSK :: "host \<Rightarrow> rand_source \<Rightarrow> server_config \<Rightarrow> server_config result \<times> host" where
  "resolvePSK h rand c =
     (let v = os_env h ''ARNOS_PSK''
      in if v \<noteq> [] then
           (case decodeKey v of
              Ok psk \<Rightarrow> (Ok (c\<lparr>PSK := psk\<rparr>), h)
            | Err e \<Rightarrow> (Err (''ARNOS_PSK: '' @ e), h)
            | Panic e \<Rightarrow> (Panic e, h))
         else case stored_key h (StateFile c) of
           Some psk \<Rightarrow> (Ok (c\<lparr>PSK := psk\<rparr>), h)
         | None \<Rightarrow>
             (case rand PSKLen of
                Err e \<Rightarrow> (Err e, h)
              | Panic e \<Rightarrow> (Panic e, h)
              | Ok psk \<Rightarrow>
                  if \<not> os_mkdir h (StateFile c) then (Err ''mkdir'', h)
                  else if \<not> os_write h (StateFile c) then (Err ''write'', h)
                  else (Ok (c\<lparr>PSK := psk\<rparr>),
                        h\<lparr>os_files := (os_files h)(StateFile c \<mapsto>
                            Some (marshal_persisted (EncodeToString StdEncoding psk)))\<rparr>)))"

definition PSKBase64 :: "server_config \<Rightarrow> string" where
  "PSKBase64 c = EncodeToString StdEncoding (PSK c)"

section \<open>Loading\<close>

definition env_config :: "host \<Rightarrow> server_config" where
  "env_config h =
     \<lparr>Domain = env h ''ARNOS_DOMAIN'' [],
      TLSMode = ToLower (env h ''ARNOS_TLS_MODE'' TLSProxy),
      ListenAddr = env h ''ARNOS_LISTEN'' '':8443'',
      PublicHost = env h ''ARNOS_PUBLIC_HOST'' [],
      PublicPort = envInt h ''ARNOS_PUBLIC_PORT'' 443,
      WSPath = env h ''ARNOS_WS_PATH'' ''/'',
      PSK = [],
      TunnelCIDR = env h ''ARNOS_TUNNEL_CIDR'' DefaultTunnelCIDR,
      Gateway = env h ''ARNOS_GATEWAY'' DefaultGateway,
      MTU = envInt h ''ARNOS_MTU'' DefaultMTU,
      DNS = envList h ''ARNOS_DNS'' [''1.1.1.1'', ''1.0.0.1''],
      WANInterface = env h ''ARNOS_WAN_IFACE'' [],
      CertProvider = ToLower (env h ''CERT_PROVIDER'' CertTraefik),
      TraefikACMEPath = env h ''ARNOS_TRAEFIK_ACME'' ''/traefik/acme.json'',
      TLSCertPath = env h ''ARNOS_TLS_CERT'' [],
      TLSKeyPath = env h ''ARNOS_TLS_KEY'' [],
      ACMEEmail = env h ''ARNOS_ACME_EMAIL'' [],
      ACMECacheDir = env h ''ARNOS_ACME_CACHE'' ''/data/acme'',
      StateFile = env h ''ARNOS_STATE_FILE'' ''/data/arnos-state.json''\<rparr>"

definition Load :: "host \<Rightarrow> rand_source \<Rightarrow> server_config result \<times> host" where
  "Load h rand =
     (let c = env_config h
      in if TLSMode c \<noteq> TLSProxy \<and> TLSMode c \<noteq> TLSSelf then
           (Err (''ARNOS_TLS_MODE must be proxy or self, got '' @ TLSMode c), h)
         else
           let c1 = (if PublicHost c = [] then c\<lparr>PublicHost := Domain c\<rparr> else c)
           in if TLSMode c1 = TLSSelf \<and> CertProvider c1 \<noteq> CertTraefik \<and> CertProvider c1 \<noteq> CertLetsEncrypt
              then (Err (''CERT_PROVIDER must be traefik or letsencrypt, got '' @ CertProvider c1), h)
              else if TLSMode c1 = TLSSelf \<and> CertProvider c1 = CertLetsEncrypt \<and> Domain c1 = []
              then (Err ''ARNOS_DOMAIN is required when CERT_PROVIDER=letsencrypt'', h)
              else resolvePSK h rand c1)"

definition listen_addr :: "server_config \<Rightarrow> string" where
  "listen_addr c =
     (if ListenAddr c = [] \<or> EqualFold (ListenAddr c) ListenAuto then '':0'' else ListenAddr c)"

text \<open>\<open>ResolveListener\<close> listens on that address; \<open>listen\<close> is the operating system's answer.\<close>

definition ResolveListener :: "(string \<Rightarrow> 'l result) \<Rightarrow> server_config \<Rightarrow> 'l result" where
  "ResolveListener listen c = listen (listen_addr c)"

section \<open>Keys survive encoding\<close>

lemma decodeKey_std: "length psk = PSKLen \<Longrightarrow> decodeKey (EncodeToString StdEncoding psk) = Ok psk"
  by (simp add: decodeKey_def)

lemma decodeKey_rawurl:
  assumes "length psk = PSKLen"
  shows "decodeKey (EncodeToString RawURLEncoding psk) = Ok psk"
proof -
  have "length (EncodeToString RawURLEncoding psk) = 43"
    using assms by (simp add: length_EncodeToString_raw RawURLEncoding_def PSKLen_def)
  then have "\<not> 4 dvd length (EncodeToString RawURLEncoding psk)" by simp
  then have "DecodeString StdEncoding (EncodeToString RawURLEncoding psk) = None"
    using decode_quanta_padded [of StdEncoding "EncodeToString RawURLEncoding psk"]
    by (cases "decode_quanta StdEncoding (EncodeToString RawURLEncoding psk)")
      (auto simp: DecodeString_def EncodeToString_no_newline StdEncoding_def)
  with assms show ?thesis by (simp add: decodeKey_def)
qed

lemma decodeKey_length: "decodeKey s = Ok psk \<Longrightarrow> length psk = PSKLen"
  by (auto simp: decodeKey_def Let_def split: option.splits if_splits)

lemma stored_key_length: "stored_key h path = Some psk \<Longrightarrow> length psk = PSKLen"
  by (auto simp: stored_key_def decodeKey_length split: option.splits if_splits result.splits)

lemma EncodeToString_not_Nil: "bs \<noteq> [] \<Longrightarrow> EncodeToString e bs \<noteq> []"
  by (cases "(e, bs)" rule: EncodeToString.cases) auto

lemma stored_key_marshal:
  assumes "os_files h path = Some (Some (marshal_persisted (EncodeToString StdEncoding psk)))"
    and "length psk = PSKLen"
  shows "stored_key h path = Some psk"
proof -
  have "psk \<noteq> []" using assms(2) by (auto simp: PSKLen_def)
  with assms show ?thesis
    by (simp add: stored_key_def unmarshal_persisted_def marshal_persisted_def assign_persisted_def
        decodeKey_std EncodeToString_not_Nil)
qed

lemma resolvePSK_Ok:
  assumes "resolvePSK h rand c = (Ok c', h')"
  shows "\<exists>psk. c' = c\<lparr>PSK := psk\<rparr> \<and>
    (os_env h ''ARNOS_PSK'' \<noteq> [] \<and> decodeKey (os_env h ''ARNOS_PSK'') = Ok psk \<and> h' = h \<or>
     os_env h ''ARNOS_PSK'' = [] \<and> stored_key h (StateFile c) = Some psk \<and> h' = h \<or>
     os_env h ''ARNOS_PSK'' = [] \<and> stored_key h (StateFile c) = None \<and> rand PSKLen = Ok psk \<and>
       h' = h\<lparr>os_files := (os_files h)(StateFile c \<mapsto>
              Some (marshal_persisted (EncodeToString StdEncoding psk)))\<rparr>)"
  using assms by (auto simp: resolvePSK_def Let_def split: if_splits result.splits option.splits)

lemma resolvePSK_host: "os_env (snd (resolvePSK h rand c)) = os_env h"
  by (auto simp: resolvePSK_def Let_def split: result.splits option.splits)

text \<open>What a loaded configuration is: the environment's settings with a resolved key.\<close>

definition resolved :: "host \<Rightarrow> server_config" where
  "resolved h =
     (let c = env_config h in if PublicHost c = [] then c\<lparr>PublicHost := Domain c\<rparr> else c)"

definition settings_ok :: "server_config \<Rightarrow> bool" where
  "settings_ok c \<longleftrightarrow>
     (TLSMode c = TLSProxy \<or>
      TLSMode c = TLSSelf \<and>
        (CertProvider c = CertTraefik \<or> CertProvider c = CertLetsEncrypt \<and> Domain c \<noteq> []))"

lemma Load_cases:
  "(\<exists>e. Load h rand = (Err e, h)) \<and> \<not> settings_ok (resolved h) \<or>
   Load h rand = resolvePSK h rand (resolved h) \<and> settings_ok (resolved h)"
  by (auto simp: Load_def resolved_def settings_ok_def Let_def TLSProxy_def TLSSelf_def CertTraefik_def
      CertLetsEncrypt_def)

lemma env_config_cong: "os_env h' = os_env h \<Longrightarrow> resolved h' = resolved h"
  by (simp add: resolved_def env_config_def env_def envInt_def envList_def)

text \<open>A start leaves the host so that every later start loads the same configuration.\<close>

lemma Load_again:
  assumes "Load h rand = (Ok c, h')" and "\<And>bs. rand PSKLen = Ok bs \<Longrightarrow> length bs = PSKLen"
  shows "Load h' rand' = (Ok c, h')"
proof -
  have ok: "settings_ok (resolved h)" and eq: "Load h rand = resolvePSK h rand (resolved h)"
    using Load_cases [of h rand] assms(1) by auto
  let ?f = "StateFile (resolved h)" and ?env = "os_env h ''ARNOS_PSK''"
  from assms(1) eq obtain psk where c: "c = (resolved h)\<lparr>PSK := psk\<rparr>"
    and how: "?env \<noteq> [] \<and> decodeKey ?env = Ok psk \<and> h' = h \<or> ?env = [] \<and> stored_key h ?f = Some psk \<and> h' = h \<or>
      ?env = [] \<and> rand PSKLen = Ok psk \<and> h' = h\<lparr>os_files := (os_files h)(?f \<mapsto>
        Some (marshal_persisted (EncodeToString StdEncoding psk)))\<rparr>"
    using resolvePSK_Ok [of h rand "resolved h" c h'] by auto
  have env: "os_env h' = os_env h" using how by auto
  have "?env = [] \<Longrightarrow> stored_key h' ?f = Some psk"
    using how assms(2) stored_key_marshal [of h' ?f psk] by auto
  then have "resolvePSK h' rand' (resolved h') = (Ok c, h')"
    using how env c by (auto simp: resolvePSK_def env_config_cong [OF env])
  then show ?thesis
    using Load_cases [of h' rand'] ok by (auto simp: env_config_cong [OF env])
qed

section \<open>A concrete host\<close>

definition blank_host :: host where
  "blank_host = \<lparr>os_env = (\<lambda>_. []), os_files = Map.empty, os_mkdir = (\<lambda>_. True), os_write = (\<lambda>_. True)\<rparr>"

lemma Load_blank:
  "\<exists>c h. Load blank_host (\<lambda>n. Ok (replicate n b)) = (Ok c, h) \<and> PSK c = replicate PSKLen b"
  by (simp add: Load_def env_config_def blank_host_def env_def ToLower_def TLSProxy_def TLSSelf_def Let_def
      resolvePSK_def stored_key_def lower_char_def)

section \<open>Properties\<close>

text \<open>C27: the key persists. A successful start with working randomness, whether the key came from
  the environment, from the state file or was generated, leaves the host so that every later start, whatever its random
  source delivers, succeeds with the same configuration (the same key) and writes nothing.\<close>

theorem Load_psk_persistent:
  assumes "Load h rand = (Ok c, h')"
    and "\<And>bs. rand PSKLen = Ok bs \<Longrightarrow> length bs = PSKLen"
  shows "Load h' rand' = (Ok c, h')"
  using assms by (rule Load_again)

theorem Load_psk_persistent_witness:
  "\<exists>c h. Load blank_host (\<lambda>n. Ok (replicate n 7)) = (Ok c, h) \<and> PSK c = replicate PSKLen 7 \<and>
    Load h (\<lambda>n. Ok (replicate n 8)) = (Ok c, h)"
proof -
  obtain c h where 1: "Load blank_host (\<lambda>n. Ok (replicate n 7)) = (Ok c, h)" "PSK c = replicate PSKLen 7"
    using Load_blank by blast
  have "Load h (\<lambda>n. Ok (replicate n 8)) = (Ok c, h)"
    by (rule Load_psk_persistent [OF 1(1)]) (auto simp: blank_host_def)
  with 1 show ?thesis by blast
qed

text \<open>C36: every configuration that loads is usable: its key has the protocol's length and
  its TLS settings are one of the supported combinations.\<close>

theorem Load_valid:
  assumes "Load h rand = (Ok c, h')"
    and "\<And>bs. rand PSKLen = Ok bs \<Longrightarrow> length bs = PSKLen"
  shows "length (PSK c) = PSKLen \<and> settings_ok c \<and> (PublicHost c = [] \<longrightarrow> Domain c = [])"
proof -
  have ok: "settings_ok (resolved h)" and eq: "Load h rand = resolvePSK h rand (resolved h)"
    using Load_cases [of h rand] assms(1) by auto
  obtain psk where "c = (resolved h)\<lparr>PSK := psk\<rparr>" "length psk = PSKLen"
    using resolvePSK_Ok [of h rand "resolved h" c h'] assms eq decodeKey_length stored_key_length by auto
  then show ?thesis
    using ok by (auto simp: settings_ok_def resolved_def Let_def)
qed

theorem Load_valid_witness:
  "\<exists>c h. Load blank_host (\<lambda>n. Ok (replicate n 7)) = (Ok c, h) \<and> length (PSK c) = PSKLen \<and> settings_ok c"
proof -
  obtain c h where 1: "Load blank_host (\<lambda>n. Ok (replicate n 7)) = (Ok c, h)" using Load_blank by blast
  from Load_valid [OF this] 1 show ?thesis by auto
qed

end
