(* ===== verification/Messages.thy ===== *)
theory Messages
  imports GoJson Protocol
begin

text \<open>
  The control frames of \<open>internal/protocol/protocol.go\<close> as JSON documents, with the member
  names of the struct tags, and the WebSocket messages that carry them.
\<close>

section \<open>WebSocket messages\<close>

text \<open>A text message is the JSON document it holds, if it holds one.\<close>

datatype ws_message = TextMessage "json option" | BinaryMessage bytes

section \<open>Hello\<close>

definition hello_zero :: hello_msg where
  "hello_zero = \<lparr>hello_type = [], hello_version = 0, hello_salt = [], hello_ts = 0, hello_auth = [],
     hello_name = []\<rparr>"

definition hello_fields :: "string list" where
  "hello_fields = [''type'', ''v'', ''salt'', ''ts'', ''auth'', ''name'']"

definition assign_hello :: "hello_msg \<Rightarrow> string \<Rightarrow> json \<Rightarrow> hello_msg option" where
  "assign_hello r f v =
     (if f = ''type'' then map_option (\<lambda>x. r\<lparr>hello_type := x\<rparr>) (get_string (hello_type r) v)
      else if f = ''v'' then map_option (\<lambda>x. r\<lparr>hello_version := x\<rparr>) (get_int (hello_version r) v)
      else if f = ''salt'' then map_option (\<lambda>x. r\<lparr>hello_salt := x\<rparr>) (get_string (hello_salt r) v)
      else if f = ''ts'' then map_option (\<lambda>x. r\<lparr>hello_ts := x\<rparr>) (get_int (hello_ts r) v)
      else if f = ''auth'' then map_option (\<lambda>x. r\<lparr>hello_auth := x\<rparr>) (get_string (hello_auth r) v)
      else map_option (\<lambda>x. r\<lparr>hello_name := x\<rparr>) (get_string (hello_name r) v))"

definition unmarshal_hello :: "json \<Rightarrow> hello_msg option" where
  "unmarshal_hello = Unmarshal assign_hello hello_fields hello_zero"

definition marshal_hello :: "hello_msg \<Rightarrow> json" where
  "marshal_hello h =
     JObj ([(''type'', JText (hello_type h)), (''v'', JNum (FormatInt (hello_version h))),
            (''salt'', JText (hello_salt h)), (''ts'', JNum (FormatInt (hello_ts h))),
            (''auth'', JText (hello_auth h))] @
           (if hello_name h = [] then [] else [(''name'', JText (hello_name h))]))"

section \<open>Welcome\<close>

definition welcome_zero :: welcome_msg where
  "welcome_zero = \<lparr>welcome_type = [], welcome_salt = [], welcome_ip = [], welcome_mask = 0,
     welcome_gateway = [], welcome_dns = [], welcome_mtu = 0\<rparr>"

definition welcome_fields :: "string list" where
  "welcome_fields = [''type'', ''salt'', ''ip'', ''mask'', ''gw'', ''dns'', ''mtu'']"

definition assign_welcome :: "welcome_msg \<Rightarrow> string \<Rightarrow> json \<Rightarrow> welcome_msg option" where
  "assign_welcome r f v =
     (if f = ''type'' then map_option (\<lambda>x. r\<lparr>welcome_type := x\<rparr>) (get_string (welcome_type r) v)
      else if f = ''salt'' then map_option (\<lambda>x. r\<lparr>welcome_salt := x\<rparr>) (get_string (welcome_salt r) v)
      else if f = ''ip'' then map_option (\<lambda>x. r\<lparr>welcome_ip := x\<rparr>) (get_string (welcome_ip r) v)
      else if f = ''mask'' then map_option (\<lambda>x. r\<lparr>welcome_mask := x\<rparr>) (get_int (welcome_mask r) v)
      else if f = ''gw'' then map_option (\<lambda>x. r\<lparr>welcome_gateway := x\<rparr>) (get_string (welcome_gateway r) v)
      else if f = ''dns'' then map_option (\<lambda>x. r\<lparr>welcome_dns := x\<rparr>) (get_strings (welcome_dns r) v)
      else map_option (\<lambda>x. r\<lparr>welcome_mtu := x\<rparr>) (get_int (welcome_mtu r) v))"

definition unmarshal_welcome :: "json \<Rightarrow> welcome_msg option" where
  "unmarshal_welcome = Unmarshal assign_welcome welcome_fields welcome_zero"

definition marshal_welcome :: "welcome_msg \<Rightarrow> json" where
  "marshal_welcome w =
     JObj [(''type'', JText (welcome_type w)), (''salt'', JText (welcome_salt w)),
           (''ip'', JText (welcome_ip w)), (''mask'', JNum (FormatInt (welcome_mask w))),
           (''gw'', JText (welcome_gateway w)), (''dns'', JArr (map JText (welcome_dns w))),
           (''mtu'', JNum (FormatInt (welcome_mtu w)))]"

section \<open>Error and control frames\<close>

definition marshal_error :: "string \<Rightarrow> json" where
  "marshal_error msg = JObj [(''type'', JText MsgError), (''msg'', JText msg)]"

definition assign_control :: "string \<Rightarrow> string \<Rightarrow> json \<Rightarrow> string option" where
  "assign_control t f v = get_string t v"

definition unmarshal_control :: "json \<Rightarrow> string option" where
  "unmarshal_control = Unmarshal assign_control [''type''] []"

definition marshal_control :: "string \<Rightarrow> json" where
  "marshal_control t = JObj [(''type'', JText t)]"

section \<open>Round trips\<close>

text \<open>A message as the document carries it: its strings made well-formed.\<close>

definition hello_text :: "hello_msg \<Rightarrow> hello_msg" where
  "hello_text h = h\<lparr>hello_type := json_text (hello_type h), hello_salt := json_text (hello_salt h),
     hello_auth := json_text (hello_auth h), hello_name := json_text (hello_name h)\<rparr>"

definition welcome_text :: "welcome_msg \<Rightarrow> welcome_msg" where
  "welcome_text w = w\<lparr>welcome_type := json_text (welcome_type w), welcome_salt := json_text (welcome_salt w),
     welcome_ip := json_text (welcome_ip w), welcome_gateway := json_text (welcome_gateway w),
     welcome_dns := map json_text (welcome_dns w)\<rparr>"

lemma unmarshal_marshal_hello [simp]:
  "in_int64 (hello_version h) \<Longrightarrow> in_int64 (hello_ts h) \<Longrightarrow> unmarshal_hello (marshal_hello h) = Some (hello_text h)"
  by (simp add: unmarshal_hello_def marshal_hello_def assign_hello_def hello_fields_def hello_zero_def
      hello_text_def Atoi_FormatInt)

lemma hello_text_id:
  "utf8 (hello_type h) \<Longrightarrow> utf8 (hello_salt h) \<Longrightarrow> utf8 (hello_auth h) \<Longrightarrow> utf8 (hello_name h) \<Longrightarrow> hello_text h = h"
  by (simp add: hello_text_def utf8_def)

lemma Msg_utf8 [simp]: "utf8 MsgHello" "utf8 MsgWelcome" "utf8 MsgError" "utf8 MsgPing" "utf8 MsgPong"
  by (simp_all add: MsgHello_def MsgWelcome_def MsgError_def MsgPing_def MsgPong_def utf8_def)

lemmas Msg_text [simp] = Msg_utf8 [unfolded utf8_def]

lemma unmarshal_marshal_welcome [simp]:
  "in_int64 (welcome_mask w) \<Longrightarrow> in_int64 (welcome_mtu w) \<Longrightarrow>
    unmarshal_welcome (marshal_welcome w) = Some (welcome_text w)"
  by (simp add: unmarshal_welcome_def marshal_welcome_def assign_welcome_def welcome_fields_def
      welcome_zero_def welcome_text_def Atoi_FormatInt o_def)

lemma unmarshal_marshal_control [simp]: "unmarshal_control (marshal_control t) = Some (json_text t)"
  by (simp add: unmarshal_control_def marshal_control_def assign_control_def)

lemma decode_members_inv:
  assumes "\<And>r f v r'. P r \<Longrightarrow> assign r f v = Some r' \<Longrightarrow> P r'" "P r"
    and "decode_members assign names ms r = Some r'"
  shows "P r'"
  using assms(2,3)
proof (induction ms arbitrary: r)
  case (Cons m ms)
  obtain k v where m: "m = (k, v)" by fastforce
  from Cons.prems show ?case
    unfolding m
    by (auto split: option.splits intro: Cons.IH dest: assms(1))
qed simp

text \<open>A decoded timestamp is an \<open>int64\<close>.\<close>

lemma unmarshal_hello_ts: "unmarshal_hello j = Some h \<Longrightarrow> in_int64 (hello_ts h)"
proof -
  assume u: "unmarshal_hello j = Some h"
  have int: "in_int64 i \<Longrightarrow> get_int i v = Some x \<Longrightarrow> in_int64 x" for i v x
    by (cases v) (auto dest: Atoi_bounds)
  have step: "in_int64 (hello_ts r) \<Longrightarrow> assign_hello r f v = Some r' \<Longrightarrow> in_int64 (hello_ts r')" for r f v r'
    by (auto simp: assign_hello_def intro: int split: if_splits)
  have zero: "in_int64 (hello_ts hello_zero)" by (simp add: hello_zero_def in_int64_def)
  from u show ?thesis
    unfolding unmarshal_hello_def
    by (cases j) (use zero decode_members_inv [of "\<lambda>r. in_int64 (hello_ts r)", OF step zero] in auto)
qed

end
