(* ===== verification/Server.thy ===== *)
theory Server
  imports Pool Replay ServerConfig Messages
begin

text \<open>
  The tunnel server of \<open>internal/server/server.go\<close>: the handshake, the table of registered
  clients, and one definition per loop body of the three kinds of goroutine that serve a
  connection (TUN reader, WebSocket reader, WebSocket writer).
\<close>

section \<open>State\<close>

text \<open>
  A client object. Its outbound channel holds at most 256 entries; \<open>None\<close> is the nil frame
  that asks the writer for a pong.
\<close>

record tclient =
  c_session :: session
  c_ip :: net_ip
  c_ipKey :: u32
  c_name :: string
  c_send :: "bytes option list"
  c_closed :: bool

text \<open>
  The server: the table of clients maps tunnel addresses to client objects, which are
  identified by the number of the connection that made them.
\<close>

record server =
  srv_cfg :: server_config
  srv_pool :: ip_pool
  srv_replay :: replay_guard
  srv_clients :: "u32 \<rightharpoonup> nat"
  srv_heap :: "nat \<rightharpoonup> tclient"

definition maxFrameBytes :: "server_config \<Rightarrow> int" where
  "maxFrameBytes cfg = wrap64 (MTU cfg + int MaxPad + 1024)"

section \<open>Handshake\<close>

definition stale :: "int \<Rightarrow> int \<Rightarrow> bool" where
  "stale now ts =
     (let skew = wrap64 (unix now - ts) in skew > AuthWindow \<or> skew < - AuthWindow)"

text \<open>
  The checks on the first message, in the order of the code: \<open>msg\<close> is what \<open>ReadMessage\<close>
  returned and \<open>now\<close> the time of the skew check.
\<close>

definition check_hello :: "server_config \<Rightarrow> int \<Rightarrow> ws_message result \<Rightarrow> (hello_msg \<times> bytes) result" where
  "check_hello cfg now msg =
     bind_result msg (\<lambda>m. case m of
         BinaryMessage _ \<Rightarrow> Err ''expected hello control frame''
       | TextMessage doc \<Rightarrow>
           (case Option.bind doc unmarshal_hello of
              None \<Rightarrow> Err ''malformed hello''
            | Some hello \<Rightarrow>
                if hello_type hello \<noteq> MsgHello \<or> hello_version hello \<noteq> Version then
                  Err ''unsupported protocol version''
                else case DecodeString StdEncoding (hello_salt hello) of
                  None \<Rightarrow> Err ''bad client salt''
                | Some clientSalt \<Rightarrow>
                    if length clientSalt \<noteq> SaltLen then Err ''bad client salt''
                    else if stale now (hello_ts hello) then Err ''stale handshake''
                    else if \<not> VerifyAuth (PSK cfg) clientSalt (hello_ts hello) (hello_auth hello) then
                      Err ''authentication failed''
                    else Ok (hello, clientSalt)))"

text \<open>The checks followed by the replay guard, which reads the clock again at \<open>now'\<close>.\<close>

definition handshake_auth ::
  "int \<Rightarrow> int \<Rightarrow> ws_message result \<Rightarrow> server \<Rightarrow> (hello_msg \<times> bytes) result \<times> server" where
  "handshake_auth now now' msg srv =
     (case check_hello (srv_cfg srv) now msg of
        Err e \<Rightarrow> (Err e, srv)
      | Panic e \<Rightarrow> (Panic e, srv)
      | Ok (hello, clientSalt) \<Rightarrow>
          let (fresh, g) = observe (srv_replay srv) now' (hello_salt hello) (hello_ts hello);
              srv' = srv\<lparr>srv_replay := g\<rparr>
          in if fresh then (Ok (hello, clientSalt), srv') else (Err ''replayed handshake'', srv'))"

definition new_client :: "session \<Rightarrow> net_ip \<Rightarrow> string \<Rightarrow> tclient" where
  "new_client s ip name =
     \<lparr>c_session = s, c_ip = ip, c_ipKey = ipToUint32 ip, c_name = name, c_send = [], c_closed = False\<rparr>"

definition make_welcome :: "server \<Rightarrow> bytes \<Rightarrow> net_ip \<Rightarrow> welcome_msg" where
  "make_welcome srv serverSalt ip =
     \<lparr>welcome_type = MsgWelcome, welcome_salt = EncodeToString StdEncoding serverSalt,
      welcome_ip = IP_String ip, welcome_mask = int (Ones (srv_pool srv)),
      welcome_gateway = Gateway (srv_cfg srv), welcome_dns = DNS (srv_cfg srv),
      welcome_mtu = MTU (srv_cfg srv)\<rparr>"

text \<open>Server salt, session keys and tunnel address: what the welcome is made of.\<close>

definition handshake_alloc ::
  "crypto \<Rightarrow> rand_source \<Rightarrow> hello_msg \<Rightarrow> bytes \<Rightarrow> server \<Rightarrow> (tclient \<times> welcome_msg) result \<times> server" where
  "handshake_alloc cr rand hello clientSalt srv =
     (case RandBytes rand SaltLen of
        Err e \<Rightarrow> (Err e, srv)
      | Panic e \<Rightarrow> (Panic e, srv)
      | Ok serverSalt \<Rightarrow>
          (case DeriveSession cr (PSK (srv_cfg srv)) clientSalt serverSalt True of
             Err e \<Rightarrow> (Err e, srv)
           | Panic e \<Rightarrow> (Panic e, srv)
           | Ok session \<Rightarrow>
               (case Allocate (srv_pool srv) of
                  (Err e, p) \<Rightarrow> (Err e, srv\<lparr>srv_pool := p\<rparr>)
                | (Panic e, p) \<Rightarrow> (Panic e, srv\<lparr>srv_pool := p\<rparr>)
                | (Ok ip, p) \<Rightarrow>
                    (Ok (new_client session ip (hello_name hello), make_welcome srv serverSalt ip),
                     srv\<lparr>srv_pool := p\<rparr>))))"

text \<open>The welcome is written; when that fails the address goes back to the pool.\<close>

definition handshake_finish :: "unit result \<Rightarrow> tclient \<Rightarrow> server \<Rightarrow> tclient result \<times> server" where
  "handshake_finish written c srv =
     (case written of
        Ok _ \<Rightarrow> (Ok c, srv)
      | Err e \<Rightarrow> (Err e, srv\<lparr>srv_pool := Release (c_ip c) (srv_pool srv)\<rparr>)
      | Panic e \<Rightarrow> (Panic e, srv))"

definition handshake ::
  "crypto \<Rightarrow> rand_source \<Rightarrow> int \<Rightarrow> int \<Rightarrow> ws_message result \<Rightarrow> (welcome_msg \<Rightarrow> unit result) \<Rightarrow> server
    \<Rightarrow> tclient result \<times> server" where
  "handshake cr rand now now' msg write srv =
     (case handshake_auth now now' msg srv of
        (Err e, srv1) \<Rightarrow> (Err e, srv1)
      | (Panic e, srv1) \<Rightarrow> (Panic e, srv1)
      | (Ok (hello, clientSalt), srv1) \<Rightarrow>
          (case handshake_alloc cr rand hello clientSalt srv1 of
             (Err e, srv2) \<Rightarrow> (Err e, srv2)
           | (Panic e, srv2) \<Rightarrow> (Panic e, srv2)
           | (Ok (c, welcome), srv2) \<Rightarrow> handshake_finish (write welcome) c srv2))"

section \<open>Registration\<close>

definition client_close :: "tclient \<Rightarrow> tclient" where
  "client_close c = c\<lparr>c_closed := True\<rparr>"

definition close_at :: "nat \<Rightarrow> server \<Rightarrow> server" where
  "close_at i srv = srv\<lparr>srv_heap := (srv_heap srv)(i := map_option client_close (srv_heap srv i))\<rparr>"

definition register :: "nat \<Rightarrow> tclient \<Rightarrow> server \<Rightarrow> server" where
  "register i c srv =
     (let srv1 = (case srv_clients srv (c_ipKey c) of Some old \<Rightarrow> close_at old srv | None \<Rightarrow> srv)
      in srv1\<lparr>srv_clients := (srv_clients srv1)(c_ipKey c \<mapsto> i)\<rparr>)"

text \<open>
  \<open>deregister\<close> is three critical sections: the table entry (only if it is still this
  client), the address, and the connection.
\<close>

definition unmap :: "nat \<Rightarrow> tclient \<Rightarrow> server \<Rightarrow> server" where
  "unmap i c srv =
     (if srv_clients srv (c_ipKey c) = Some i
      then srv\<lparr>srv_clients := (srv_clients srv)(c_ipKey c := None)\<rparr> else srv)"

definition give_back :: "tclient \<Rightarrow> server \<Rightarrow> server" where
  "give_back c srv = srv\<lparr>srv_pool := Release (c_ip c) (srv_pool srv)\<rparr>"

definition deregister :: "nat \<Rightarrow> tclient \<Rightarrow> server \<Rightarrow> server" where
  "deregister i c srv = close_at i (give_back c (unmap i c srv))"

section \<open>Loop bodies\<close>

datatype 'a loop = Continue 'a | Return 'a

definition ip_version :: "bytes \<Rightarrow> byte" where "ip_version pkt = drop_bit 4 (pkt ! 0)"
definition ip_src :: "bytes \<Rightarrow> u32" where "ip_src pkt = Uint32 (take 4 (drop 12 pkt))"
definition ip_dst :: "bytes \<Rightarrow> u32" where "ip_dst pkt = Uint32 (take 4 (drop 16 pkt))"

definition sendCap :: nat where "sendCap = 256"

text \<open>A send on the outbound channel with a \<open>default\<close> branch: dropped when it is full.\<close>

definition enqueue :: "bytes option \<Rightarrow> tclient \<Rightarrow> tclient" where
  "enqueue f c = (if length (c_send c) < sendCap then c\<lparr>c_send := c_send c @ [f]\<rparr> else c)"

text \<open>
  \<open>tunReadLoop\<close>: a packet read from the TUN device is looked up, then sealed and queued for
  the client found. \<open>pr\<close> is what \<open>Seal\<close> draws for the padding: the two length bytes and the
  filling.
\<close>

type_synonym pad_rand = "byte \<times> byte \<times> (nat \<Rightarrow> bytes)"

definition tun_route :: "server \<Rightarrow> bytes \<Rightarrow> nat option" where
  "tun_route srv pkt =
     (if length pkt < 20 then None
      else if ip_version pkt \<noteq> 4 then None
      else srv_clients srv (ip_dst pkt))"

text \<open>The buffer of the reader: \<open>make\<close> panics on a negative length, which ends the whole process.\<close>

definition tun_buffer :: "server_config \<Rightarrow> nat result" where
  "tun_buffer cfg =
     (let n = wrap64 (MTU cfg + 64) in if n < 0 then Panic ''makeslice: len out of range'' else Ok (nat n))"

definition tun_deliver :: "crypto \<Rightarrow> bytes \<Rightarrow> pad_rand \<Rightarrow> tclient \<Rightarrow> tclient" where
  "tun_deliver cr pkt pr c =
     (let (b0, b1, fill) = pr;
          (frame, s) = Seal cr (c_session c) pkt b0 b1 fill
      in enqueue (Some frame) (c\<lparr>c_session := s\<rparr>))"

text \<open>
  \<open>readLoop\<close>: one message of the client. The second component is the packet written to the
  TUN device, if any.
\<close>

definition read_step :: "crypto \<Rightarrow> tclient \<Rightarrow> ws_message result \<Rightarrow> tclient loop \<times> bytes option" where
  "read_step cr c msg =
     (case msg of
        Ok (BinaryMessage data) \<Rightarrow>
          (case Open cr (c_session c) data of
             (Ok pkt, s) \<Rightarrow>
               let c' = c\<lparr>c_session := s\<rparr>
               in if length pkt < 20 \<or> ip_version pkt \<noteq> 4 then (Continue c', None)
                  else if ip_src pkt \<noteq> c_ipKey c then (Continue c', None)
                  else (Continue c', Some pkt)
           | (_, s) \<Rightarrow> (Return (c\<lparr>c_session := s\<rparr>), None))
      | Ok (TextMessage doc) \<Rightarrow>
          (if Option.bind doc unmarshal_control = Some MsgPing
           then (Continue (enqueue None c), None) else (Continue c, None))
      | _ \<Rightarrow> (Return c, None))"

text \<open>
  \<open>writeLoop\<close>: the branch its \<open>select\<close> takes, with the outcome of the write, and what goes out.
\<close>

datatype write_event = Closed | Dequeued bool | Tick bool

datatype ws_out = OutText json | OutBinary bytes | OutPing

definition write_step :: "tclient \<Rightarrow> write_event \<Rightarrow> tclient loop \<times> ws_out option" where
  "write_step c e =
     (case e of
        Closed \<Rightarrow> if c_closed c then (Return c, None) else (Continue c, None)
      | Dequeued ok \<Rightarrow>
          (case c_send c of
             [] \<Rightarrow> (Continue c, None)
           | None # q \<Rightarrow>
               (Continue (c\<lparr>c_send := q\<rparr>), if ok then Some (OutText (marshal_control MsgPong)) else None)
           | Some frame # q \<Rightarrow>
               if ok then (Continue (c\<lparr>c_send := q\<rparr>), Some (OutBinary frame))
               else (Return (client_close (c\<lparr>c_send := q\<rparr>)), None))
      | Tick ok \<Rightarrow> if ok then (Continue c, Some OutPing) else (Return (client_close c), None))"

text \<open>
  The loops on a sequence of inputs: the messages a reader gets, and the interleaving of
  deliveries by the TUN reader with the branches of the writer on one client object. The
  results are the packets put on the TUN device and the messages put on the wire.
\<close>

fun readLoop :: "crypto \<Rightarrow> tclient \<Rightarrow> ws_message result list \<Rightarrow> bytes list \<times> tclient loop" where
  "readLoop cr c [] = ([], Continue c)"
| "readLoop cr c (m # ms) =
     (case read_step cr c m of
        (Continue c', out) \<Rightarrow>
          (let (outs, l) = readLoop cr c' ms in (case out of Some pkt \<Rightarrow> pkt # outs | None \<Rightarrow> outs, l))
      | (Return c', out) \<Rightarrow> ([], Return c'))"

datatype client_event = Deliver bytes pad_rand | Write write_event

fun writeLoop :: "crypto \<Rightarrow> tclient \<Rightarrow> client_event list \<Rightarrow> ws_out list \<times> tclient loop" where
  "writeLoop cr c [] = ([], Continue c)"
| "writeLoop cr c (Deliver pkt pr # es) = writeLoop cr (tun_deliver cr pkt pr c) es"
| "writeLoop cr c (Write e # es) =
     (case write_step c e of
        (Continue c', out) \<Rightarrow>
          (let (outs, l) = writeLoop cr c' es in (case out of Some m \<Rightarrow> m # outs | None \<Rightarrow> outs, l))
      | (Return c', out) \<Rightarrow> ([], Return c'))"

section \<open>HTTP front\<close>

datatype http_answer =
    Answer "(string \<times> string) list" string
  | HandleTunnel

definition decoy_page :: string where
  "decoy_page = ''<!doctype html><html><head><title>Welcome</title></head><body><h1>It works!</h1></body></html>''"

definition decoy :: http_answer where
  "decoy = Answer [(''Server'', ''nginx''), (''Content-Type'', ''text/html; charset=utf-8'')] decoy_page"

definition Handler :: "string \<Rightarrow> bool \<Rightarrow> http_answer" where
  "Handler path isWS =
     (if path = ''/healthz'' then Answer [(''Content-Type'', ''text/plain'')] ''ok''
      else if isWS then HandleTunnel
      else decoy)"

text \<open>
  \<open>handleTunnel\<close> up to the start of the loops: the upgraded connection \<open>i\<close> is either
  registered, or answered with an error frame and closed.
\<close>

definition handleTunnel ::
  "crypto \<Rightarrow> rand_source \<Rightarrow> int \<Rightarrow> int \<Rightarrow> ws_message result \<Rightarrow> (welcome_msg \<Rightarrow> unit result) \<Rightarrow> nat \<Rightarrow> server
    \<Rightarrow> json option \<times> server" where
  "handleTunnel cr rand now now' msg write i srv =
     (case handshake cr rand now now' msg write srv of
        (Ok c, srv1) \<Rightarrow> (None, register i c (srv1\<lparr>srv_heap := (srv_heap srv1)(i \<mapsto> c)\<rparr>))
      | (Err e, srv1) \<Rightarrow> (Some (marshal_error e), srv1)
      | (Panic e, srv1) \<Rightarrow> (None, srv1))"

section \<open>Lemmas: the clock\<close>

text \<open>
  The wrapping subtraction decides the window correctly for every timestamp a hello can
  carry, as long as the server's clock is before the year 2262.
\<close>

lemma stale_iff:
  assumes "in_int64 ts" "0 \<le> unix now" "unix now < 2 ^ 62"
  shows "stale now ts \<longleftrightarrow> AuthWindow < \<bar>unix now - ts\<bar>"
proof (cases "in_int64 (unix now - ts)")
  case True
  then show ?thesis by (auto simp: stale_def Let_def wrap64_id)
next
  case False
  with assms have ts: "unix now - ts \<ge> 2 ^ 63" "unix now - ts \<le> 2 ^ 62 + 2 ^ 63"
    by (auto simp: in_int64_def)
  then have "(unix now - ts + 2 ^ 63) mod 2 ^ 64 = unix now - ts - 2 ^ 63"
    by (subst mod_pos_geq) simp_all
  then have "wrap64 (unix now - ts) \<le> - (2 ^ 62)" using ts by (simp add: wrap64_def)
  with ts show ?thesis by (simp add: stale_def Let_def AuthWindow_def)
qed

section \<open>Lemmas: the handshake\<close>

text \<open>What an accepted hello is.\<close>

definition good_hello :: "server_config \<Rightarrow> int \<Rightarrow> hello_msg \<Rightarrow> bytes \<Rightarrow> bool" where
  "good_hello cfg now hello salt \<longleftrightarrow>
     hello_type hello = MsgHello \<and> hello_version hello = Version \<and>
     DecodeString StdEncoding (hello_salt hello) = Some salt \<and> length salt = SaltLen \<and>
     \<not> stale now (hello_ts hello) \<and> hello_auth hello = ComputeAuth (PSK cfg) salt (hello_ts hello)"

lemma check_hello_Ok:
  "check_hello cfg now msg = Ok (hello, salt) \<longleftrightarrow>
     (\<exists>doc. msg = Ok (TextMessage (Some doc)) \<and> unmarshal_hello doc = Some hello) \<and>
     good_hello cfg now hello salt"
  by (auto simp: check_hello_def good_hello_def VerifyAuth_iff bind_result_def Let_def
      split: result.splits ws_message.splits option.splits if_splits bind_splits)

lemma check_hello_ts: "check_hello cfg now msg = Ok (hello, salt) \<Longrightarrow> in_int64 (hello_ts hello)"
  using unmarshal_hello_ts by (auto simp: check_hello_Ok)

lemma handshake_auth_Ok:
  "handshake_auth now now' msg srv = (Ok (hello, salt), srv') \<longleftrightarrow>
     check_hello (srv_cfg srv) now msg = Ok (hello, salt) \<and>
     fst (observe (srv_replay srv) now' (hello_salt hello) (hello_ts hello)) \<and>
     srv' = srv\<lparr>srv_replay := snd (observe (srv_replay srv) now' (hello_salt hello) (hello_ts hello))\<rparr>"
  by (auto simp: handshake_auth_def Let_def split: result.splits prod.splits if_splits)

text \<open>Authentication touches nothing but the replay guard.\<close>

lemma handshake_auth_frame:
  "handshake_auth now now' msg srv = (r, srv') \<Longrightarrow> \<exists>g. srv' = srv\<lparr>srv_replay := g\<rparr>"
  by (auto simp: handshake_auth_def Let_def split: result.splits prod.splits if_splits)
     (metis (no_types, lifting) server.surjective server.update_convs(3))+

lemma handshake_alloc_Ok:
  "handshake_alloc cr rand hello salt srv = (Ok (c, w), srv') \<longleftrightarrow>
     (\<exists>ss s ip p. rand SaltLen = Ok ss \<and>
        DeriveSession cr (PSK (srv_cfg srv)) salt ss True = Ok s \<and>
        Allocate (srv_pool srv) = (Ok ip, p) \<and>
        c = new_client s ip (hello_name hello) \<and> w = make_welcome srv ss ip \<and>
        srv' = srv\<lparr>srv_pool := p\<rparr>)"
  by (auto simp: handshake_alloc_def RandBytes_def bind_result_def split: result.splits prod.splits)

text \<open>A failed allocation leaves the server as it was.\<close>

lemma handshake_alloc_fails:
  assumes "pool_wf (srv_pool srv)" "handshake_alloc cr rand hello salt srv = (r, srv')" "\<not> is_Ok r"
  shows "srv' = srv"
  using assms pool.alloc_Err [OF assms(1)] pool.alloc_no_Panic [OF assms(1)]
  by (auto simp: handshake_alloc_def split: result.splits prod.splits)

text \<open>The hello of a client that knows the key.\<close>

definition honest_hello :: "bytes \<Rightarrow> bytes \<Rightarrow> int \<Rightarrow> string \<Rightarrow> hello_msg" where
  "honest_hello psk salt ts name =
     \<lparr>hello_type = MsgHello, hello_version = Version, hello_salt = EncodeToString StdEncoding salt,
      hello_ts = ts, hello_auth = ComputeAuth psk salt ts, hello_name = name\<rparr>"

abbreviation hello_frame :: "hello_msg \<Rightarrow> ws_message result" where
  "hello_frame h \<equiv> Ok (TextMessage (Some (marshal_hello h)))"

lemma honest_check:
  assumes "length salt = SaltLen" "in_int64 ts" "\<not> stale now ts" "utf8 name"
  shows "check_hello cfg now (hello_frame (honest_hello (PSK cfg) salt ts name)) =
    Ok (honest_hello (PSK cfg) salt ts name, salt)"
  using assms by (simp add: check_hello_Ok good_hello_def honest_hello_def hello_text_def utf8_def Version_def in_int64_def)

lemma honest_auth:
  assumes "length salt = SaltLen" "in_int64 ts" "\<not> stale now ts" "utf8 name" "PSK (srv_cfg srv) = psk"
    and "fst (observe (srv_replay srv) now' (EncodeToString StdEncoding salt) ts)"
  shows "handshake_auth now now' (hello_frame (honest_hello psk salt ts name)) srv =
    (Ok (honest_hello psk salt ts name, salt),
     srv\<lparr>srv_replay := snd (observe (srv_replay srv) now' (EncodeToString StdEncoding salt) ts)\<rparr>)"
  using honest_check [OF assms(1-4), of "srv_cfg srv"] assms(5,6)
  by (simp add: handshake_auth_Ok) (simp add: honest_hello_def)

lemma handshake_alloc_possible:
  assumes "pool_wf (srv_pool srv)" "pool_assigned (srv_pool srv) \<noteq> usable (srv_pool srv)"
    and "rand SaltLen = Ok ss" "DeriveSession cr (PSK (srv_cfg srv)) salt ss True = Ok s"
  shows "\<exists>k p. handshake_alloc cr rand hello salt srv =
    (Ok (new_client s (uint32ToIP k) (hello_name hello), make_welcome srv ss (uint32ToIP k)),
     srv\<lparr>srv_pool := p\<rparr>)"
proof -
  have "pool_used (srv_pool srv) \<noteq> pool_avail (srv_pool srv)"
    using assms(2) by (simp add: inj_image_eq_iff inj_def)
  then obtain ip p where ip: "Allocate (srv_pool srv) = (Ok ip, p)"
    using pool.alloc_succeeds_iff [OF assms(1)] by (metis is_Ok_conv prod.collapse)
  then obtain k where "ip = uint32ToIP k" using pool.alloc_Ok [OF assms(1) ip] by blast
  with ip assms(3,4) show ?thesis
    by (intro exI [of _ k] exI [of _ p]) (simp add: handshake_alloc_Ok)
qed

section \<open>Lemmas: loop bodies\<close>

lemma enqueue_simps [simp]:
  "c_session (enqueue f c) = c_session c" "c_ip (enqueue f c) = c_ip c"
  "c_ipKey (enqueue f c) = c_ipKey c" "c_closed (enqueue f c) = c_closed c" "c_name (enqueue f c) = c_name c"
  by (simp_all add: enqueue_def)

lemma enqueue_bound: "length (c_send c) \<le> sendCap \<Longrightarrow> length (c_send (enqueue f c)) \<le> sendCap"
  by (simp add: enqueue_def)

fun loop_state :: "'a loop \<Rightarrow> 'a" where
  "loop_state (Continue a) = a"
| "loop_state (Return a) = a"

text \<open>Which fields of a client object the loops leave alone.\<close>

definition same_client :: "tclient \<Rightarrow> tclient \<Rightarrow> bool" where
  "same_client c d \<longleftrightarrow> c_ip c = c_ip d \<and> c_ipKey c = c_ipKey d \<and> c_name c = c_name d"

lemma tun_deliver_same: "same_client (tun_deliver cr pkt pr c) c"
  by (auto simp: tun_deliver_def same_client_def Let_def split: prod.splits)

lemma read_step_same: "same_client (loop_state (fst (read_step cr c msg))) c"
  by (auto simp: read_step_def same_client_def Let_def split: result.splits ws_message.splits prod.splits)

lemma write_step_same: "same_client (loop_state (fst (write_step c e))) c"
  by (auto simp: write_step_def same_client_def client_close_def
      split: write_event.splits list.splits option.splits)

lemma read_step_forwards:
  "snd (read_step cr c msg) = Some pkt \<longleftrightarrow>
     (\<exists>data. msg = Ok (BinaryMessage data) \<and> fst (Open cr (c_session c) data) = Ok pkt) \<and>
     20 \<le> length pkt \<and> ip_version pkt = 4 \<and> ip_src pkt = c_ipKey c"
  by (auto simp: read_step_def Let_def split: result.splits ws_message.splits prod.splits)

section \<open>Runs of handshakes\<close>

text \<open>
  The authentication part of successive handshakes, whatever their outcome: the time of
  the skew check, the time of the replay check and the first message of each.
\<close>

fun auth_run :: "server \<Rightarrow> (int \<times> int \<times> ws_message result) list \<Rightarrow> server" where
  "auth_run srv [] = srv"
| "auth_run srv ((t, t', msg) # xs) = auth_run (snd (handshake_auth t t' msg srv)) xs"

text \<open>The calls of the replay guard in such a run.\<close>

fun auth_observed :: "server_config \<Rightarrow> (int \<times> int \<times> ws_message result) list \<Rightarrow> (int \<times> string \<times> int) list" where
  "auth_observed cfg [] = []"
| "auth_observed cfg ((t, t', msg) # xs) =
     (case check_hello cfg t msg of
        Ok (h, salt) \<Rightarrow> (t', hello_salt h, hello_ts h) # auth_observed cfg xs
      | _ \<Rightarrow> auth_observed cfg xs)"

lemma handshake_auth_replay:
  "srv_replay (snd (handshake_auth t t' msg srv)) =
     obs_all guard_obs (srv_replay srv) (auth_observed (srv_cfg srv) [(t, t', msg)])"
  "srv_cfg (snd (handshake_auth t t' msg srv)) = srv_cfg srv"
  by (auto simp: handshake_auth_def guard_obs_def Let_def split: result.splits prod.splits)

lemma obs_all_append: "obs_all obs g (xs @ ys) = obs_all obs (obs_all obs g xs) ys"
  by (induction xs arbitrary: g) auto

lemma auth_observed_Cons: "auth_observed cfg (x # xs) = auth_observed cfg [x] @ auth_observed cfg xs"
  by (cases x) (auto split: result.splits)

lemma auth_run_cfg [simp]: "srv_cfg (auth_run srv xs) = srv_cfg srv"
  by (induction srv xs rule: auth_run.induct) (auto simp: handshake_auth_replay)

lemma auth_run_replay:
  "srv_replay (auth_run srv xs) = obs_all guard_obs (srv_replay srv) (auth_observed (srv_cfg srv) xs)"
proof (induction srv xs rule: auth_run.induct)
  case (2 srv t t' msg xs)
  then show ?case
    by (subst auth_observed_Cons) (simp add: handshake_auth_replay obs_all_append)
qed simp

lemma auth_observed_times:
  "\<forall>x \<in> set xs. fst (snd x) \<le> b \<Longrightarrow> \<forall>y \<in> set (auth_observed cfg xs). fst y \<le> b"
proof (induction xs)
  case (Cons x xs)
  then show ?case by (cases x) (auto split: result.splits)
qed simp

text \<open>A hello that passes the checks at two moments: they are at most twice the window apart.\<close>

lemma accepted_window:
  assumes "check_hello cfg t msg = Ok (h, salt)" "check_hello cfg s msg2 = Ok (h2, salt2)"
    and "hello_ts h2 = hello_ts h" "0 \<le> unix t" "unix t < 2 ^ 62" "0 \<le> unix s" "unix s < 2 ^ 62"
  shows "unix s \<le> unix t + 2 * AuthWindow"
proof -
  have "in_int64 (hello_ts h)" using assms(1) by (rule check_hello_ts)
  moreover have "\<not> stale t (hello_ts h)" "\<not> stale s (hello_ts h)"
    using assms(1-3) by (auto simp: check_hello_Ok good_hello_def)
  ultimately show ?thesis using assms(4-7) by (simp add: stale_iff abs_if split: if_splits)
qed

section \<open>A concrete server\<close>

definition demo_cfg :: server_config where
  "demo_cfg = (env_config blank_host)\<lparr>PSK := replicate PSKLen 7\<rparr>"

definition demo_server :: server where
  "demo_server =
     \<lparr>srv_cfg = demo_cfg, srv_pool = default_pool, srv_replay = newReplayGuard,
      srv_clients = Map.empty, srv_heap = Map.empty\<rparr>"

definition demo_now :: int where "demo_now = 1700000000 * second"

definition demo_hello :: "byte \<Rightarrow> hello_msg" where
  "demo_hello b = honest_hello (PSK demo_cfg) (replicate SaltLen b) (unix demo_now) ''demo''"

lemma demo_clock [simp]: "unix demo_now = 1700000000" "unix (demo_now + second) = 1700000001"
  using unix_add_seconds [of demo_now 1] by (simp_all add: demo_now_def unix_def second_def)

lemma demo_not_stale: "t = demo_now \<or> t = demo_now + second \<Longrightarrow> \<not> stale t 1700000000"
  by (auto simp: stale_iff in_int64_def AuthWindow_def)

lemma demo_auth:
  assumes "srv_cfg srv = demo_cfg" "t = demo_now \<or> t = demo_now + second"
    and "fst (observe (srv_replay srv) t (EncodeToString StdEncoding (replicate SaltLen b)) 1700000000)"
  shows "\<exists>srv'. handshake_auth t t (hello_frame (demo_hello b)) srv = (Ok (demo_hello b, replicate SaltLen b), srv')"
  using honest_auth [of "replicate SaltLen b" 1700000000 t "''demo''" srv "PSK demo_cfg" t] demo_not_stale assms
  by (simp add: demo_hello_def in_int64_def ascii_utf8)

lemma demo_first:
  "\<exists>srv'. handshake_auth demo_now demo_now (hello_frame (demo_hello b)) demo_server =
     (Ok (demo_hello b, replicate SaltLen b), srv')"
  by (rule demo_auth) (simp_all add: demo_server_def observe_fresh_iff newReplayGuard_def sweep_def)

lemma demo_alloc:
  assumes "srv_pool srv = default_pool"
  shows "\<exists>k p s. handshake_alloc toy_crypto (\<lambda>n. Ok (replicate n 9)) h salt srv =
      (Ok (new_client s (uint32ToIP k) (hello_name h), make_welcome srv (replicate SaltLen 9) (uint32ToIP k)),
       srv\<lparr>srv_pool := p\<rparr>) \<and>
    DeriveSession toy_crypto (PSK (srv_cfg srv)) salt (replicate SaltLen 9) True = Ok s"
proof -
  obtain s where s: "DeriveSession toy_crypto (PSK (srv_cfg srv)) salt (replicate SaltLen 9) True = Ok s"
    using toy_derive by blast
  from handshake_alloc_possible [OF _ _ _ s, of "\<lambda>n. Ok (replicate n 9)" h] assms s show ?thesis
    by auto
qed

section \<open>Properties\<close>

text \<open>C6: a hello opens at most one session. After a hello with salt text and timestamp has
  been accepted, and whatever handshakes come after it, no message with the same salt text
  and timestamp is accepted again, provided that the server's clock does not go back and
  that fewer than five seconds pass between the two times one handshake reads it.\<close>

theorem hello_accepted_once:
  assumes "guard_wf (srv_replay srv)"
    and "handshake_auth t t' msg srv = (Ok (h, salt), srv1)"
    and "\<forall>x \<in> set xs. fst (snd x) \<le> s'"
    and "handshake_auth s s' msg2 (auth_run srv1 xs) = (Ok (h2, salt2), srv2)"
    and "t \<le> t'" "unix s' < unix s + 5" "0 \<le> unix t" "unix t < 2 ^ 62" "0 \<le> unix s" "unix s < 2 ^ 62"
  shows "(hello_salt h2, hello_ts h2) \<noteq> (hello_salt h, hello_ts h)"
proof
  let ?k = "(hello_salt h, hello_ts h)" and ?g = "srv_replay srv"
  assume same: "(hello_salt h2, hello_ts h2) = ?k"
  have first: "check_hello (srv_cfg srv) t msg = Ok (h, salt)" "fst (guard_obs ?g t' ?k)"
    "srv_replay srv1 = snd (guard_obs ?g t' ?k)" "srv_cfg srv1 = srv_cfg srv"
    using assms(2) by (auto simp: handshake_auth_Ok guard_obs_def)
  have second: "check_hello (srv_cfg srv) s msg2 = Ok (h2, salt2)"
    "fst (guard_obs (obs_all guard_obs (snd (guard_obs ?g t' ?k)) (auth_observed (srv_cfg srv) xs)) s' ?k)"
    using assms(4) same first(3,4) by (auto simp: handshake_auth_Ok guard_obs_def auth_run_replay)
  have "unix s \<le> unix t + 2 * AuthWindow"
    using accepted_window [OF first(1) second(1) _ assms(7-10)] same by simp
  then have "guard_within t' s'"
    using assms(5,6) unix_mono [OF assms(5)] by (simp add: guard_within_def)
  from guard.accepted_once [OF assms(1) first(2) auth_observed_times [OF assms(3)] this] second(2)
  show False by blast
qed

theorem hello_accepted_once_witness:
  "(hello_salt (demo_hello 2), hello_ts (demo_hello 2)) \<noteq> (hello_salt (demo_hello 1), hello_ts (demo_hello 1))"
proof -
  obtain srv1 where first: "handshake_auth demo_now demo_now (hello_frame (demo_hello 1)) demo_server =
      (Ok (demo_hello 1, replicate SaltLen 1), srv1)" using demo_first by blast
  have cfg: "srv_cfg srv1 = demo_cfg"
    using first handshake_auth_replay(2) [of demo_now demo_now "hello_frame (demo_hello 1)" demo_server]
    by (simp add: demo_server_def)
  have "srv_replay srv1 = snd (observe newReplayGuard demo_now
      (EncodeToString StdEncoding (replicate SaltLen 1)) 1700000000)"
    using first by (auto simp: handshake_auth_Ok demo_hello_def honest_hello_def demo_server_def)
  moreover have "EncodeToString StdEncoding (replicate SaltLen 2) \<noteq> EncodeToString StdEncoding (replicate SaltLen 1)"
    by (simp add: b64.enc_inj SaltLen_def)
  ultimately have "fst (observe (srv_replay srv1) (demo_now + second)
      (EncodeToString StdEncoding (replicate SaltLen 2)) 1700000000)"
    by (simp add: observe_fresh_iff sweep_None observe_seen replay_key_inj)
      (simp add: newReplayGuard_def sweep_def)
  from demo_auth [OF cfg _ this] obtain srv2
    where second: "handshake_auth (demo_now + second) (demo_now + second) (hello_frame (demo_hello 2)) (auth_run srv1 [])
      = (Ok (demo_hello 2, replicate SaltLen 2), srv2)" by auto
  show ?thesis
    by (rule hello_accepted_once [OF _ first _ second])
      (simp_all add: demo_server_def guard_wf_def newReplayGuard_def)
qed

text \<open>C38: the replay guard compares the spelling of the salt, not the salt. A server that
  has just accepted a hello accepts the same hello again, with the same salt, timestamp and
  authenticator, when a newline is added to the salt's base64 text.\<close>

theorem hello_respelled_accepted:
  assumes "srv_replay srv = newReplayGuard"
    and "handshake_auth t t' (Ok (TextMessage (Some doc))) srv = (Ok (h', salt), srv1)"
    and "utf8 (hello_salt h')" "utf8 (hello_name h')"
  shows "fst (handshake_auth t t'
      (Ok (TextMessage (Some (marshal_hello (h'\<lparr>hello_salt := hello_salt h' @ [LF]\<rparr>))))) srv1) =
    Ok (h'\<lparr>hello_salt := hello_salt h' @ [LF]\<rparr>, salt)"
proof -
  let ?h = "h'\<lparr>hello_salt := hello_salt h' @ [LF]\<rparr>"
  from assms(2) have ok: "check_hello (srv_cfg srv) t (Ok (TextMessage (Some doc))) = Ok (h', salt)"
    and srv1: "srv1 = srv\<lparr>srv_replay := snd (observe newReplayGuard t' (hello_salt h') (hello_ts h'))\<rparr>"
    using assms(1) by (auto simp: handshake_auth_Ok)
  from ok have good: "good_hello (srv_cfg srv) t ?h salt"
    by (simp add: check_hello_Ok good_hello_def DecodeString_def is_newline_def)
  have "in_int64 (hello_ts h')" "in_int64 Version"
    using check_hello_ts [OF ok] by (simp_all add: Version_def in_int64_def)
  moreover have "hello_text ?h = ?h"
    using good assms(3,4) utf8_append [of "hello_salt h'" "[LF]"]
    by (intro hello_text_id) (simp_all add: good_hello_def ascii_utf8)
  ultimately have "unmarshal_hello (marshal_hello ?h) = Some ?h"
    using good unmarshal_marshal_hello [of ?h] by (simp add: good_hello_def)
  with good have c: "check_hello (srv_cfg srv1) t (Ok (TextMessage (Some (marshal_hello ?h)))) = Ok (?h, salt)"
    by (simp add: check_hello_Ok srv1)
  have "fst (observe (srv_replay srv1) t' (hello_salt ?h) (hello_ts ?h))"
    by (simp add: srv1 observe_fresh_iff sweep_None observe_seen replay_key_inj)
      (simp add: newReplayGuard_def sweep_def)
  with c show ?thesis by (simp add: handshake_auth_def Let_def case_prod_beta)
qed

theorem hello_respelled_accepted_witness:
  "\<exists>srv1. fst (handshake_auth demo_now demo_now
      (hello_frame ((demo_hello 1)\<lparr>hello_salt := hello_salt (demo_hello 1) @ [LF]\<rparr>)) srv1) =
    Ok ((demo_hello 1)\<lparr>hello_salt := hello_salt (demo_hello 1) @ [LF]\<rparr>, replicate SaltLen 1)"
proof -
  obtain srv1 where "handshake_auth demo_now demo_now (hello_frame (demo_hello 1)) demo_server =
      (Ok (demo_hello 1, replicate SaltLen 1), srv1)" using demo_first by blast
  from hello_respelled_accepted [OF _ this] show ?thesis
    by (auto simp: demo_server_def demo_hello_def honest_hello_def ascii_utf8)
qed

text \<open>C14: a handshake takes an address exactly when it succeeds. On success the new client
  has a tunnel address that was free and is now assigned; on an error, the welcome that
  could not be written included, the assigned addresses are as before. The table of clients
  is untouched either way.\<close>

theorem handshake_address:
  assumes "pool_wf (srv_pool srv)" "handshake cr rand now now' msg write srv = (r, srv')"
    and "\<And>w e. write w \<noteq> Panic e"
  shows "pool_wf (srv_pool srv') \<and> srv_clients srv' = srv_clients srv \<and>
    (case r of
       Ok c \<Rightarrow> c_ip c = uint32ToIP (c_ipKey c) \<and> c_ipKey c \<in> usable (srv_pool srv) \<and>
               c_ipKey c \<notin> pool_assigned (srv_pool srv) \<and>
               pool_assigned (srv_pool srv') = insert (c_ipKey c) (pool_assigned (srv_pool srv))
     | _ \<Rightarrow> pool_assigned (srv_pool srv') = pool_assigned (srv_pool srv))"
proof -
  obtain a srv1 where a: "handshake_auth now now' msg srv = (a, srv1)" by fastforce
  then obtain g where srv1: "srv1 = srv\<lparr>srv_replay := g\<rparr>" using handshake_auth_frame by blast
  show ?thesis
  proof (cases a)
    case (Ok hs)
    obtain h salt where hs: "hs = (h, salt)" by fastforce
    obtain b srv2 where b: "handshake_alloc cr rand h salt srv1 = (b, srv2)" by fastforce
    have wf: "pool_wf (srv_pool srv1)" using assms(1) srv1 by simp
    show ?thesis
    proof (cases b)
      case (Ok cw)
      obtain c w where cw: "cw = (c, w)" by fastforce
      from b Ok cw obtain s ip p where p: "Allocate (srv_pool srv) = (Ok ip, p)"
        and c: "c = new_client s ip (hello_name h)" and srv2: "srv2 = srv1\<lparr>srv_pool := p\<rparr>"
        using srv1 by (auto simp: handshake_alloc_Ok)
      from p obtain k where k: "ip = uint32ToIP k" "k \<in> usable (srv_pool srv)"
        "k \<notin> pool_assigned (srv_pool srv)" "pool_wf p"
        "pool_assigned p = insert k (pool_assigned (srv_pool srv))"
        using pool.alloc_Ok [OF assms(1) p] by (auto simp: Allocate_def image_iff split: result.splits)
      have c': "c_ip c = uint32ToIP k" "c_ipKey c = k" using c k(1) by (simp_all add: new_client_def)
      have "handshake_finish (write w) c srv2 = (r, srv')"
        using assms(2) a \<open>a = Ok hs\<close> hs b Ok cw by (simp add: handshake_def)
      then show ?thesis
        using k c' srv1 srv2 assms(3) pool.release_after_alloc [OF assms(1) p]
        by (auto simp: handshake_finish_def split: result.splits)
    qed (use assms a Ok hs b srv1 handshake_alloc_fails [OF wf b] in \<open>auto simp: handshake_def\<close>)
  qed (use assms a srv1 in \<open>auto simp: handshake_def\<close>)
qed

theorem handshake_address_witness:
  "\<exists>c srv'. handshake toy_crypto (\<lambda>n. Ok (replicate n 9)) demo_now demo_now (hello_frame (demo_hello 1))
      (\<lambda>_. Ok ()) demo_server = (Ok c, srv') \<and>
    c_ipKey c \<in> usable default_pool \<and> pool_assigned (srv_pool srv') = {c_ipKey c}"
proof -
  let ?run = "handshake toy_crypto (\<lambda>n. Ok (replicate n 9)) demo_now demo_now (hello_frame (demo_hello 1))
      (\<lambda>_. Ok ()) demo_server"
  obtain srv1 where auth: "handshake_auth demo_now demo_now (hello_frame (demo_hello 1)) demo_server =
      (Ok (demo_hello 1, replicate SaltLen 1), srv1)" using demo_first by blast
  then obtain g where srv1: "srv1 = demo_server\<lparr>srv_replay := g\<rparr>" using handshake_auth_frame by blast
  have "srv_pool srv1 = default_pool" using srv1 by (simp add: demo_server_def)
  from demo_alloc [OF this, of "demo_hello 1" "replicate SaltLen 1"]
  obtain c w srv2 where "handshake_alloc toy_crypto (\<lambda>n. Ok (replicate n 9)) (demo_hello 1) (replicate SaltLen 1) srv1 =
      (Ok (c, w), srv2)" by blast
  with auth have run: "?run = (Ok c, srv2)" by (simp add: handshake_def handshake_finish_def)
  from handshake_address [OF _ run] show ?thesis
    using run by (auto simp: demo_server_def)
qed

text \<open>C34: a frame always fits the read limit. A sealed packet of at most the configured MTU,
  whatever padding is drawn, is within the limit the server puts on an inbound message.\<close>

theorem frame_within_limit:
  assumes "aead_expands cr" "int (length pkt) \<le> MTU cfg" "MTU cfg < 2 ^ 62"
  shows "int (length (fst (Seal cr s pkt b0 b1 fill))) \<le> maxFrameBytes cfg"
proof -
  have "in_int64 (MTU cfg + int MaxPad + 1024)"
    using assms(2,3) by (simp add: in_int64_def MaxPad_def)
  then show ?thesis
    using assms(2) length_randPad [of b0 b1 fill]
    by (simp add: maxFrameBytes_def wrap64_id Seal_def length_sealRaw [OF assms(1)] padHeaderLen_def
        Overhead_def MaxPad_def)
qed

theorem frame_within_limit_witness:
  "int (length (fst (Seal toy_crypto (toy_session True) (replicate 1400 0) 1 255 (\<lambda>n. replicate n 3))))
    \<le> maxFrameBytes demo_cfg"
  by (rule frame_within_limit) (simp_all add: demo_cfg_def env_config_def envInt_def DefaultMTU_def blank_host_def)

end
