(* ===== verification/ServerMachine.thy ===== *)
theory ServerMachine
  imports Server
begin

text \<open>
  The server as a state machine: any number of connections, each in a phase of
  \<open>handleTunnel\<close>, and the TUN reader, interleaved at the granularity of the critical
  sections of the code. The invariant ties the phases, the table of clients and the pool
  together.
\<close>

section \<open>Steps\<close>

datatype phase =
    Fresh
  | Authed hello_msg bytes
  | Welcoming tclient
  | Ready
  | Serving
  | Leaving
  | Unmapped
  | Released
  | Gone

text \<open>
  \<open>m_tun\<close> is what the TUN reader holds between its lookup and the delivery: the packet and
  the client object found.
\<close>

record sys =
  m_srv :: server
  m_phase :: "nat \<Rightarrow> phase"
  m_tun :: "(bytes \<times> nat) option"

definition at_phase :: "nat \<Rightarrow> phase \<Rightarrow> server \<Rightarrow> sys \<Rightarrow> sys" where
  "at_phase i ph srv m = m\<lparr>m_srv := srv, m_phase := (m_phase m)(i := ph)\<rparr>"

lemma at_phase_simps [simp]:
  "m_srv (at_phase i ph srv m) = srv" "m_phase (at_phase i ph srv m) = (m_phase m)(i := ph)"
  "m_tun (at_phase i ph srv m) = m_tun m"
  by (simp_all add: at_phase_def)

definition put_client :: "nat \<Rightarrow> tclient \<Rightarrow> server \<Rightarrow> server" where
  "put_client i c srv = srv\<lparr>srv_heap := (srv_heap srv)(i \<mapsto> c)\<rparr>"

text \<open>
  \<open>tunReadLoop\<close> without interruption, on what \<open>Read\<close> gives into a buffer of \<open>n\<close> bytes: a packet,
  cut to the buffer, with the padding drawn for it, or the error that ends the loop.
\<close>

fun tun_loop :: "crypto \<Rightarrow> nat \<Rightarrow> server \<Rightarrow> (bytes \<times> pad_rand) result list \<Rightarrow> server loop" where
  "tun_loop cr n srv [] = Continue srv"
| "tun_loop cr n srv (Ok (raw, pr) # rs) =
     (let pkt = take n raw
      in case tun_route srv pkt of
           None \<Rightarrow> tun_loop cr n srv rs
         | Some i \<Rightarrow>
             (case srv_heap srv i of
                Some c \<Rightarrow> tun_loop cr n (put_client i (tun_deliver cr pkt pr c) srv) rs
              | None \<Rightarrow> tun_loop cr n srv rs))"
| "tun_loop cr n srv (_ # rs) = Return srv"

definition tunReadLoop :: "crypto \<Rightarrow> server \<Rightarrow> (bytes \<times> pad_rand) result list \<Rightarrow> server loop result" where
  "tunReadLoop cr srv reads = bind_result (tun_buffer (srv_cfg srv)) (\<lambda>n. Ok (tun_loop cr n srv reads))"

inductive sys_step :: "crypto \<Rightarrow> sys \<Rightarrow> sys \<Rightarrow> bool" for cr where
  auth_ok: "m_phase m i = Fresh \<Longrightarrow> handshake_auth t t' msg (m_srv m) = (Ok (h, salt), srv) \<Longrightarrow>
    sys_step cr m (at_phase i (Authed h salt) srv m)"
| auth_fail: "m_phase m i = Fresh \<Longrightarrow> handshake_auth t t' msg (m_srv m) = (r, srv) \<Longrightarrow> \<not> is_Ok r \<Longrightarrow>
    sys_step cr m (at_phase i Gone srv m)"
| alloc_ok: "m_phase m i = Authed h salt \<Longrightarrow>
    handshake_alloc cr rand h salt (m_srv m) = (Ok (c, w), srv) \<Longrightarrow>
    sys_step cr m (at_phase i (Welcoming c) srv m)"
| alloc_fail: "m_phase m i = Authed h salt \<Longrightarrow>
    handshake_alloc cr rand h salt (m_srv m) = (r, srv) \<Longrightarrow> \<not> is_Ok r \<Longrightarrow>
    sys_step cr m (at_phase i Gone srv m)"
| welcome_ok: "m_phase m i = Welcoming c \<Longrightarrow>
    handshake_finish (Ok ()) c (m_srv m) = (Ok c', srv) \<Longrightarrow>
    sys_step cr m (at_phase i Ready (put_client i c' srv) m)"
| welcome_fail: "m_phase m i = Welcoming c \<Longrightarrow>
    handshake_finish (Err e) c (m_srv m) = (r, srv) \<Longrightarrow>
    sys_step cr m (at_phase i Gone srv m)"
| reg: "m_phase m i = Ready \<Longrightarrow> srv_heap (m_srv m) i = Some c \<Longrightarrow>
    sys_step cr m (at_phase i Serving (register i c (m_srv m)) m)"
| read: "m_phase m i = Serving \<Longrightarrow> srv_heap (m_srv m) i = Some c \<Longrightarrow>
    read_step cr c msg = (Continue c', out) \<Longrightarrow>
    sys_step cr m (at_phase i Serving (put_client i c' (m_srv m)) m)"
| read_end: "m_phase m i = Serving \<Longrightarrow> srv_heap (m_srv m) i = Some c \<Longrightarrow>
    read_step cr c msg = (Return c', out) \<Longrightarrow>
    sys_step cr m (at_phase i Leaving (put_client i c' (m_srv m)) m)"
| writer: "m_phase m i \<in> {Serving, Leaving, Unmapped, Released, Gone} \<Longrightarrow>
    srv_heap (m_srv m) i = Some c \<Longrightarrow> write_step c e = (l, out) \<Longrightarrow>
    sys_step cr m (at_phase i (m_phase m i) (put_client i (loop_state l) (m_srv m)) m)"
| route: "m_tun m = None \<Longrightarrow> tun_route (m_srv m) pkt = Some i \<Longrightarrow>
    sys_step cr m (m\<lparr>m_tun := Some (pkt, i)\<rparr>)"
| deliver: "m_tun m = Some (pkt, i) \<Longrightarrow> srv_heap (m_srv m) i = Some c \<Longrightarrow>
    sys_step cr m
      (at_phase i (m_phase m i) (put_client i (tun_deliver cr pkt pr c) (m_srv m)) m\<lparr>m_tun := None\<rparr>)"
| dereg_unmap: "m_phase m i = Leaving \<Longrightarrow> srv_heap (m_srv m) i = Some c \<Longrightarrow>
    sys_step cr m (at_phase i Unmapped (unmap i c (m_srv m)) m)"
| dereg_release: "m_phase m i = Unmapped \<Longrightarrow> srv_heap (m_srv m) i = Some c \<Longrightarrow>
    sys_step cr m (at_phase i Released (give_back c (m_srv m)) m)"
| dereg_close: "m_phase m i = Released \<Longrightarrow>
    sys_step cr m (at_phase i Gone (close_at i (m_srv m)) m)"

text \<open>A server as \<open>New\<close> leaves it: nobody connected, a usable pool with nothing assigned.\<close>

definition sys_init :: "sys \<Rightarrow> bool" where
  "sys_init m \<longleftrightarrow>
     pool_wf (srv_pool (m_srv m)) \<and> pool_assigned (srv_pool (m_srv m)) = {} \<and>
     srv_clients (m_srv m) = Map.empty \<and> srv_heap (m_srv m) = Map.empty \<and>
     srv_replay (m_srv m) = newReplayGuard \<and>
     m_phase m = (\<lambda>i. Fresh) \<and> m_tun m = None"

section \<open>Exclusive maps\<close>

text \<open>A map that gives every value to at most one key.\<close>

definition exclusive :: "('k \<rightharpoonup> 'v) \<Rightarrow> bool" where
  "exclusive f \<longleftrightarrow> (\<forall>i j a. f i = Some a \<longrightarrow> f j = Some a \<longrightarrow> i = j)"

lemma exclusive_acquire: "exclusive f \<Longrightarrow> a \<notin> ran f \<Longrightarrow> exclusive (f(i \<mapsto> a))"
  by (auto simp: exclusive_def ran_def)

lemma exclusive_drop: "exclusive f \<Longrightarrow> exclusive (f(i := None))"
  by (auto simp: exclusive_def)

lemma ran_drop: "exclusive f \<Longrightarrow> f i = Some a \<Longrightarrow> ran (f(i := None)) = ran f - {a}"
  unfolding exclusive_def ran_def by (auto; metis option.inject)

section \<open>Who holds an address\<close>

definition held :: "phase \<Rightarrow> tclient option \<Rightarrow> u32 option" where
  "held ph c =
     (case ph of
        Welcoming d \<Rightarrow> Some (c_ipKey d)
      | Ready \<Rightarrow> map_option c_ipKey c
      | Serving \<Rightarrow> map_option c_ipKey c
      | Leaving \<Rightarrow> map_option c_ipKey c
      | Unmapped \<Rightarrow> map_option c_ipKey c
      | _ \<Rightarrow> None)"

definition holds :: "sys \<Rightarrow> nat \<rightharpoonup> u32" where
  "holds m i = held (m_phase m i) (srv_heap (m_srv m) i)"

text \<open>A client object as \<open>new_client\<close> makes it and the loops keep it.\<close>

definition client_ok :: "tclient \<Rightarrow> bool" where
  "client_ok c \<longleftrightarrow> c_ip c = uint32ToIP (c_ipKey c) \<and> length (c_send c) \<le> sendCap"

fun early :: "phase \<Rightarrow> bool" where
  "early Fresh = True"
| "early (Authed _ _) = True"
| "early (Welcoming _) = True"
| "early _ = False"

text \<open>The client object of a connection exists from the end of its handshake on.\<close>

definition conn_ok :: "phase \<Rightarrow> tclient option \<Rightarrow> bool" where
  "conn_ok ph c \<longleftrightarrow>
     (\<forall>d. ph = Welcoming d \<longrightarrow> client_ok d) \<and> (\<forall>d. c = Some d \<longrightarrow> client_ok d) \<and>
     (ph \<in> {Ready, Serving, Leaving, Unmapped, Released} \<longrightarrow> c \<noteq> None) \<and> (early ph \<longrightarrow> c = None)"

definition sys_inv :: "sys \<Rightarrow> bool" where
  "sys_inv m \<longleftrightarrow>
     pool_wf (srv_pool (m_srv m)) \<and>
     pool_assigned (srv_pool (m_srv m)) = ran (holds m) \<and>
     exclusive (holds m) \<and>
     (\<forall>i. conn_ok (m_phase m i) (srv_heap (m_srv m) i)) \<and>
     (\<forall>a i. srv_clients (m_srv m) a = Some i \<longleftrightarrow>
        m_phase m i \<in> {Serving, Leaving} \<and> holds m i = Some a)"

section \<open>Preservation\<close>

lemma holds_at_phase:
  assumes "\<And>j. j \<noteq> i \<Longrightarrow> srv_heap srv j = srv_heap (m_srv m) j"
  shows "holds (at_phase i ph srv m) = (holds m)(i := held ph (srv_heap srv i))"
  using assms by (auto simp: fun_eq_iff holds_def at_phase_def)

text \<open>
  The general preservation rule: a step of connection \<open>i\<close> that leaves the other
  connections' objects alone keeps the invariant if pool and table follow.
\<close>

lemma inv_at_phase:
  assumes inv: "sys_inv m" and others: "\<And>j. j \<noteq> i \<Longrightarrow> srv_heap srv j = srv_heap (m_srv m) j"
    and new: "new = held ph (srv_heap srv i)"
    and "conn_ok ph (srv_heap srv i)" "pool_wf (srv_pool srv)"
    and "pool_assigned (srv_pool srv) = ran ((holds m)(i := new))" "exclusive ((holds m)(i := new))"
    and "\<And>a. srv_clients srv a = Some i \<longleftrightarrow> ph \<in> {Serving, Leaving} \<and> new = Some a"
    and "\<And>a j. j \<noteq> i \<Longrightarrow> srv_clients srv a = Some j \<longleftrightarrow> srv_clients (m_srv m) a = Some j"
  shows "sys_inv (at_phase i ph srv m)"
proof -
  have h: "holds (at_phase i ph srv m) = (holds m)(i := new)"
    using holds_at_phase [OF others] new by simp
  have "conn_ok (((m_phase m)(i := ph)) j) (srv_heap srv j)" for j
    using assms(4) others [of j] inv by (cases "j = i") (simp_all add: sys_inv_def)
  moreover have "srv_clients srv a = Some j \<longleftrightarrow>
      ((m_phase m)(i := ph)) j \<in> {Serving, Leaving} \<and> ((holds m)(i := new)) j = Some a" for a j
    using assms(8) [of a] assms(9) [of j a] inv by (cases "j = i") (simp_all add: sys_inv_def)
  ultimately show ?thesis
    using assms(5-7) by (simp add: sys_inv_def h)
qed

text \<open>A step that keeps what connection \<open>i\<close> holds and leaves pool and table alone.\<close>

lemma inv_quiet:
  assumes inv: "sys_inv m" and others: "\<And>j. j \<noteq> i \<Longrightarrow> srv_heap srv j = srv_heap (m_srv m) j"
    and held: "held ph (srv_heap srv i) = holds m i"
    and ok: "conn_ok ph (srv_heap srv i)" and same: "srv_pool srv = srv_pool (m_srv m)"
      "srv_clients srv = srv_clients (m_srv m)"
    and table: "ph \<in> {Serving, Leaving} \<longleftrightarrow> m_phase m i \<in> {Serving, Leaving}"
  shows "sys_inv (at_phase i ph srv m)"
proof (rule inv_at_phase [OF inv others held [symmetric] ok])
qed (use inv table same in \<open>auto simp: sys_inv_def\<close>)

lemma inv_tun: "sys_inv (m\<lparr>m_tun := x\<rparr>) = sys_inv m"
  by (simp add: sys_inv_def holds_def [abs_def])

lemma sys_invD:
  assumes "sys_inv m"
  shows "pool_wf (srv_pool (m_srv m))" "pool_assigned (srv_pool (m_srv m)) = ran (holds m)"
    "exclusive (holds m)"
  using assms by (simp_all add: sys_inv_def)

lemma inv_conn: "sys_inv m \<Longrightarrow> conn_ok (m_phase m i) (srv_heap (m_srv m) i)"
  by (simp add: sys_inv_def)

lemma inv_client: "sys_inv m \<Longrightarrow> srv_heap (m_srv m) i = Some c \<Longrightarrow> client_ok c"
  using inv_conn [of m i] by (simp add: conn_ok_def)

lemma put_client_simps [simp]:
  "srv_heap (put_client i c srv) = (srv_heap srv)(i \<mapsto> c)" "srv_pool (put_client i c srv) = srv_pool srv"
  "srv_clients (put_client i c srv) = srv_clients srv"
  by (simp_all add: put_client_def)

text \<open>A loop body keeps a client's identity and the bound on its channel.\<close>

lemma loop_client_ok:
  assumes "client_ok c"
  shows "client_ok (loop_state (fst (read_step cr c msg)))" "client_ok (loop_state (fst (write_step c e)))"
    "client_ok (tun_deliver cr pkt pr c)"
  using assms
  by (auto simp: client_ok_def read_step_def write_step_def tun_deliver_def Let_def client_close_def
      enqueue_bound
      split: result.splits ws_message.splits prod.splits write_event.splits list.splits option.splits)

lemma inv_update_client:
  assumes "sys_inv m" "srv_heap (m_srv m) i = Some c" "same_client c' c" "client_ok c'"
    and "ph = m_phase m i \<or> m_phase m i = Serving \<and> ph = Leaving"
  shows "sys_inv (at_phase i ph (put_client i c' (m_srv m)) m)"
  using assms inv_conn [OF assms(1), of i]
  by (intro inv_quiet)
    (auto simp: holds_def held_def same_client_def conn_ok_def split: phase.splits)

lemma inv_release:
  assumes inv: "sys_inv m" and i: "holds m i = Some (c_ipKey c)" and c: "client_ok c"
    and ph: "held ph (srv_heap (m_srv m) i) = None" "conn_ok ph (srv_heap (m_srv m) i)"
      "ph \<notin> {Serving, Leaving}" "m_phase m i \<notin> {Serving, Leaving}"
  shows "sys_inv (at_phase i ph (give_back c (m_srv m)) m)"
proof -
  let ?p = "srv_pool (m_srv m)"
  have wf: "pool_wf ?p" and asg: "pool_assigned ?p = ran (holds m)" and ex: "exclusive (holds m)"
    using inv by (simp_all add: sys_inv_def)
  have rel: "Release (c_ip c) ?p = ?p\<lparr>pool_assigned := pool_assigned ?p - {c_ipKey c}\<rparr>"
    using c by (simp add: client_ok_def)
  have wf': "pool_wf (Release (c_ip c) ?p)"
    using wf by (auto simp: rel pool_wf_def)
  show ?thesis
    using inv wf' ph i
    by (intro inv_at_phase [where new = None])
      (auto simp: give_back_def rel asg ran_drop [OF ex i] exclusive_drop [OF ex] sys_inv_def)
qed

lemma inv_alloc:
  assumes inv: "sys_inv m" and ph: "m_phase m i = Authed h salt"
    and a: "handshake_alloc cr rand h salt (m_srv m) = (Ok (c, w), srv)"
  shows "sys_inv (at_phase i (Welcoming c) srv m)"
proof -
  let ?p = "srv_pool (m_srv m)"
  from a obtain s ip p where p: "Allocate ?p = (Ok ip, p)" and c: "c = new_client s ip (hello_name h)"
    and srv: "srv = (m_srv m)\<lparr>srv_pool := p\<rparr>"
    by (auto simp: handshake_alloc_Ok)
  have wf: "pool_wf ?p" and asg: "pool_assigned ?p = ran (holds m)" and ex: "exclusive (holds m)"
    using inv by (simp_all add: sys_inv_def)
  from p obtain k where k: "ip = uint32ToIP k" "k \<notin> pool_assigned ?p"
    "pool_assigned p = insert k (pool_assigned ?p)" "pool_wf p"
    using pool.alloc_Ok [OF wf p] by (auto simp: Allocate_def image_iff split: result.splits)
  have none: "holds m i = None" using ph by (simp add: holds_def held_def)
  have c': "c_ipKey c = k" "client_ok c" using c k(1) by (simp_all add: new_client_def client_ok_def)
  have "conn_ok (m_phase m i) (srv_heap (m_srv m) i)" using inv by (rule inv_conn)
  with k c' none ex srv inv show ?thesis
    by (intro inv_at_phase [where new = "Some k"])
      (auto simp: asg held_def conn_ok_def sys_inv_def exclusive_acquire ph)
qed

lemma inv_register:
  assumes inv: "sys_inv m" and ph: "m_phase m i = Ready" and c: "srv_heap (m_srv m) i = Some c"
  shows "srv_clients (m_srv m) (c_ipKey c) = None"
    "sys_inv (at_phase i Serving (register i c (m_srv m)) m)"
proof -
  have i: "holds m i = Some (c_ipKey c)" using ph c by (simp add: holds_def held_def)
  have ex: "exclusive (holds m)" using inv by (simp add: sys_inv_def)
  show none: "srv_clients (m_srv m) (c_ipKey c) = None"
  proof (rule ccontr)
    assume "srv_clients (m_srv m) (c_ipKey c) \<noteq> None"
    then obtain j where "m_phase m j \<in> {Serving, Leaving}" "holds m j = Some (c_ipKey c)"
      using inv by (auto simp: sys_inv_def)
    moreover from this ex i have "j = i" unfolding exclusive_def by blast
    ultimately show False using ph by simp
  qed
  have upd: "(holds m)(i \<mapsto> c_ipKey c) = holds m" using i by auto
  have free: "srv_clients (m_srv m) a \<noteq> Some i" for a using inv ph by (auto simp: sys_inv_def)
  have "conn_ok Serving (Some c)" using inv_client [OF inv c] by (simp add: conn_ok_def)
  then show "sys_inv (at_phase i Serving (register i c (m_srv m)) m)"
    using inv c none free sys_invD [OF inv]
    by (intro inv_at_phase [where new = "Some (c_ipKey c)"])
      (auto simp: register_def held_def upd Let_def)
qed

lemma inv_unmap:
  assumes inv: "sys_inv m" and ph: "m_phase m i = Leaving" and c: "srv_heap (m_srv m) i = Some c"
  shows "sys_inv (at_phase i Unmapped (unmap i c (m_srv m)) m)"
proof -
  have i: "holds m i = Some (c_ipKey c)" using ph c by (simp add: holds_def held_def)
  have upd: "(holds m)(i \<mapsto> c_ipKey c) = holds m" using i by auto
  have mine: "srv_clients (m_srv m) a = Some i \<longleftrightarrow> a = c_ipKey c" for a
    using inv ph i by (auto simp: sys_inv_def)
  have tab: "srv_clients (m_srv m) (c_ipKey c) = Some i" using mine by simp
  have other: "a \<noteq> c_ipKey c \<Longrightarrow> srv_clients (m_srv m) a \<noteq> Some i" for a using mine by simp
  have "conn_ok Unmapped (Some c)" using inv_client [OF inv c] by (simp add: conn_ok_def)
  then show ?thesis
    using inv c tab other sys_invD [OF inv]
    by (intro inv_at_phase [where new = "Some (c_ipKey c)"])
      (auto simp: unmap_def held_def upd)
qed

lemma inv_replay: "sys_inv m \<Longrightarrow> handshake_auth t t' msg (m_srv m) = (r, srv) \<Longrightarrow>
    m_phase m i = Fresh \<Longrightarrow> held ph (srv_heap (m_srv m) i) = None \<Longrightarrow>
    ph \<notin> {Ready, Serving, Leaving, Unmapped, Released} \<Longrightarrow>
    sys_inv (at_phase i ph srv m)"
  using inv_conn [of m i] handshake_auth_frame [of t t' msg "m_srv m" r srv]
  by (intro inv_quiet) (auto simp: holds_def held_def conn_ok_def split: phase.splits)

lemma inv_gone:
  assumes "sys_inv m" "holds m i = None" "m_phase m i \<notin> {Serving, Leaving}"
  shows "sys_inv (at_phase i Gone (m_srv m) m)"
  using assms inv_conn [OF assms(1), of i]
  by (intro inv_quiet) (auto simp: held_def conn_ok_def)

lemma inv_close:
  assumes "sys_inv m" "m_phase m i = Released"
  shows "sys_inv (at_phase i Gone (close_at i (m_srv m)) m)"
  using assms inv_conn [OF assms(1), of i]
  by (intro inv_quiet)
    (auto simp: close_at_def holds_def held_def conn_ok_def client_ok_def client_close_def)

lemma inv_ready:
  assumes "sys_inv m" "m_phase m i = Welcoming c"
  shows "sys_inv (at_phase i Ready (put_client i c (m_srv m)) m)"
  using assms inv_conn [OF assms(1), of i]
  by (intro inv_quiet) (auto simp: holds_def held_def conn_ok_def)

section \<open>The invariant holds\<close>

inductive_cases sys_stepE: "sys_step cr m m'"

lemma sys_inv_init: "sys_init m \<Longrightarrow> sys_inv m"
  by (auto simp: sys_init_def sys_inv_def holds_def held_def exclusive_def conn_ok_def ran_def)

lemma sys_inv_step:
  assumes "sys_step cr m m'" "sys_inv m"
  shows "sys_inv m'"
  using assms
proof (induction rule: sys_step.induct)
  case (auth_ok m i t t' msg h salt srv)
  then show ?case by (intro inv_replay) (auto simp: held_def)
next
  case (auth_fail m i t t' msg r srv)
  then show ?case by (intro inv_replay) (auto simp: held_def)
next
  case (alloc_ok m i h salt rand c w srv)
  then show ?case by (intro inv_alloc)
next
  case (alloc_fail m i h salt rand r srv)
  then have "srv = m_srv m" using handshake_alloc_fails sys_invD(1) by blast
  with alloc_fail show ?case by (auto intro!: inv_gone simp: holds_def held_def)
next
  case (welcome_ok m i c c' srv)
  then show ?case by (auto intro!: inv_ready simp: handshake_finish_def)
next
  case (welcome_fail m i c e r srv)
  then have "srv = give_back c (m_srv m)" by (auto simp: handshake_finish_def give_back_def)
  with welcome_fail inv_conn [of m i] show ?case
    by (auto intro!: inv_release simp: holds_def held_def conn_ok_def)
next
  case (reg m i c)
  then show ?case by (intro inv_register(2))
next
  case (read m i c msg c' out)
  then show ?case
    using read_step_same [of cr c msg] loop_client_ok(1) [of c cr msg] inv_client [of m i c]
    by (auto intro!: inv_update_client)
next
  case (read_end m i c msg c' out)
  then show ?case
    using read_step_same [of cr c msg] loop_client_ok(1) [of c cr msg] inv_client [of m i c]
    by (auto intro!: inv_update_client)
next
  case (writer m i c e l out)
  then show ?case
    using write_step_same [of c e] loop_client_ok(2) [of c e] inv_client [of m i c]
    by (intro inv_update_client) auto
next
  case (route m pkt i)
  then show ?case by (simp add: inv_tun)
next
  case (deliver m pkt i c pr)
  then show ?case
    using loop_client_ok(3) [of c cr pkt pr] inv_client [of m i c]
    by (auto simp: inv_tun intro!: inv_update_client tun_deliver_same)
next
  case (dereg_unmap m i c)
  then show ?case by (intro inv_unmap)
next
  case (dereg_release m i c)
  then show ?case
    using inv_client [of m i c]
    by (intro inv_release) (auto simp: holds_def held_def conn_ok_def)
next
  case (dereg_close m i)
  then show ?case by (intro inv_close)
qed

interpretation srv: safe_system sys_init "sys_step cr" sys_inv for cr
  by unfold_locales (auto intro: sys_inv_init sys_inv_step)

text \<open>The TUN reader on its own takes steps of the machine: a lookup and a delivery per packet.\<close>

lemma tun_loop_steps:
  assumes "sys_inv m" "m_tun m = None"
  shows "(sys_step cr)\<^sup>*\<^sup>* m (m\<lparr>m_srv := loop_state (tun_loop cr n (m_srv m) reads)\<rparr>)"
  using assms
proof (induction cr n "m_srv m" reads arbitrary: m rule: tun_loop.induct)
  case (2 cr n raw pr rs)
  let ?pkt = "take n raw"
  show ?case
  proof (cases "tun_route (m_srv m) ?pkt")
    case None
    with 2(1) [OF refl] 2(4,5) show ?thesis by simp
  next
    case (Some i)
    then have "holds m i = Some (ip_dst ?pkt)" "m_phase m i \<in> {Serving, Leaving}"
      using 2(4) by (auto simp: tun_route_def sys_inv_def split: if_splits)
    then obtain c where c: "srv_heap (m_srv m) i = Some c" by (auto simp: holds_def held_def)
    define srv where "srv = put_client i (tun_deliver cr ?pkt pr c) (m_srv m)"
    have 1: "sys_step cr m (m\<lparr>m_tun := Some (?pkt, i)\<rparr>)" by (rule route [OF 2(5) Some])
    have same: "m\<lparr>m_srv := x, m_tun := None\<rparr> = m\<lparr>m_srv := x\<rparr>" for x using 2(5) by (cases m) simp
    have "sys_step cr (m\<lparr>m_tun := Some (?pkt, i)\<rparr>) (m\<lparr>m_srv := srv\<rparr>)"
      using deliver [of "m\<lparr>m_tun := Some (?pkt, i)\<rparr>" ?pkt i c cr pr] c 2(5)
      by (simp add: at_phase_def srv_def fun_upd_idem same)
    with 1 have steps: "(sys_step cr)\<^sup>*\<^sup>* m (m\<lparr>m_srv := srv\<rparr>)" by simp
    have "(sys_step cr)\<^sup>*\<^sup>* (m\<lparr>m_srv := srv\<rparr>) (m\<lparr>m_srv := loop_state (tun_loop cr n srv rs)\<rparr>)"
      using 2(3) [OF refl Some c, of "m\<lparr>m_srv := srv\<rparr>"] srv.steps_inv [OF steps 2(4)] 2(5) by (simp add: srv_def)
    with steps show ?thesis using Some c by (simp add: srv_def)
  qed
qed simp_all

text \<open>Packets for one registered client, read in a row, are sealed for it one after the other.\<close>

lemma tun_loop_to_client:
  assumes "srv_clients srv a = Some i" "srv_heap srv i = Some c"
    and "\<forall>(pkt, pr) \<in> set rs. 20 \<le> length pkt \<and> length pkt \<le> n \<and> ip_version pkt = 4 \<and> ip_dst pkt = a"
  shows "\<exists>srv'. tun_loop cr n srv (map Ok rs) = Continue srv' \<and>
    srv_heap srv' i = Some (fold (\<lambda>(pkt, pr). tun_deliver cr pkt pr) rs c)"
  using assms
proof (induction rs arbitrary: srv c)
  case (Cons r rs)
  obtain pkt pr where r: "r = (pkt, pr)" by (cases r) auto
  with Cons.prems have "tun_route srv pkt = Some i" "take n pkt = pkt" by (auto simp: tun_route_def)
  with Cons.prems Cons.IH [of "put_client i (tun_deliver cr pkt pr c) srv" "tun_deliver cr pkt pr c"] show ?case
    by (simp add: r)
qed simp

text \<open>An MTU below -64 makes the reader panic before its first packet.\<close>

lemma negative_mtu_panics:
  "MTU (srv_cfg srv) < -64 \<Longrightarrow> - (2 ^ 62) \<le> MTU (srv_cfg srv) \<Longrightarrow>
    tunReadLoop cr srv reads = Panic ''makeslice: len out of range''"
  by (simp add: tunReadLoop_def tun_buffer_def wrap64_def Let_def)

section \<open>The packet in flight\<close>

definition tun_ok :: "sys \<Rightarrow> bool" where
  "tun_ok m \<longleftrightarrow>
     (case m_tun m of
        None \<Rightarrow> True
      | Some (pkt, i) \<Rightarrow> map_option c_ipKey (srv_heap (m_srv m) i) = Some (ip_dst pkt))"

text \<open>The operations that do not touch client objects.\<close>

lemma srv_heap_simps [machine]:
  "handshake_auth t t' msg srv = (r, srv') \<Longrightarrow> srv_heap srv' = srv_heap srv"
  "handshake_alloc cr rand h salt srv = (r', srv') \<Longrightarrow> srv_heap srv' = srv_heap srv"
  "handshake_finish w c srv = (r'', srv') \<Longrightarrow> srv_heap srv' = srv_heap srv"
  "srv_heap (unmap i c srv) = srv_heap srv"
  "srv_heap (give_back c srv) = srv_heap srv"
  by (auto dest!: handshake_auth_frame)
    (auto simp: handshake_alloc_def handshake_finish_def unmap_def give_back_def
      split: result.splits prod.splits)

lemma close_at_address:
  "map_option c_ipKey (srv_heap (close_at j srv) i) = map_option c_ipKey (srv_heap srv i)"
  by (auto simp: close_at_def client_close_def option.map_comp o_def)

lemma register_address:
  "map_option c_ipKey (srv_heap (register j c srv) i) = map_option c_ipKey (srv_heap srv i)"
  using close_at_address by (auto simp: register_def Let_def split: option.splits)

text \<open>An object on the heap stays there and keeps its address, whatever step is taken.\<close>

lemma heap_address_stable:
  assumes "sys_step cr m m'" "map_option c_ipKey (srv_heap (m_srv m) i) = Some a" "sys_inv m"
  shows "map_option c_ipKey (srv_heap (m_srv m') i) = Some a"
  using assms(1)
proof cases
  case (welcome_ok j c c' srv)
  with inv_conn [OF assms(3), of j] have "srv_heap (m_srv m) j = None" by (simp add: conn_ok_def)
  with welcome_ok assms(2) srv_heap_simps(3) show ?thesis by fastforce
next
  case (read j c msg c' out)
  then show ?thesis using read_step_same [of cr c msg] assms(2) by (auto simp: same_client_def)
next
  case (read_end j c msg c' out)
  then show ?thesis using read_step_same [of cr c msg] assms(2) by (auto simp: same_client_def)
next
  case (writer j c e l out)
  then show ?thesis using write_step_same [of c e] assms(2) by (auto simp: same_client_def)
next
  case (deliver pkt j c pr)
  then show ?thesis using tun_deliver_same [of cr pkt pr c] assms(2) by (auto simp: same_client_def)
next
  case (reg j c)
  then show ?thesis using assms(2) by (simp add: register_address)
next
  case (dereg_close j)
  then show ?thesis using assms(2) by (simp add: close_at_address)
qed (use assms(2) in \<open>simp_all add: srv_heap_simps\<close>)

lemma tun_ok_init: "sys_init m \<Longrightarrow> tun_ok m"
  by (simp add: sys_init_def tun_ok_def)

lemma tun_ok_step:
  assumes "sys_step cr m m'" "sys_inv m" "tun_ok m"
  shows "tun_ok m'"
proof (cases "m_tun m' = m_tun m")
  case True
  then show ?thesis
    using assms(3) heap_address_stable [OF assms(1) _ assms(2)]
    by (auto simp: tun_ok_def split: option.splits)
next
  case False
  from assms(1) False show ?thesis
  proof cases
    case (route pkt i)
    then have "m_phase m i \<in> {Serving, Leaving}" "holds m i = Some (ip_dst pkt)"
      using assms(2) by (auto simp: tun_route_def sys_inv_def split: if_splits)
    then show ?thesis using route(1) by (auto simp: tun_ok_def holds_def held_def split: phase.splits)
  qed (simp_all add: tun_ok_def)
qed

interpretation flight: safe_system sys_init "sys_step cr" "\<lambda>m. sys_inv m \<and> tun_ok m" for cr
  by unfold_locales (auto intro: sys_inv_init sys_inv_step tun_ok_step tun_ok_init)

section \<open>A concrete run\<close>

definition demo_sys :: sys where
  "demo_sys = \<lparr>m_srv = demo_server, m_phase = (\<lambda>i. Fresh), m_tun = None\<rparr>"

lemma demo_sys_init: "reach sys_init (sys_step cr) demo_sys"
  by (rule reach_init) (simp add: sys_init_def demo_sys_def demo_server_def)

text \<open>Connection 0 completes its handshake.\<close>

lemma demo_ready:
  "\<exists>m c s. reach sys_init (sys_step toy_crypto) m \<and> m_phase m 0 = Ready \<and>
    srv_heap (m_srv m) 0 = Some c \<and> c_session c = s \<and> c_send c = [] \<and> m_tun m = None \<and>
    DeriveSession toy_crypto (PSK demo_cfg) (replicate SaltLen 1) (replicate SaltLen 9) True = Ok s"
proof -
  let ?R = "reach sys_init (sys_step toy_crypto)" and ?h = "demo_hello 1" and ?salt = "replicate SaltLen 1"
  obtain srv1 where auth: "handshake_auth demo_now demo_now (hello_frame ?h) demo_server = (Ok (?h, ?salt), srv1)"
    using demo_first by blast
  define m1 where "m1 = at_phase 0 (Authed ?h ?salt) srv1 demo_sys"
  have 1: "?R m1"
    unfolding m1_def
    by (rule reach_step [OF demo_sys_init]) (rule sys_step.auth_ok, use auth in \<open>auto simp: demo_sys_def\<close>)
  have srv1: "srv_pool srv1 = default_pool" "srv_cfg srv1 = demo_cfg"
    using handshake_auth_frame [OF auth] by (auto simp: demo_server_def)
  obtain c w srv2 s where alloc: "handshake_alloc toy_crypto (\<lambda>n. Ok (replicate n 9)) ?h ?salt srv1 =
      (Ok (c, w), srv2)" and c: "c_session c = s" "c_send c = []"
      "DeriveSession toy_crypto (PSK demo_cfg) ?salt (replicate SaltLen 9) True = Ok s"
    using demo_alloc [OF srv1(1), of ?h ?salt] srv1(2) by (auto simp: new_client_def)
  define m2 where "m2 = at_phase 0 (Welcoming c) srv2 m1"
  have 2: "?R m2"
    unfolding m2_def by (rule reach_step [OF 1]) (rule sys_step.alloc_ok, use alloc in \<open>auto simp: m1_def\<close>)
  define m3 where "m3 = at_phase 0 Ready (put_client 0 c srv2) m2"
  have "?R m3"
    unfolding m3_def by (rule reach_step [OF 2]) (rule sys_step.welcome_ok, auto simp: m2_def handshake_finish_def)
  with c show ?thesis by (intro exI [of _ m3]) (simp add: m3_def m2_def m1_def demo_sys_def)
qed

text \<open>It is served, and the first packet it sends is forwarded.\<close>

lemma ip_fields:
  assumes "pkt = [0x45] @ replicate 11 0 @ put_be32 a @ put_be32 b"
  shows "length pkt = 20" "ip_version pkt = 4" "ip_src pkt = a" "ip_dst pkt = b"
  using assms by (simp_all add: ip_version_def ip_src_def ip_dst_def)

lemma demo_serving:
  "\<exists>m c msg pkt t. reach sys_init (sys_step toy_crypto) m \<and> m_phase m 0 = Serving \<and>
    srv_heap (m_srv m) 0 = Some c \<and> m_tun m = None \<and> snd (read_step toy_crypto c msg) = Some pkt \<and>
    c_send c = [] \<and> in_step 0 (c_session c) t"
proof -
  obtain m c s where m: "reach sys_init (sys_step toy_crypto) m" "m_phase m 0 = Ready"
    "srv_heap (m_srv m) 0 = Some c" "c_session c = s" "m_tun m = None" "c_send c = []"
    and s: "DeriveSession toy_crypto (PSK demo_cfg) (replicate SaltLen 1) (replicate SaltLen 9) True = Ok s"
    using demo_ready by blast
  obtain t where t: "DeriveSession toy_crypto (PSK demo_cfg) (replicate SaltLen 1) (replicate SaltLen 9) False = Ok t"
    using toy_derive by blast
  define m1 where "m1 = at_phase 0 Serving (register 0 c (m_srv m)) m"
  have "reach sys_init (sys_step toy_crypto) m1"
    unfolding m1_def by (rule reach_step [OF m(1)]) (rule sys_step.reg [OF m(2,3)])
  moreover have "register 0 c (m_srv m) = (m_srv m)\<lparr>srv_clients := (srv_clients (m_srv m))(c_ipKey c \<mapsto> 0)\<rparr>"
    using inv_register(1) [OF srv.reach_inv [OF m(1)] m(2,3)] by (simp add: register_def Let_def)
  moreover define pkt where "pkt = [0x45] @ replicate 11 0 @ put_be32 (c_ipKey c) @ put_be32 0"
  let ?f = "fst (sealRaw toy_crypto t pkt [])"
  have "fst (Open toy_crypto s ?f) = Ok pkt"
    using in_step_Open [of toy_crypto 0 t s pkt "[]"] DeriveSession_mirror [OF s t] ip_fields(1) [OF pkt_def] by simp
  then have "snd (read_step toy_crypto c (Ok (BinaryMessage ?f))) = Some pkt"
    using m(4) ip_fields [OF pkt_def] by (auto simp: read_step_forwards)
  ultimately show ?thesis
    using m(3-6) DeriveSession_mirror [OF s t]
    by (intro exI [of _ m1] exI [of _ c] exI [of _ "Ok (BinaryMessage ?f)"] exI [of _ pkt] exI [of _ t])
      (simp add: m1_def)
qed

section \<open>Properties\<close>

text \<open>C4: in every reachable state, however the connections interleave, the addresses
  assigned in the pool are exactly those held by connections (none leaks, none is freed
  while in use), each is held by one connection only, and none is the gateway's.\<close>

theorem addresses_exclusive:
  assumes "reach sys_init (sys_step cr) m"
  shows "pool_assigned (srv_pool (m_srv m)) = ran (holds m) \<and>
    (\<forall>i j a. holds m i = Some a \<longrightarrow> holds m j = Some a \<longrightarrow> i = j) \<and>
    (\<forall>i. holds m i \<noteq> Some (pool_gateway (srv_pool (m_srv m))))"
proof -
  note inv = sys_invD [OF srv.reach_inv [OF assms]]
  have "ran (holds m) \<subseteq> usable (srv_pool (m_srv m))"
    using inv(1,2) by (simp add: pool_wf_def)
  then show ?thesis using inv(2,3) by (auto simp: exclusive_def usable_def ran_def)
qed

theorem addresses_exclusive_witness:
  "\<exists>m a. reach sys_init (sys_step toy_crypto) m \<and> holds m 0 = Some a \<and>
    pool_assigned (srv_pool (m_srv m)) = ran (holds m) \<and> a \<noteq> pool_gateway (srv_pool (m_srv m))"
proof -
  obtain m c where m: "reach sys_init (sys_step toy_crypto) m" "m_phase m 0 = Ready"
    "srv_heap (m_srv m) 0 = Some c" using demo_ready by blast
  then have "holds m 0 = Some (c_ipKey c)" by (simp add: holds_def held_def)
  with addresses_exclusive [OF m(1)] m(1) show ?thesis by (metis option.inject)
qed

text \<open>Routing. In every reachable state the TUN reader finds client \<open>i\<close> for a packet
  exactly when the packet is an IPv4 packet of at least 20 bytes whose destination is the
  address held by \<open>i\<close>, and \<open>i\<close> is registered.\<close>

lemma routing_correct:
  assumes "reach sys_init (sys_step cr) m"
  shows "tun_route (m_srv m) pkt = Some i \<longleftrightarrow>
    20 \<le> length pkt \<and> ip_version pkt = 4 \<and> m_phase m i \<in> {Serving, Leaving} \<and>
    holds m i = Some (ip_dst pkt)"
  using srv.reach_inv [OF assms] by (auto simp: tun_route_def sys_inv_def)

lemma routing_correct_witness:
  "\<exists>m pkt. reach sys_init (sys_step toy_crypto) m \<and> tun_route (m_srv m) pkt = Some 0"
proof -
  obtain m c where m: "reach sys_init (sys_step toy_crypto) m" "m_phase m 0 = Serving"
    "srv_heap (m_srv m) 0 = Some c" using demo_serving by blast
  define pkt where "pkt = [0x45] @ replicate 11 0 @ put_be32 0 @ put_be32 (c_ipKey c)"
  have "tun_route (m_srv m) pkt = Some 0"
    using routing_correct [OF m(1), of pkt 0] m ip_fields [OF pkt_def] by (simp add: holds_def held_def)
  with m(1) show ?thesis by blast
qed

text \<open>C15: no misdelivery through a stale pointer. A packet the TUN reader has looked up is
  sealed for a client object that exists and whose tunnel address is the packet's
  destination, even when that client has been deregistered in between.\<close>

theorem flight_safe:
  assumes "reach sys_init (sys_step cr) m" "m_tun m = Some (pkt, i)"
  shows "\<exists>c. srv_heap (m_srv m) i = Some c \<and> c_ipKey c = ip_dst pkt"
  using flight.reach_inv [OF assms(1)] assms(2) by (auto simp: tun_ok_def)

theorem flight_safe_witness:
  "\<exists>(m :: sys) pkt c. m_tun m = Some (pkt, 0) \<and> srv_heap (m_srv m) 0 = Some c \<and> c_ipKey c = ip_dst pkt"
proof -
  obtain m c where m: "reach sys_init (sys_step toy_crypto) m" "m_phase m 0 = Serving"
    "srv_heap (m_srv m) 0 = Some c" "m_tun m = None" using demo_serving by blast
  define pkt where "pkt = [0x45] @ replicate 11 0 @ put_be32 0 @ put_be32 (c_ipKey c)"
  have "srv_clients (m_srv m) (c_ipKey c) = Some 0"
    using srv.reach_inv [OF m(1)] m(2,3) by (simp add: sys_inv_def holds_def held_def)
  then have "tun_route (m_srv m) pkt = Some 0" using ip_fields [OF pkt_def] by (simp add: tun_route_def)
  from reach_step [OF m(1) sys_step.route [OF m(4) this]]
  have "reach sys_init (sys_step toy_crypto) (m\<lparr>m_tun := Some (pkt, 0)\<rparr>)" .
  from flight_safe [OF this, of pkt 0] obtain d where "srv_heap (m_srv m) 0 = Some d" "c_ipKey d = ip_dst pkt"
    by auto
  then show ?thesis
    by (intro exI [of _ "m\<lparr>m_tun := Some (pkt, 0)\<rparr>"] exI [of _ pkt] exI [of _ d]) simp
qed

text \<open>C7: anti-spoofing. Whatever a client sends, a packet that is forwarded to the TUN
  device has as its source the address that this connection alone holds, and a reply to
  that source is routed back to the same connection.\<close>

theorem no_spoofing:
  assumes "reach sys_init (sys_step cr) m" "m_phase m i = Serving" "srv_heap (m_srv m) i = Some c"
    and "snd (read_step cr c msg) = Some pkt"
  shows "(\<forall>j. holds m j = Some (ip_src pkt) \<longleftrightarrow> j = i) \<and>
    (\<forall>reply. 20 \<le> length reply \<longrightarrow> ip_version reply = 4 \<longrightarrow> ip_dst reply = ip_src pkt \<longrightarrow>
       tun_route (m_srv m) reply = Some i)"
proof -
  have inv: "sys_inv m" by (rule srv.reach_inv [OF assms(1)])
  have i: "holds m i = Some (ip_src pkt)"
    using assms(2-4) by (simp add: holds_def held_def read_step_forwards)
  have "j = i" if "holds m j = Some (ip_src pkt)" for j
    using sys_invD(3) [OF inv] i that unfolding exclusive_def by blast
  with i have "\<forall>j. holds m j = Some (ip_src pkt) \<longleftrightarrow> j = i" by blast
  moreover have "srv_clients (m_srv m) (ip_src pkt) = Some i"
    using inv i assms(2) by (simp add: sys_inv_def)
  ultimately show ?thesis by (simp add: tun_route_def)
qed

theorem no_spoofing_witness:
  "\<exists>m c msg pkt. reach sys_init (sys_step toy_crypto) m \<and> snd (read_step toy_crypto c msg) = Some pkt \<and>
    (\<forall>j. holds m j = Some (ip_src pkt) \<longleftrightarrow> j = 0)"
proof -
  obtain m c msg pkt where m: "reach sys_init (sys_step toy_crypto) m" "m_phase m 0 = Serving"
    "srv_heap (m_srv m) 0 = Some c" "snd (read_step toy_crypto c msg) = Some pkt" using demo_serving by blast
  from no_spoofing [OF this] m(1,4) show ?thesis by blast
qed

text \<open>Registration never evicts. When a connection registers, the entry for its
  address is free, so the branch that closes a previous client of the same address is not
  taken in any reachable state.\<close>

lemma register_never_evicts:
  assumes "reach sys_init (sys_step cr) m" "m_phase m i = Ready" "srv_heap (m_srv m) i = Some c"
  shows "register i c (m_srv m) =
    (m_srv m)\<lparr>srv_clients := (srv_clients (m_srv m))(c_ipKey c \<mapsto> i)\<rparr>"
  using inv_register(1) [OF srv.reach_inv [OF assms(1)] assms(2,3)] by (simp add: register_def Let_def)

lemma register_never_evicts_witness:
  "\<exists>(m :: sys) c. m_phase m 0 = Ready \<and>
    register 0 c (m_srv m) = (m_srv m)\<lparr>srv_clients := (srv_clients (m_srv m))(c_ipKey c \<mapsto> 0)\<rparr>"
proof -
  obtain m c where m: "reach sys_init (sys_step toy_crypto) m" "m_phase m 0 = Ready"
    "srv_heap (m_srv m) 0 = Some c" using demo_ready by blast
  from register_never_evicts [OF this] m(2) show ?thesis by blast
qed



end
