(* ===== verification/Leases.thy ===== *)
theory Leases
  imports ServerMachine
begin

text \<open>
  What the server promises about addresses, as an abstract machine: a table of leases, one per
  connection, which are granted from the network, last until they end and do not come back.
  The machine of \<open>ServerMachine\<close> is shown to be a refinement of it.
\<close>

section \<open>The specification\<close>

datatype lease = Waiting | Leased u32 | Ended

record lease_table =
  lt_net :: "u32 set"
  lt_lease :: "nat \<Rightarrow> lease"

definition lease_init :: "lease_table \<Rightarrow> bool" where
  "lease_init T \<longleftrightarrow> lt_lease T = (\<lambda>_. Waiting)"

definition set_lease :: "nat \<Rightarrow> lease \<Rightarrow> lease_table \<Rightarrow> lease_table" where
  "set_lease i l T = T\<lparr>lt_lease := (lt_lease T)(i := l)\<rparr>"

inductive lease_step :: "lease_table \<Rightarrow> lease_table \<Rightarrow> bool" where
  grant: "lt_lease T i = Waiting \<Longrightarrow> a \<in> lt_net T \<Longrightarrow> \<forall>j. lt_lease T j \<noteq> Leased a \<Longrightarrow>
    lease_step T (set_lease i (Leased a) T)"
| refuse: "lt_lease T i = Waiting \<Longrightarrow> lease_step T (set_lease i Ended T)"
| expire: "lt_lease T i = Leased a \<Longrightarrow> lease_step T (set_lease i Ended T)"

inductive_cases lease_stepE: "lease_step T T'"

definition lease_inv :: "lease_table \<Rightarrow> bool" where
  "lease_inv T \<longleftrightarrow> (\<forall>i j a. lt_lease T i = Leased a \<longrightarrow> a \<in> lt_net T \<and> (lt_lease T j = Leased a \<longrightarrow> i = j))"

interpretation lease: safe_system lease_init lease_step lease_inv
proof
  show "lease_inv T" if "lease_init T" for T
    using that by (simp add: lease_init_def lease_inv_def)
  show "lease_inv T'" if "lease_step T T'" "lease_inv T" for T T'
    using that by (elim lease_stepE) (auto simp: lease_inv_def set_lease_def)
qed

text \<open>
  The life of one lease is an order: it is granted once, is not exchanged for another, and ends
  for good.
\<close>

instantiation lease :: order
begin

fun less_eq_lease :: "lease \<Rightarrow> lease \<Rightarrow> bool" where
  "less_eq_lease Waiting l \<longleftrightarrow> True"
| "less_eq_lease (Leased a) l \<longleftrightarrow> l = Leased a \<or> l = Ended"
| "less_eq_lease Ended l \<longleftrightarrow> l = Ended"

definition less_lease :: "lease \<Rightarrow> lease \<Rightarrow> bool" where
  "less_lease k l \<longleftrightarrow> k \<le> l \<and> \<not> l \<le> k"

instance
proof
  fix k l n :: lease
  show "k < l \<longleftrightarrow> k \<le> l \<and> \<not> l \<le> k" by (fact less_lease_def)
  show "k \<le> k" by (cases k) simp_all
  show "k \<le> n" if "k \<le> l" "l \<le> n" using that by (cases k; cases l) auto
  show "k = l" if "k \<le> l" "l \<le> k" using that by (cases k; cases l) auto
qed

end

lemma lease_step_mono: "lease_step T T' \<Longrightarrow> lt_lease T i \<le> lt_lease T' i"
  by (elim lease_stepE) (auto simp: set_lease_def)

lemma lease_steps_mono: "lease_step\<^sup>*\<^sup>* T T' \<Longrightarrow> lt_lease T i \<le> lt_lease T' i"
  by (induction rule: rtranclp_induct) (auto intro: order_trans lease_step_mono)

section \<open>The server's leases\<close>

definition lease_of :: "phase \<Rightarrow> tclient option \<Rightarrow> lease" where
  "lease_of ph c = (case held ph c of Some a \<Rightarrow> Leased a | None \<Rightarrow> if early ph then Waiting else Ended)"

definition leases :: "sys \<Rightarrow> lease_table" where
  "leases m = \<lparr>lt_net = usable (srv_pool (m_srv m)), lt_lease = (\<lambda>i. lease_of (m_phase m i) (srv_heap (m_srv m) i))\<rparr>"

lemma lease_of_Leased: "lease_of ph c = Leased a \<longleftrightarrow> held ph c = Some a"
  by (simp add: lease_of_def split: option.splits)

lemma lease_of_cong: "map_option c_ipKey c = map_option c_ipKey d \<Longrightarrow> lease_of ph c = lease_of ph d"
  by (auto simp: lease_of_def held_def split: phase.splits)

lemma leases_at_phase:
  assumes "\<And>j. map_option c_ipKey (srv_heap srv j) = map_option c_ipKey (srv_heap (m_srv m) j)"
    and "usable (srv_pool srv) = usable (srv_pool (m_srv m))"
  shows "leases (at_phase i ph srv m) = set_lease i (lease_of ph (srv_heap (m_srv m) i)) (leases m)"
  using assms lease_of_cong [OF assms(1)] by (auto simp: leases_def set_lease_def)

lemma set_lease_same [simp]: "lt_lease T i = l \<Longrightarrow> set_lease i l T = T"
  by (auto simp: set_lease_def)

lemma leases_tun [simp]: "leases (m\<lparr>m_tun := x\<rparr>) = leases m"
  by (simp add: leases_def)

lemma give_back_usable [simp]: "usable (srv_pool (give_back c srv)) = usable (srv_pool srv)"
  by (auto simp: give_back_def Release_def usable_def Let_def split: option.splits)

lemma close_at_pool: "srv_pool (close_at i srv) = srv_pool srv"
  by (simp add: close_at_def)

lemma register_pool: "srv_pool (register i c srv) = srv_pool srv"
  by (simp add: register_def close_at_pool Let_def split: option.splits)

text \<open>A step that keeps every object's address and the network moves one lease or none.\<close>

lemma quiet_step:
  assumes "\<And>j. map_option c_ipKey (srv_heap srv j) = map_option c_ipKey (srv_heap (m_srv m) j)"
    and "usable (srv_pool srv) = usable (srv_pool (m_srv m))"
    and "lease_of ph (srv_heap (m_srv m) i) = lease_of (m_phase m i) (srv_heap (m_srv m) i) \<or>
      lease_of ph (srv_heap (m_srv m) i) = Ended \<and> lease_of (m_phase m i) (srv_heap (m_srv m) i) \<noteq> Ended"
  shows "lease_step\<^sup>*\<^sup>* (leases m) (leases (at_phase i ph srv m))"
proof -
  have l: "lt_lease (leases m) i = lease_of (m_phase m i) (srv_heap (m_srv m) i)" by (simp add: leases_def)
  have "lease_step (leases m) (set_lease i Ended (leases m))" if "lt_lease (leases m) i \<noteq> Ended"
    using that by (cases "lt_lease (leases m) i") (auto intro: refuse expire)
  then show ?thesis using assms(3) l by (auto simp: leases_at_phase [OF assms(1,2)])
qed

lemma grant_step:
  assumes inv: "sys_inv m" and ph: "m_phase m i = Authed h salt"
    and a: "handshake_alloc cr rand h salt (m_srv m) = (Ok (c, w), srv)"
  shows "lease_step (leases m) (leases (at_phase i (Welcoming c) srv m))"
proof -
  let ?p = "srv_pool (m_srv m)"
  from a obtain s ip p where p: "Allocate ?p = (Ok ip, p)" and c: "c = new_client s ip (hello_name h)"
    and srv: "srv = (m_srv m)\<lparr>srv_pool := p\<rparr>" by (auto simp: handshake_alloc_Ok)
  have wf: "pool_wf ?p" using inv by (simp add: sys_inv_def)
  from p obtain k where k: "ip = uint32ToIP k" "k \<in> usable ?p" "k \<notin> pool_assigned ?p" "usable p = usable ?p"
    using pool.alloc_Ok [OF wf p] by (auto simp: Allocate_def image_iff split: result.splits)
  have "lease_of (Welcoming c) x = Leased k" for x using c k(1) by (simp add: lease_of_def held_def new_client_def)
  then have "leases (at_phase i (Welcoming c) srv m) = set_lease i (Leased k) (leases m)"
    by (subst leases_at_phase) (simp_all add: srv k(4))
  moreover have "lt_lease (leases m) j \<noteq> Leased k" for j
    using k(3) inv by (auto simp: leases_def lease_of_Leased sys_inv_def holds_def ran_def)
  ultimately show ?thesis
    using ph k(2) grant [of "leases m" i k] by (simp add: leases_def lease_of_def held_def)
qed

lemma leases_step:
  assumes "sys_step cr m m'" "sys_inv m"
  shows "lease_step\<^sup>*\<^sup>* (leases m) (leases m')"
  using assms(1)
proof cases
  case (auth_ok i t t' msg h salt srv)
  then show ?thesis
    by (auto dest!: handshake_auth_frame intro!: quiet_step simp: lease_of_def held_def)
next
  case (auth_fail i t t' msg r srv)
  then show ?thesis
    by (auto dest!: handshake_auth_frame intro!: quiet_step simp: lease_of_def held_def)
next
  case (alloc_ok i h salt rand c w srv)
  then show ?thesis using grant_step [OF assms(2)] by (simp add: r_into_rtranclp)
next
  case (alloc_fail i h salt rand r srv)
  then have "srv = m_srv m" using handshake_alloc_fails sys_invD(1) [OF assms(2)] by blast
  with alloc_fail show ?thesis by (auto intro!: quiet_step simp: lease_of_def held_def)
next
  case (welcome_ok i c c' srv)
  then have c: "c' = c" "srv = m_srv m" by (simp_all add: handshake_finish_def)
  have "leases m' = leases m"
    using welcome_ok(1,2) c by (auto simp: leases_def fun_eq_iff lease_of_def held_def)
  then show ?thesis by simp
next
  case (welcome_fail i c e r srv)
  then have "srv = give_back c (m_srv m)" by (auto simp: handshake_finish_def give_back_def)
  with welcome_fail show ?thesis
    by (auto intro!: quiet_step simp: srv_heap_simps lease_of_def held_def)
next
  case (reg i c)
  then show ?thesis by (auto intro!: quiet_step simp: register_address register_pool lease_of_def held_def)
next
  case (read i c msg c' out)
  then show ?thesis
    using read_step_same [of cr c msg] by (auto intro!: quiet_step simp: same_client_def)
next
  case (read_end i c msg c' out)
  then show ?thesis
    using read_step_same [of cr c msg] by (auto intro!: quiet_step simp: same_client_def lease_of_def held_def)
next
  case (writer i c e l out)
  then show ?thesis
    using write_step_same [of c e] by (auto intro!: quiet_step simp: same_client_def)
next
  case (route pkt i)
  then show ?thesis by simp
next
  case (deliver pkt i c pr)
  then show ?thesis
    using tun_deliver_same [of cr pkt pr c] by (auto intro!: quiet_step simp: same_client_def)
next
  case (dereg_unmap i c)
  then show ?thesis by (auto intro!: quiet_step simp: unmap_def lease_of_def held_def)
next
  case (dereg_release i c)
  then show ?thesis by (auto intro!: quiet_step simp: srv_heap_simps lease_of_def held_def)
next
  case (dereg_close i)
  then show ?thesis by (auto intro!: quiet_step simp: close_at_address close_at_pool lease_of_def held_def)
qed

interpretation leasing: simulation sys_init "sys_step cr" sys_inv lease_init lease_step leases for cr
proof
  show "lease_init (leases m)" if "sys_init m" for m
    using that by (simp add: sys_init_def lease_init_def leases_def lease_of_def held_def)
  show "lease_step\<^sup>*\<^sup>* (leases m) (leases m')" if "sys_step cr m m'" "sys_inv m" for m m'
    using that by (rule leases_step)
qed

section \<open>Properties\<close>

text \<open>C5: the server leases addresses. Through every interleaving of handshakes, packets, failures
  and disconnects, what the connections hold changes only as the abstract table of leases
  allows. So an address once given to a connection stays that connection's, and is no other's
  and never exchanged, until the connection has given it back, after which it gets none.\<close>

theorem server_refines_leases:
  assumes "reach sys_init (sys_step cr) m" "(sys_step cr)\<^sup>*\<^sup>* m m'"
  shows "reach lease_init lease_step (leases m) \<and> lease_step\<^sup>*\<^sup>* (leases m) (leases m') \<and>
    (\<forall>i a. holds m i = Some a \<longrightarrow> (\<forall>j. holds m j = Some a \<longrightarrow> j = i) \<and>
       (holds m' i = Some a \<or> holds m' i = None \<and> m_phase m' i \<in> {Released, Gone}))"
proof -
  have inv: "sys_inv m" by (rule srv.reach_inv [OF assms(1)])
  have steps: "lease_step\<^sup>*\<^sup>* (leases m) (leases m')" by (rule leasing.abs_steps [OF assms(2) inv])
  have l: "lt_lease (leases n) i = Leased a \<longleftrightarrow> holds n i = Some a" for n i a
    by (simp add: leases_def lease_of_Leased holds_def)
  have ended: "m_phase m' i \<in> {Released, Gone}" "holds m' i = None" if "lt_lease (leases m') i = Ended" for i
    using that inv_conn [OF srv.steps_inv [OF assms(2) inv], of i]
    by (auto simp: leases_def lease_of_def held_def holds_def conn_ok_def split: phase.splits option.splits if_splits)
  have "holds m' i = Some a \<or> holds m' i = None \<and> m_phase m' i \<in> {Released, Gone}" if "holds m i = Some a" for i a
    using lease_steps_mono [OF steps, of i] that ended [of i] l by (metis less_eq_lease.simps(2))
  moreover have "j = i" if "holds m i = Some a" "holds m j = Some a" for i j a
    using lease.reach_inv [OF leasing.abs_reach [OF assms(1)]] that l unfolding lease_inv_def by blast
  ultimately show ?thesis using leasing.abs_reach [OF assms(1)] steps by blast
qed

theorem server_refines_leases_witness:
  "\<exists>m a. holds m 0 = Some a \<and> reach lease_init lease_step (leases m) \<and> lt_lease (leases m) 0 = Leased a"
proof -
  obtain m c where m: "reach sys_init (sys_step toy_crypto) m" "m_phase m 0 = Serving"
    "srv_heap (m_srv m) 0 = Some c" using demo_serving by blast
  then have "holds m 0 = Some (c_ipKey c)" by (simp add: holds_def held_def)
  moreover have "reach lease_init lease_step (leases m)"
    using server_refines_leases [OF m(1) rtranclp.rtrancl_refl] by blast
  ultimately show ?thesis by (auto simp: leases_def lease_of_Leased holds_def)
qed

end
