(* ===== verification/ClientTunnel.thy ===== *)
theory ClientTunnel
  imports Messages
begin

text \<open>
  The client's side of the tunnel: connection fingerprint (\<open>internal/client/fingerprint.go\<close>),
  dialling, handshake, packet input and output and keep-alive
  (\<open>internal/client/tunnel.go\<close>), and the packet pump (\<open>internal/client/pump.go\<close>).
\<close>

section \<open>Fingerprint\<close>

definition userAgents :: "string list" where
  "userAgents =
     [''Mozilla/5.0 (Windows NT 10.0; Win64; x64) AppleWebKit/537.36 (KHTML, like Gecko) Chrome/125.0.0.0 Safari/537.36'',
      ''Mozilla/5.0 (Windows NT 10.0; Win64; x64) AppleWebKit/537.36 (KHTML, like Gecko) Chrome/124.0.0.0 Safari/537.36 Edg/124.0.0.0'',
      ''Mozilla/5.0 (Macintosh; Intel Mac OS X 10_15_7) AppleWebKit/605.1.15 (KHTML, like Gecko) Version/17.4 Safari/605.1.15'',
      ''Mozilla/5.0 (X11; Linux x86_64; rv:126.0) Gecko/20100101 Firefox/126.0'',
      ''Mozilla/5.0 (Windows NT 10.0; Win64; x64; rv:125.0) Gecko/20100101 Firefox/125.0'']"

text \<open>
  \<open>rand.Int(rand.Reader, n)\<close> is an answer of the random source: a number below \<open>n\<close> or an
  error.
\<close>

type_synonym rand_int = "nat \<Rightarrow> nat result"

definition randomUserAgent :: "rand_int \<Rightarrow> string" where
  "randomUserAgent ri =
     (case ri (length userAgents) of Ok n \<Rightarrow> userAgents ! n | _ \<Rightarrow> userAgents ! 0)"

definition path_prefixes :: "string list" where
  "path_prefixes = [''/assets/'', ''/static/'', ''/cdn/'', ''/img/'', ''/v1/ws/'', ''/live/'']"

definition hex_char :: "nat \<Rightarrow> char" where
  "hex_char n = ''0123456789abcdef'' ! n"

definition hex_EncodeToString :: "bytes \<Rightarrow> string" where
  "hex_EncodeToString bs = concat (map (\<lambda>b. [hex_char (unat b div 16), hex_char (unat b mod 16)]) bs)"

text \<open>The error of the second draw is ignored: the code then dereferences a nil number.\<close>

definition randomPath :: "rand_source \<Rightarrow> rand_int \<Rightarrow> string result" where
  "randomPath rand ri =
     (case rand 8 of
        Ok buf \<Rightarrow>
          (case ri (length path_prefixes) of
             Ok n \<Rightarrow> Ok (path_prefixes ! n @ hex_EncodeToString buf)
           | _ \<Rightarrow> Panic ''invalid memory address or nil pointer dereference'')
      | _ \<Rightarrow> Ok ''/'')"

section \<open>Handshake\<close>

record tunnel =
  t_session :: session
  rxBytes :: u64
  txBytes :: u64
  LocalIP :: string
  t_Mask :: int
  t_Gateway :: string
  t_DNS :: "string list"
  t_MTU :: int
  readLimit :: int

definition client_hello :: "bytes \<Rightarrow> bytes \<Rightarrow> int \<Rightarrow> hello_msg" where
  "client_hello psk clientSalt ts =
     \<lparr>hello_type = MsgHello, hello_version = Version,
      hello_salt = EncodeToString StdEncoding clientSalt, hello_ts = ts,
      hello_auth = ComputeAuth psk clientSalt ts, hello_name = ''arnosvpn-desktop''\<rparr>"

lemma client_hello_text [simp]: "hello_text (client_hello psk clientSalt ts) = client_hello psk clientSalt ts"
  by (intro hello_text_id) (simp_all add: client_hello_def ascii_utf8)

lemma unmarshal_client_hello:
  assumes "in_int64 ts"
  shows "unmarshal_hello (marshal_hello (client_hello psk clientSalt ts)) = Some (client_hello psk clientSalt ts)"
proof -
  have "in_int64 (hello_version (client_hello psk clientSalt ts))" "in_int64 (hello_ts (client_hello psk clientSalt ts))"
    using assms by (simp_all add: client_hello_def Version_def in_int64_def)
  from unmarshal_marshal_hello [OF this] show ?thesis by simp
qed

text \<open>
  What the client makes of the server's answer. \<open>ReadJSON\<close> accepts a text or a binary
  message that holds a JSON document; \<open>answer\<close> is that document, or the error.
\<close>

definition client_finish :: "crypto \<Rightarrow> bytes \<Rightarrow> bytes \<Rightarrow> json result \<Rightarrow> tunnel result" where
  "client_finish cr psk clientSalt answer =
     (case bind_result answer (\<lambda>j. case unmarshal_welcome j of Some w \<Rightarrow> Ok w | None \<Rightarrow> Err ''json'') of
        Err e \<Rightarrow> Err (''read welcome: '' @ e)
      | Panic e \<Rightarrow> Panic e
      | Ok welcome \<Rightarrow>
          if welcome_type welcome = MsgError then Err ''server rejected connection''
          else if welcome_type welcome \<noteq> MsgWelcome \<or> welcome_ip welcome = [] then
            Err (''unexpected server response '' @ welcome_type welcome)
          else case DecodeString StdEncoding (welcome_salt welcome) of
            None \<Rightarrow> Err ''bad server salt''
          | Some serverSalt \<Rightarrow>
              if length serverSalt \<noteq> SaltLen then Err ''bad server salt''
              else bind_result (DeriveSession cr psk clientSalt serverSalt False) (\<lambda>session.
                let mtu = (if welcome_mtu welcome \<le> 0 then DefaultMTU else welcome_mtu welcome)
                in Ok \<lparr>t_session = session, rxBytes = 0, txBytes = 0, LocalIP = welcome_ip welcome,
                       t_Mask = welcome_mask welcome, t_Gateway = welcome_gateway welcome,
                       t_DNS = welcome_dns welcome, t_MTU = welcome_mtu welcome,
                       readLimit = wrap64 (mtu + int MaxPad + 1024)\<rparr>))"

text \<open>
  The whole exchange: \<open>exchange\<close> stands for the connection, which either fails to take the
  hello or delivers the answer to it.
\<close>

definition client_handshake ::
  "crypto \<Rightarrow> rand_source \<Rightarrow> int \<Rightarrow> bytes \<Rightarrow> (json \<Rightarrow> json result result) \<Rightarrow> tunnel result" where
  "client_handshake cr rand ts psk exchange =
     bind_result (RandBytes rand SaltLen) (\<lambda>clientSalt.
       case exchange (marshal_hello (client_hello psk clientSalt ts)) of
         Err e \<Rightarrow> Err (''send hello: '' @ e)
       | Panic e \<Rightarrow> Panic e
       | Ok answer \<Rightarrow> client_finish cr psk clientSalt answer)"

section \<open>Packets\<close>

text \<open>
  \<open>ReadPacket\<close> on the messages that arrive: \<open>None\<close> while it is still waiting, else the
  packet or the error, the tunnel and the messages left.
\<close>

fun ReadPacket :: "crypto \<Rightarrow> tunnel \<Rightarrow> ws_message result list \<Rightarrow>
    (bytes result \<times> tunnel \<times> ws_message result list) option" where
  "ReadPacket cr t [] = None"
| "ReadPacket cr t (Err e # ms) = Some (Err e, t, ms)"
| "ReadPacket cr t (Panic e # ms) = Some (Panic e, t, ms)"
| "ReadPacket cr t (Ok (TextMessage _) # ms) = ReadPacket cr t ms"
| "ReadPacket cr t (Ok (BinaryMessage data) # ms) =
     (case Open cr (t_session t) data of
        (Ok pkt, s) \<Rightarrow> Some (Ok pkt, t\<lparr>t_session := s, rxBytes := rxBytes t + word_of_nat (length pkt)\<rparr>, ms)
      | (Err e, s) \<Rightarrow> Some (Err (''decrypt: '' @ e), t\<lparr>t_session := s\<rparr>, ms)
      | (Panic e, s) \<Rightarrow> Some (Panic e, t\<lparr>t_session := s\<rparr>, ms))"

text \<open>\<open>WritePacket\<close> with the outcome of the write, and the message that went out.\<close>

definition WritePacket :: "crypto \<Rightarrow> tunnel \<Rightarrow> bytes \<Rightarrow> byte \<times> byte \<times> (nat \<Rightarrow> bytes) \<Rightarrow> unit result
    \<Rightarrow> unit result \<times> tunnel \<times> ws_message option" where
  "WritePacket cr t pkt pr written =
     (let (b0, b1, fill) = pr;
          (frame, s) = Seal cr (t_session t) pkt b0 b1 fill;
          t1 = t\<lparr>t_session := s\<rparr>
      in case written of
           Ok _ \<Rightarrow> (Ok (), t1\<lparr>txBytes := txBytes t1 + word_of_nat (length pkt)\<rparr>, Some (BinaryMessage frame))
         | Err e \<Rightarrow> (Err e, t1, None)
         | Panic e \<Rightarrow> (Panic e, t1, None))"

definition Stats :: "tunnel \<Rightarrow> u64 \<times> u64" where
  "Stats t = (rxBytes t, txBytes t)"

text \<open>
  \<open>KeepAlive\<close>: the branches its \<open>select\<close> takes, the closing of \<open>done\<close> or a tick with the
  outcome of its write; the pings sent.
\<close>

datatype keepalive_event = Done | KATick bool

fun KeepAlive :: "keepalive_event list \<Rightarrow> ws_message list" where
  "KeepAlive [] = []"
| "KeepAlive (Done # es) = []"
| "KeepAlive (KATick ok # es) =
     (if ok then TextMessage (Some (marshal_control MsgPing)) # KeepAlive es else [])"

text \<open>
  \<open>Close\<close> sends a close frame with code and reason, whatever becomes of it, and closes the
  connection; \<open>closed\<close> is the outcome of the latter.
\<close>

definition Close :: "unit result \<Rightarrow> (int \<times> string) \<times> unit result" where
  "Close closed = ((1000, ''bye''), closed)"

section \<open>The pump\<close>

definition virtioHeadroom :: int where "virtioHeadroom = 80"

text \<open>The read buffers: \<open>make\<close> panics on a negative length.\<close>

definition pump_buffer :: "tunnel \<Rightarrow> bytes result" where
  "pump_buffer t =
     (let n = wrap64 (t_MTU t + virtioHeadroom)
      in if n < 0 then Panic ''makeslice: len out of range'' else Ok (replicate (nat n) 0))"

text \<open>
  Device to server: the packets of one batch, each with its padding and the outcome of
  its write; empty ones are skipped and the first failing write ends the pump.
\<close>

fun pump_batch :: "crypto \<Rightarrow> tunnel \<Rightarrow> (bytes \<times> (byte \<times> byte \<times> (nat \<Rightarrow> bytes)) \<times> unit result) list
    \<Rightarrow> unit result \<times> tunnel \<times> ws_message list" where
  "pump_batch cr t [] = (Ok (), t, [])"
| "pump_batch cr t ((pkt, pr, written) # ps) =
     (if pkt = [] then pump_batch cr t ps
      else case WritePacket cr t pkt pr written of
             (Ok _, t1, out) \<Rightarrow>
               (let (r, t2, outs) = pump_batch cr t1 ps in (r, t2, case out of Some m \<Rightarrow> m # outs | None \<Rightarrow> outs))
           | (r, t1, _) \<Rightarrow> (r, t1, []))"

fun pump_up :: "crypto \<Rightarrow> tunnel \<Rightarrow> (bytes \<times> (byte \<times> byte \<times> (nat \<Rightarrow> bytes)) \<times> unit result) list result list
    \<Rightarrow> unit result \<times> tunnel \<times> ws_message list" where
  "pump_up cr t [] = (Ok (), t, [])"
| "pump_up cr t (Ok batch # bs) =
     (case pump_batch cr t batch of
        (Ok _, t1, out) \<Rightarrow> (let (r, t2, outs) = pump_up cr t1 bs in (r, t2, out @ outs))
      | (r, t1, out) \<Rightarrow> (r, t1, out))"
| "pump_up cr t (Err e # bs) = (Err e, t, [])"
| "pump_up cr t (Panic e # bs) = (Panic e, t, [])"

text \<open>
  Server to device: each packet read is written to the device, whose outcome for the
  \<open>k\<close>-th packet is \<open>dev k\<close>; \<open>Ok\<close> when the messages have run out.
\<close>

lemma ReadPacket_shorter: "ReadPacket cr t ms = Some (r, t', ms') \<Longrightarrow> length ms' < length ms"
  by (induction cr t ms rule: ReadPacket.induct) (auto split: prod.splits result.splits)

function pump_down :: "crypto \<Rightarrow> (nat \<Rightarrow> unit result) \<Rightarrow> nat \<Rightarrow> tunnel \<Rightarrow> ws_message result list
    \<Rightarrow> unit result \<times> tunnel \<times> bytes list" where
  "pump_down cr dev k t ms =
     (case ReadPacket cr t ms of
        None \<Rightarrow> (Ok (), t, [])
      | Some (Ok pkt, t1, ms1) \<Rightarrow>
          (case dev k of
             Ok _ \<Rightarrow> (let (r, t2, ps) = pump_down cr dev (Suc k) t1 ms1 in (r, t2, pkt # ps))
           | r \<Rightarrow> (r, t1, []))
      | Some (Err e, t1, ms1) \<Rightarrow> (Err e, t1, [])
      | Some (Panic e, t1, ms1) \<Rightarrow> (Panic e, t1, []))"
  by pat_completeness auto
termination
  by (relation "measure (\<lambda>(cr, dev, k, t, ms). length ms)") (auto dest: ReadPacket_shorter)

declare pump_down.simps [simp del]

text \<open>
  \<open>pump\<close> returns the first error of its two directions, and waits while both run (\<open>Ok\<close>);
  \<open>up_first\<close> says which came first when both have ended.
\<close>

definition pump :: "unit result \<Rightarrow> unit result \<Rightarrow> bool \<Rightarrow> unit result option" where
  "pump up down up_first =
     (case (is_Ok up, is_Ok down) of
        (True, True) \<Rightarrow> None
      | (True, False) \<Rightarrow> Some down
      | (False, True) \<Rightarrow> Some up
      | (False, False) \<Rightarrow> Some (if up_first then up else down))"

lemma pump_returns_error: "pump up down first = Some r \<Longrightarrow> \<not> is_Ok r"
  by (auto simp: pump_def split: bool.splits if_splits)

section \<open>Lemmas\<close>

text \<open>The data frames among the messages of a connection.\<close>

fun binaries :: "ws_message list \<Rightarrow> bytes list" where
  "binaries [] = []"
| "binaries (BinaryMessage d # ms) = d # binaries ms"
| "binaries (TextMessage _ # ms) = binaries ms"

lemma binaries_map [simp]: "binaries (map BinaryMessage fs) = fs"
  by (induction fs) auto

lemma pump_down_text: "pump_down cr dev k t (Ok (TextMessage d) # ms) = pump_down cr dev k t ms"
  by (subst (1 2) pump_down.simps) simp

text \<open>
  As long as every frame opens and the device takes every packet, the pump writes the
  opened packets to the device, in order.
\<close>

lemma pump_down_delivers:
  assumes "fst (open_all cr (t_session t) (binaries ms)) = map Ok pkts"
  shows "\<exists>t'. pump_down cr (\<lambda>_. Ok ()) k t (map Ok ms) = (Ok (), t', pkts) \<and>
    rxBytes t' = rxBytes t + word_of_nat (sum_list (map length pkts)) \<and>
    t_session t' = snd (open_all cr (t_session t) (binaries ms))"
  using assms
proof (induction ms arbitrary: t pkts k rule: binaries.induct)
  case 1
  then show ?case by (simp add: pump_down.simps)
next
  case (2 d ms)
  obtain r s where o: "Open cr (t_session t) d = (r, s)" by fastforce
  with "2.prems" obtain pkt pkts' where p: "pkts = pkt # pkts'" "r = Ok pkt"
    "fst (open_all cr s (binaries ms)) = map Ok pkts'"
    by auto
  let ?t = "t\<lparr>t_session := s, rxBytes := rxBytes t + word_of_nat (length pkt)\<rparr>"
  from p(3) have p3: "fst (open_all cr (t_session ?t) (binaries ms)) = map Ok pkts'" by simp
  from "2.IH" [OF p3, of "Suc k"] o p(1,2) show ?case
    by (subst pump_down.simps) (auto simp: add.assoc)
next
  case (3 d ms)
  then show ?case by (simp add: pump_down_text)
qed

text \<open>What the pump sends: the frames of the non-empty packets, in order.\<close>

definition sent_msgs ::
  "(bytes \<times> (byte \<times> byte \<times> (nat \<Rightarrow> bytes)) \<times> unit result) list \<Rightarrow> (bytes \<times> bytes) list" where
  "sent_msgs ps =
     map (\<lambda>(pkt, (b0, b1, fill), _). (pkt, randPad b0 b1 fill)) (filter (\<lambda>(pkt, _). pkt \<noteq> []) ps)"

lemma pump_batch_sends:
  assumes "\<forall>p \<in> set ps. snd (snd p) = Ok ()"
  shows "\<exists>t'. pump_batch cr t ps =
      (Ok (), t', map BinaryMessage (fst (seal_all cr (t_session t) (sent_msgs ps)))) \<and>
    t_session t' = snd (seal_all cr (t_session t) (sent_msgs ps))"
  using assms
proof (induction ps arbitrary: t)
  case Nil
  then show ?case by (simp add: sent_msgs_def)
next
  case (Cons p ps)
  obtain pkt b0 b1 fill written where p: "p = (pkt, (b0, b1, fill), written)" by (cases p) auto
  show ?case
  proof (cases "pkt = []")
    case True
    with Cons p show ?thesis by (simp add: sent_msgs_def)
  next
    case False
    let ?f = "fst (sealRaw cr (t_session t) pkt (randPad b0 b1 fill))"
      and ?s = "snd (sealRaw cr (t_session t) pkt (randPad b0 b1 fill))"
    let ?t = "t\<lparr>t_session := ?s, txBytes := txBytes t + word_of_nat (length pkt)\<rparr>"
    have w: "WritePacket cr t pkt (b0, b1, fill) written = (Ok (), ?t, Some (BinaryMessage ?f))"
      using Cons.prems p by (simp add: WritePacket_def Seal_def Let_def case_prod_beta)
    with Cons.IH [of ?t] Cons.prems False p show ?thesis by (auto simp: sent_msgs_def)
  qed
qed

end
