(* ===== verification/Channel.thy ===== *)
theory Channel
  imports Server ClientTunnel
begin

text \<open>
  Client and server put together: the handshake between \<open>internal/client/tunnel.go\<close> and
  \<open>internal/server/server.go\<close>, and the two directions of packet flow through the pump, the
  frames on the wire, and the loops of the server.
\<close>

section \<open>Subsequences\<close>

lemma subseq_mapD:
  assumes "subseq xs (map f ys)"
  shows "\<exists>zs. subseq zs ys \<and> xs = map f zs"
  using assms
proof (induction ys arbitrary: xs)
  case (Cons y ys)
  show ?case
  proof (cases xs)
    case Nil
    then show ?thesis by (intro exI [of _ "[]"]) simp
  next
    case (Cons x xs')
    note xs = this
    show ?thesis
    proof (cases "x = f y")
      case True
      with Cons.prems xs have "subseq xs' (map f ys)" by simp
      from Cons.IH [OF this] obtain zs where "subseq zs ys" "xs' = map f zs" by blast
      with True xs show ?thesis by (intro exI [of _ "y # zs"]) simp
    next
      case False
      with Cons.prems xs have "subseq xs (map f ys)" by simp
      from Cons.IH [OF this] obtain zs where "subseq zs ys" "xs = map f zs" by blast
      then show ?thesis by (intro exI [of _ zs]) auto
    qed
  qed
next
  case Nil
  then have "xs = []" by (auto elim: list_emb.cases)
  then show ?case by simp
qed

section \<open>Sending\<close>

lemma seal_all_append:
  "seal_all cr s (xs @ ys) =
     (fst (seal_all cr s xs) @ fst (seal_all cr (snd (seal_all cr s xs)) ys),
      snd (seal_all cr (snd (seal_all cr s xs)) ys))"
proof (induction xs arbitrary: s)
  case (Cons x xs)
  then show ?case by (cases x) simp
qed simp

lemma length_seal_all [simp]: "length (fst (seal_all cr s ms)) = length ms"
proof (induction ms arbitrary: s)
  case (Cons m ms)
  then show ?case by (cases m) simp
qed simp

lemma sent_msgs_append: "sent_msgs (ps @ qs) = sent_msgs ps @ sent_msgs qs"
  by (simp add: sent_msgs_def)

lemma pump_up_sends:
  assumes "\<forall>b \<in> set bs. \<forall>p \<in> set b. snd (snd p) = Ok ()"
  shows "\<exists>t'. pump_up cr t (map Ok bs) =
      (Ok (), t', map BinaryMessage (fst (seal_all cr (t_session t) (sent_msgs (concat bs))))) \<and>
    t_session t' = snd (seal_all cr (t_session t) (sent_msgs (concat bs)))"
  using assms
proof (induction bs arbitrary: t)
  case Nil
  then show ?case by (simp add: sent_msgs_def)
next
  case (Cons b bs)
  from Cons.prems pump_batch_sends [of b cr t] obtain t1
    where t1: "pump_batch cr t b = (Ok (), t1, map BinaryMessage (fst (seal_all cr (t_session t) (sent_msgs b))))"
      "t_session t1 = snd (seal_all cr (t_session t) (sent_msgs b))"
    by auto
  from Cons.IH [of t1] Cons.prems obtain t2
    where "pump_up cr t1 (map Ok bs) =
        (Ok (), t2, map BinaryMessage (fst (seal_all cr (t_session t1) (sent_msgs (concat bs)))))"
      "t_session t2 = snd (seal_all cr (t_session t1) (sent_msgs (concat bs)))"
    by auto
  with t1 show ?case by (simp add: sent_msgs_append seal_all_append)
qed

section \<open>The server's reader\<close>

definition forwardable :: "u32 \<Rightarrow> bytes \<Rightarrow> bool" where
  "forwardable k pkt \<longleftrightarrow> 20 \<le> length pkt \<and> ip_version pkt = 4 \<and> ip_src pkt = k"

lemma readLoop_forwards:
  assumes "fst (open_all cr (c_session c) fs) = map Ok pkts"
  shows "\<exists>c'. readLoop cr c (map (Ok \<circ> BinaryMessage) fs) =
      (filter (forwardable (c_ipKey c)) pkts, Continue c') \<and>
    c_ipKey c' = c_ipKey c \<and> c_session c' = snd (open_all cr (c_session c) fs)"
  using assms
proof (induction fs arbitrary: c pkts)
  case (Cons f fs)
  obtain r s where o: "Open cr (c_session c) f = (r, s)" by fastforce
  with Cons.prems obtain pkt pkts' where p: "pkts = pkt # pkts'" "r = Ok pkt"
    "fst (open_all cr s fs) = map Ok pkts'"
    by auto
  let ?c = "c\<lparr>c_session := s\<rparr>"
  have step: "read_step cr c (Ok (BinaryMessage f)) =
      (Continue ?c, if forwardable (c_ipKey c) pkt then Some pkt else None)"
    using o p(2) by (auto simp: read_step_def forwardable_def Let_def not_le)
  from Cons.IH [of ?c pkts'] p step o show ?case by auto
qed simp

section \<open>The server's writer\<close>

text \<open>What a peer sees of the writer's messages: pings are WebSocket control frames.\<close>

fun on_wire :: "ws_out list \<Rightarrow> ws_message list" where
  "on_wire [] = []"
| "on_wire (OutText j # ms) = TextMessage (Some j) # on_wire ms"
| "on_wire (OutBinary f # ms) = BinaryMessage f # on_wire ms"
| "on_wire (OutPing # ms) = on_wire ms"

fun queued :: "bytes option list \<Rightarrow> bytes list" where
  "queued [] = []"
| "queued (None # q) = queued q"
| "queued (Some f # q) = f # queued q"

lemma queued_append [simp]: "queued (p @ q) = queued p @ queued q"
  by (induction p rule: queued.induct) auto

fun delivered :: "client_event list \<Rightarrow> (bytes \<times> bytes) list" where
  "delivered [] = []"
| "delivered (Deliver pkt (b0, b1, fill) # es) = (pkt, randPad b0 b1 fill) # delivered es"
| "delivered (Write e # es) = delivered es"

lemma tun_deliver_conv:
  "tun_deliver cr pkt (b0, b1, fill) c =
     enqueue (Some (fst (sealRaw cr (c_session c) pkt (randPad b0 b1 fill))))
       (c\<lparr>c_session := snd (sealRaw cr (c_session c) pkt (randPad b0 b1 fill))\<rparr>)"
  by (simp add: tun_deliver_def Seal_def Let_def case_prod_beta)

text \<open>The frames written are, in order, among those sealed for the client.\<close>

lemma writeLoop_subseq:
  "subseq (binaries (on_wire (fst (writeLoop cr c es))))
     (queued (c_send c) @ fst (seal_all cr (c_session c) (delivered es)))"
proof (induction es arbitrary: c)
  case (Cons e es)
  show ?case
  proof (cases e)
    case (Deliver pkt pr)
    obtain b0 b1 fill where pr: "pr = (b0, b1, fill)" by (cases pr) auto
    let ?f = "fst (sealRaw cr (c_session c) pkt (randPad b0 b1 fill))"
      and ?s = "snd (sealRaw cr (c_session c) pkt (randPad b0 b1 fill))"
    let ?c = "tun_deliver cr pkt pr c"
    have "subseq (queued (c_send ?c)) (queued (c_send c) @ [?f])"
      by (auto simp: pr tun_deliver_conv enqueue_def)
    then have "subseq (queued (c_send ?c) @ fst (seal_all cr ?s (delivered es)))
        ((queued (c_send c) @ [?f]) @ fst (seal_all cr ?s (delivered es)))"
      by (rule list_emb_append_mono) simp
    moreover have "c_session ?c = ?s" by (simp add: pr tun_deliver_conv)
    ultimately show ?thesis
      using Cons.IH [of ?c] by (auto simp: Deliver pr intro: subseq_order.trans)
  next
    case (Write w)
    then show ?thesis
      using Cons.IH [of c] Cons.IH [of "c\<lparr>c_send := tl (c_send c)\<rparr>"]
      by (auto simp: write_step_def client_close_def case_prod_beta
          split: write_event.splits list.splits option.splits)
  qed
qed simp

text \<open>
  A writer that is neither closed nor failing loses nothing while the channel has room for
  what is delivered: every frame is on the wire or still queued.
\<close>

fun steady :: "client_event \<Rightarrow> bool" where
  "steady (Deliver _ _) = True"
| "steady (Write Closed) = False"
| "steady (Write (Dequeued ok)) = ok"
| "steady (Write (Tick ok)) = ok"

lemma writeLoop_conserves:
  assumes "length (c_send c) + length (delivered es) \<le> sendCap" "list_all steady es"
  shows "\<exists>c'. snd (writeLoop cr c es) = Continue c' \<and>
    binaries (on_wire (fst (writeLoop cr c es))) @ queued (c_send c') =
      queued (c_send c) @ fst (seal_all cr (c_session c) (delivered es))"
  using assms
proof (induction es arbitrary: c)
  case (Cons e es)
  show ?case
  proof (cases e)
    case (Deliver pkt pr)
    obtain b0 b1 fill where pr: "pr = (b0, b1, fill)" by (cases pr) auto
    let ?c = "tun_deliver cr pkt pr c"
    have "c_send ?c = c_send c @ [Some (fst (sealRaw cr (c_session c) pkt (randPad b0 b1 fill)))]"
      using Cons.prems(1) by (simp add: Deliver pr tun_deliver_conv enqueue_def)
    moreover have "c_session ?c = snd (sealRaw cr (c_session c) pkt (randPad b0 b1 fill))"
      by (simp add: pr tun_deliver_conv)
    ultimately show ?thesis
      using Cons.IH [of ?c] Cons.prems by (simp add: Deliver pr)
  next
    case (Write w)
    show ?thesis
    proof (cases w)
      case (Dequeued ok)
      then show ?thesis
        using Cons.IH [of c] Cons.IH [of "c\<lparr>c_send := tl (c_send c)\<rparr>"] Cons.prems Write
        by (cases "c_send c"; cases "hd (c_send c)") (auto simp: write_step_def case_prod_beta)
    qed (use Cons Write in \<open>auto simp: write_step_def case_prod_beta\<close>)
  qed
qed simp

section \<open>Delivery\<close>

text \<open>Any ordered selection of the frames is received as the selection of the packets.\<close>

lemma received_selection:
  assumes "aead_correct cr" "in_step n tx rx" "n + length ms \<le> 2 ^ 64"
    and "\<forall>m \<in> set ms. length (fst m) < 65536" "subseq fs (fst (seal_all cr tx ms))"
  shows "\<exists>pkts. fst (open_all cr rx fs) = map Ok pkts \<and> subseq pkts (map fst ms) \<and>
    (fs = fst (seal_all cr tx ms) \<longrightarrow> pkts = map fst ms)"
proof -
  let ?z = "zip (fst (seal_all cr tx ms)) (map fst ms)"
  have z: "map fst ?z = fst (seal_all cr tx ms)" "map snd ?z = map fst ms" by simp_all
  show ?thesis
  proof (cases "fs = fst (seal_all cr tx ms)")
    case True
    from stream_delivery [OF assms(1-4) subseq_order.refl]
    have "fst (open_all cr rx (map fst ?z)) = map Ok (map snd ?z)" by (simp only: map_map)
    with True show ?thesis unfolding z by (intro exI [of _ "map fst ms"]) simp
  next
    case False
    from assms(5) z(1) have "subseq fs (map fst ?z)" by simp
    then obtain ds where ds: "subseq ds ?z" "fs = map fst ds"
      using subseq_mapD by blast
    have "subseq (map snd ds) (map snd ?z)" using ds(1) by (rule subseq_map)
    with stream_delivery [OF assms(1-4) ds(1)] ds z(2) False show ?thesis
      by (intro exI [of _ "map snd ds"]) simp
  qed
qed

section \<open>A concrete channel\<close>

text \<open>The two ends of a toy channel in the middle of its life.\<close>

definition toy_client :: tclient where
  "toy_client = new_client (toy_session True) (uint32ToIP 0x0A420002) ''demo''"

definition toy_tunnel :: tunnel where
  "toy_tunnel = \<lparr>t_session = toy_session False, rxBytes = 0, txBytes = 0, LocalIP = ''10.66.0.2'',
     t_Mask = 24, t_Gateway = ''10.66.0.1'', t_DNS = [], t_MTU = 1400, readLimit = 2680\<rparr>"

definition toy_packet :: "u32 \<Rightarrow> u32 \<Rightarrow> bytes" where
  "toy_packet a b = [0x45] @ replicate 11 0 @ put_be32 a @ put_be32 b"

definition toy_pad :: pad_rand where
  "toy_pad = (0, 5, \<lambda>n. replicate n 1)"

text \<open>An honest client and the server agree.\<close>

lemma hello_accepted_with_key:
  assumes "length salt = SaltLen" "0 \<le> ts" "ts < 2 ^ 62" "0 \<le> unix now" "unix now < 2 ^ 62"
    "\<bar>unix now - ts\<bar> \<le> AuthWindow"
  shows "check_hello cfg now (Ok (TextMessage (Some (marshal_hello (client_hello (PSK cfg) salt ts))))) =
    Ok (client_hello (PSK cfg) salt ts, salt)"
proof -
  have int: "in_int64 ts" using assms by (auto simp: in_int64_def)
  moreover have "\<not> stale now ts" using stale_iff [OF int assms(4,5)] assms(6) by simp
  ultimately show ?thesis
    using assms(1) by (simp add: check_hello_Ok unmarshal_client_hello) (simp add: good_hello_def client_hello_def)
qed

lemma handshake_agrees:
  assumes psk: "PSK (srv_cfg srv) = psk" and pool: "pool_wf (srv_pool srv)"
      "pool_assigned (srv_pool srv) \<noteq> usable (srv_pool srv)"
    and rands: "rand_c SaltLen = Ok cs" "length cs = SaltLen" "rand_s SaltLen = Ok ss" "length ss = SaltLen"
    and keys: "is_Ok (DeriveSession cr psk cs ss True)"
    and clock: "0 \<le> ts" "ts < 2 ^ 62" "0 \<le> unix now" "unix now < 2 ^ 62" "\<bar>unix now - ts\<bar> \<le> AuthWindow"
    and fresh: "\<not> guard_live (srv_replay srv) (EncodeToString StdEncoding cs, ts) now'"
      "guard_wf (srv_replay srv)"
    and cfg: "in_int64 (MTU (srv_cfg srv))" "Ones (srv_pool srv) \<le> 128"
  shows "\<exists>c w srv' t.
    handshake cr rand_s now now' (Ok (TextMessage (Some (marshal_hello (client_hello psk cs ts)))))
      (\<lambda>_. Ok ()) srv = (Ok c, srv') \<and>
    client_handshake cr rand_c ts psk (\<lambda>_. Ok (Ok (marshal_welcome w))) = Ok t \<and>
    w = make_welcome srv ss (c_ip c) \<and>
    in_step 0 (t_session t) (c_session c) \<and> in_step 0 (c_session c) (t_session t) \<and>
    LocalIP t = IP_String (c_ip c) \<and> t_MTU t = MTU (srv_cfg srv) \<and> t_Gateway t = json_text (Gateway (srv_cfg srv)) \<and>
    t_DNS t = map json_text (DNS (srv_cfg srv)) \<and> c_send c = []"
proof -
  let ?h = "client_hello psk cs ts" and ?salt = "EncodeToString StdEncoding cs"
  let ?g = "snd (observe (srv_replay srv) now' ?salt ts)"
  let ?srv1 = "srv\<lparr>srv_replay := ?g\<rparr>"
  have good: "check_hello (srv_cfg srv) now (Ok (TextMessage (Some (marshal_hello ?h)))) = Ok (?h, cs)"
    using hello_accepted_with_key [OF rands(2) clock, of "srv_cfg srv"] psk by simp
  have "fst (observe (srv_replay srv) now' ?salt ts)"
    using fresh guard.obs_fresh [OF fresh(2), of now' "(?salt, ts)"] by (simp add: guard_obs_def)
  with good have auth: "handshake_auth now now' (Ok (TextMessage (Some (marshal_hello ?h)))) srv =
      (Ok (?h, cs), ?srv1)"
    by (simp add: handshake_auth_Ok client_hello_def)
  obtain s where s: "DeriveSession cr psk cs ss True = Ok s" using keys by (auto simp: is_Ok_conv)
  obtain s' where s': "DeriveSession cr psk cs ss False = Ok s'"
    using keys DeriveSession_same_outcome [of cr psk cs ss] by (auto simp: is_Ok_conv)
  have "pool_used (srv_pool srv) \<noteq> pool_avail (srv_pool srv)"
    using pool(2) by (auto simp: inj_image_eq_iff inj_def)
  then obtain ip p where ip: "Allocate (srv_pool srv) = (Ok ip, p)"
    using pool.alloc_succeeds_iff [OF pool(1)] by (metis is_Ok_conv prod.collapse)
  let ?c = "new_client s ip (hello_name ?h)" and ?w = "make_welcome srv ss ip"
  have alloc: "handshake_alloc cr rand_s ?h cs ?srv1 = (Ok (?c, ?w), ?srv1\<lparr>srv_pool := p\<rparr>)"
    using rands s ip psk by (simp add: handshake_alloc_def RandBytes_def make_welcome_def)
  have srv: "handshake cr rand_s now now' (Ok (TextMessage (Some (marshal_hello ?h)))) (\<lambda>_. Ok ()) srv =
      (Ok ?c, ?srv1\<lparr>srv_pool := p\<rparr>)"
    by (simp add: handshake_def auth alloc handshake_finish_def)
  obtain k where k: "ip = uint32ToIP k" using pool.alloc_Ok [OF pool(1) ip] by blast
  then have nonempty: "IP_String ip \<noteq> []"
    by (simp add: IP_String_def uint32ToIP_def put_be32_def To4_def dotted_def)
  have plain: "json_text (IP_String ip) = IP_String ip"
    using k by (simp add: IP_String_def uint32ToIP_def To4_def dotted_ascii)
  have w: "unmarshal_welcome (marshal_welcome ?w) = Some (welcome_text ?w)"
    using cfg by (intro unmarshal_marshal_welcome) (simp_all add: make_welcome_def in_int64_def)
  have "\<exists>t. client_handshake cr rand_c ts psk (\<lambda>_. Ok (Ok (marshal_welcome ?w))) = Ok t \<and>
      t_session t = s' \<and> LocalIP t = IP_String ip \<and> t_MTU t = MTU (srv_cfg srv) \<and>
      t_Gateway t = json_text (Gateway (srv_cfg srv)) \<and> t_DNS t = map json_text (DNS (srv_cfg srv))"
    using rands nonempty s' plain
    by (simp add: client_handshake_def RandBytes_def client_finish_def w)
      (simp add: make_welcome_def welcome_text_def, simp add: MsgWelcome_def MsgError_def)
  moreover note DeriveSession_mirror [OF s s']
  ultimately show ?thesis using srv by (fastforce simp: new_client_def)
qed

text \<open>
  The downlink: what the writer puts on the wire for the packets delivered to a client is
  received as a selection of them in order, and as all of them when nothing was dropped.
\<close>

lemma downlink_delivers:
  assumes "aead_correct cr" "in_step n (c_session c) (t_session t)" "c_send c = []"
    and "\<forall>m \<in> set (delivered es). length (fst m) < 65536" "n + length (delivered es) \<le> 2 ^ 64"
    and "writeLoop cr c es = (out, l)"
  shows "\<exists>pkts t'. pump_down cr (\<lambda>_. Ok ()) 0 t (map Ok (on_wire out)) = (Ok (), t', pkts) \<and>
    subseq pkts (map fst (delivered es)) \<and>
    (length (delivered es) \<le> sendCap \<and> list_all steady es \<and> c_send (loop_state l) = [] \<longrightarrow>
       pkts = map fst (delivered es))"
proof -
  let ?all = "fst (seal_all cr (c_session c) (delivered es))"
  have "subseq (binaries (on_wire out)) ?all"
    using writeLoop_subseq [of cr c es] assms(3,6) by simp
  from received_selection [OF assms(1,2,5,4) this] obtain pkts
    where pkts: "fst (open_all cr (t_session t) (binaries (on_wire out))) = map Ok pkts"
      "subseq pkts (map fst (delivered es))"
      "binaries (on_wire out) = ?all \<longrightarrow> pkts = map fst (delivered es)" by blast
  have "binaries (on_wire out) = ?all"
    if "length (delivered es) \<le> sendCap" "list_all steady es" "c_send (loop_state l) = []"
    using writeLoop_conserves [of c es cr] assms(3,6) that by auto
  with pkts pump_down_delivers [OF pkts(1), of 0] show ?thesis by blast
qed

text \<open>Deliveries that come first, and a writer that empties the channel after them.\<close>

definition deliver_all :: "crypto \<Rightarrow> (bytes \<times> pad_rand) list \<Rightarrow> tclient \<Rightarrow> tclient" where
  "deliver_all cr rs c = fold (\<lambda>(pkt, pr). tun_deliver cr pkt pr) rs c"

lemma writeLoop_deliveries:
  "writeLoop cr c (map (\<lambda>(pkt, pr). Deliver pkt pr) rs @ es) = writeLoop cr (deliver_all cr rs c) es"
  by (induction rs arbitrary: c) (auto simp: deliver_all_def)

lemma delivered_deliveries:
  "map fst (delivered (map (\<lambda>(pkt, pr). Deliver pkt pr) rs @ replicate k (Write e))) = map fst rs"
proof (induction rs)
  case Nil
  have "delivered (replicate k (Write e)) = []" by (induction k) simp_all
  then show ?case by simp
next
  case (Cons r rs)
  then show ?case by (cases r) auto
qed

lemma writer_empties:
  "length (c_send c) \<le> k \<Longrightarrow>
    \<exists>c'. snd (writeLoop cr c (replicate k (Write (Dequeued True)))) = Continue c' \<and> c_send c' = []"
proof (induction k arbitrary: c)
  case (Suc k)
  then show ?case
    using Suc.IH [of c] Suc.IH [of "c\<lparr>c_send := tl (c_send c)\<rparr>"]
    by (auto simp: write_step_def case_prod_beta split: list.splits option.splits)
qed simp

lemma deliver_all_queue: "length (c_send (deliver_all cr rs c)) \<le> length (c_send c) + length rs"
proof (induction rs arbitrary: c)
  case (Cons r rs)
  obtain pkt b0 b1 fill where r: "r = (pkt, b0, b1, fill)" by (cases r) auto
  have "length (c_send (tun_deliver cr pkt (b0, b1, fill) c)) \<le> Suc (length (c_send c))"
    by (simp add: tun_deliver_conv enqueue_def)
  then show ?case using Cons.IH [of "tun_deliver cr pkt (b0, b1, fill) c"] by (simp add: r deliver_all_def)
qed (simp add: deliver_all_def)

text \<open>Packets that fit into the channel reach the client's device.\<close>

lemma queue_reaches_device:
  assumes "aead_correct cr" "in_step k (c_session c) (t_session t)" "c_send c = []"
    and "\<forall>r \<in> set rs. length (fst r) < 65536" "k + length rs \<le> 2 ^ 64" "length rs \<le> sendCap"
    and "writeLoop cr (deliver_all cr rs c) (replicate (length rs) (Write (Dequeued True))) = (out, l)"
  shows "\<exists>t'. pump_down cr (\<lambda>_. Ok ()) 0 t (map Ok (on_wire out)) = (Ok (), t', map fst rs)"
proof -
  let ?es = "map (\<lambda>(pkt, pr). Deliver pkt pr) rs @ replicate (length rs) (Write (Dequeued True))"
  have run: "writeLoop cr c ?es = (out, l)" using assms(7) by (simp add: writeLoop_deliveries)
  have d: "map fst (delivered ?es) = map fst rs" by (rule delivered_deliveries)
  then have len: "length (delivered ?es) = length rs" by (metis length_map)
  have "fst ` set (delivered ?es) = fst ` set rs" using d by (metis list.set_map)
  then have small: "\<forall>m \<in> set (delivered ?es). length (fst m) < 65536"
    using assms(4) by (metis (no_types, lifting) imageE imageI)
  have steady: "list_all steady ?es" by (auto simp: list_all_iff)
  have "length (c_send (deliver_all cr rs c)) \<le> length rs" using deliver_all_queue [of cr rs c] assms(3) by simp
  from writer_empties [OF this, of cr] assms(7) have "c_send (loop_state l) = []" by auto
  with downlink_delivers [OF assms(1-3) small _ run] assms(5,6) len steady d show ?thesis by auto
qed

section \<open>Properties\<close>



text \<open>C2: packets from client to server. Whatever batches of packets the device delivers, the
  server forwards to its TUN device exactly those that are IPv4 packets with the client's own
  address as source, unchanged and in order, and the connection stays up.\<close>

theorem uplink_delivery:
  assumes "aead_correct cr" "in_step n (t_session t) (c_session c)"
    and "\<forall>b \<in> set bs. \<forall>p \<in> set b. snd (snd p) = Ok () \<and> length (fst p) < 65536"
    and "n + length (concat bs) \<le> 2 ^ 64"
    and "pump_up cr t (map Ok bs) = (r, t', out)"
  shows "r = Ok () \<and> (\<exists>c'. readLoop cr c (map Ok out) =
    (filter (forwardable (c_ipKey c)) (map fst (concat bs)), Continue c'))"
proof -
  let ?ms = "sent_msgs (concat bs)" and ?fs = "fst (seal_all cr (t_session t) (sent_msgs (concat bs)))"
  from assms(3,5) pump_up_sends [of bs cr t] have out: "r = Ok ()" "out = map BinaryMessage ?fs" by auto
  have "length ?ms \<le> length (concat bs)" by (simp add: sent_msgs_def)
  with assms(4) have n: "n + length ?ms \<le> 2 ^ 64" by linarith
  have short: "\<forall>m \<in> set ?ms. length (fst m) < 65536" using assms(3) by (fastforce simp: sent_msgs_def)
  from received_selection [OF assms(1,2) n short subseq_order.refl]
  have "fst (open_all cr (c_session c) ?fs) = map Ok (map fst ?ms)" by auto
  from readLoop_forwards [OF this] obtain c' where
    "readLoop cr c (map (Ok \<circ> BinaryMessage) ?fs) =
      (filter (forwardable (c_ipKey c)) (map fst ?ms), Continue c')" by blast
  moreover have "map fst ?ms = filter (\<lambda>pkt. pkt \<noteq> []) (map fst (concat bs))"
    by (simp add: sent_msgs_def filter_map o_def case_prod_unfold)
  moreover have "filter (forwardable k) (filter (\<lambda>pkt. pkt \<noteq> []) ps) = filter (forwardable k) ps" for k ps
    by (induction ps) (auto simp: forwardable_def)
  ultimately show ?thesis using out by (simp add: o_def)
qed

theorem uplink_delivery_witness:
  "\<exists>out c'. readLoop toy_crypto toy_client (map Ok out) =
    ([toy_packet 0x0A420002 1], Continue c') \<and> length out = 2"
proof -
  let ?bs = "[[(toy_packet 0x0A420002 1, toy_pad, Ok ()), ([], toy_pad, Ok ())],
      [(toy_packet 0x0A420003 1, toy_pad, Ok ())]]"
  obtain r t' out where run: "pump_up toy_crypto toy_tunnel (map Ok ?bs) = (r, t', out)"
    by (metis prod_cases3)
  have "r = Ok () \<and> (\<exists>c'. readLoop toy_crypto toy_client (map Ok out) =
      (filter (forwardable (c_ipKey toy_client)) (map fst (concat ?bs)), Continue c'))"
    by (rule uplink_delivery [OF toy_correct _ _ _ run, of 0])
      (use toy_in_step [of False] in \<open>auto simp: toy_client_def toy_tunnel_def new_client_def toy_packet_def\<close>)
  moreover have "length out = 2"
    using run pump_up_sends [of ?bs toy_crypto toy_tunnel] by (auto simp: sent_msgs_def toy_pad_def toy_packet_def)
  moreover have "forwardable 0x0A420002 (toy_packet a b) \<longleftrightarrow> a = 0x0A420002" "\<not> forwardable k []" for a b k
    by (auto simp: forwardable_def toy_packet_def ip_version_def ip_src_def)
  ultimately show ?thesis by (auto simp: toy_client_def new_client_def)
qed



end
