(* ===== verification/HostCommands.thy ===== *)
theory HostCommands
  imports GoStrings
begin

text \<open>
  Sequences of host commands with an undo list, the pattern shared by the server's packet
  filter rules and the client's routes: run the steps in order, note for each that succeeded
  how to undo it, stop at the first failure; later run the notes backwards. What a host holds
  is read by a function \<open>view\<close>; a step adds at most one entry to it.
\<close>

text \<open>
  \<open>run\<close> of the sources: \<open>exec\<close> runs a command line and gives its combined output and its
  error, if any. In what follows a host's commands are given as \<open>run exec\<close>.
\<close>

definition run_command ::
  "(string list \<Rightarrow> 'h \<Rightarrow> (string \<times> string option) \<times> 'h) \<Rightarrow> string list \<Rightarrow> 'h \<Rightarrow> unit result \<times> 'h" where
  "run_command exec args h =
     (case exec args h of
        ((out, None), h1) \<Rightarrow> (Ok (), h1)
      | ((out, Some e), h1) \<Rightarrow> (Err (Join args '' '' @ '': '' @ e @ '': '' @ TrimSpace out), h1))"

lemma run_command_Ok: "is_Ok (fst (run_command exec args h)) \<longleftrightarrow> snd (fst (exec args h)) = None"
  by (auto simp: run_command_def split: prod.splits option.splits)

fun run_steps ::
  "('s \<Rightarrow> 'h \<Rightarrow> unit result \<times> 'h) \<Rightarrow> ('s \<Rightarrow> 'u) \<Rightarrow> 's list \<Rightarrow> 'u list \<Rightarrow> 'h \<Rightarrow> unit result \<times> 'u list \<times> 'h"
where
  "run_steps exec undo_of [] applied h = (Ok (), applied, h)"
| "run_steps exec undo_of (s # ss) applied h =
     (case exec s h of
        (Ok _, h1) \<Rightarrow> run_steps exec undo_of ss (applied @ [undo_of s]) h1
      | (e, h1) \<Rightarrow> (e, applied, h1))"

definition run_undo :: "('u \<Rightarrow> 'h \<Rightarrow> 'h) \<Rightarrow> 'u list \<Rightarrow> 'h \<Rightarrow> 'h" where
  "run_undo unexec applied h = fold unexec (rev applied) h"

text \<open>What is relied on about one step and its undo command.\<close>

definition step_ok :: "('s \<Rightarrow> 'h \<Rightarrow> unit result \<times> 'h) \<Rightarrow> ('h \<Rightarrow> 'e list) \<Rightarrow> ('s \<Rightarrow> 'e option) \<Rightarrow> 's \<Rightarrow> bool" where
  "step_ok exec view eff s \<longleftrightarrow>
     (\<forall>h. if is_Ok (fst (exec s h)) then
            (case eff s of
               None \<Rightarrow> view (snd (exec s h)) = view h
             | Some e \<Rightarrow> e \<notin> set (view h) \<longrightarrow> view (snd (exec s h)) = view h @ [e])
          else view (snd (exec s h)) = view h)"

definition undo_ok :: "('u \<Rightarrow> 'h \<Rightarrow> 'h) \<Rightarrow> ('s \<Rightarrow> 'u) \<Rightarrow> ('h \<Rightarrow> 'e list) \<Rightarrow> ('s \<Rightarrow> 'e option) \<Rightarrow> 's \<Rightarrow> bool" where
  "undo_ok unexec undo_of view eff s \<longleftrightarrow>
     (\<forall>h. case eff s of
            None \<Rightarrow> view (unexec (undo_of s) h) = view h
          | Some e \<Rightarrow> \<forall>xs. view h = xs @ [e] \<longrightarrow> e \<notin> set xs \<longrightarrow> view (unexec (undo_of s) h) = xs)"

section \<open>Running\<close>

lemma map_filter_take: "\<exists>m. List.map_filter f (take k xs) = take m (List.map_filter f xs)"
proof (induction k arbitrary: xs)
  case 0
  show ?case by (intro exI [of _ 0]) simp
next
  case (Suc k)
  show ?case
  proof (cases xs)
    case (Cons x ys)
    from Suc [of ys] obtain m where m: "List.map_filter f (take k ys) = take m (List.map_filter f ys)" ..
    show ?thesis
    proof (cases "f x")
      case None
      then show ?thesis using m Cons by (intro exI [of _ m]) (simp add: map_filter_simps)
    next
      case (Some y)
      then show ?thesis using m Cons by (intro exI [of _ "Suc m"]) (simp add: map_filter_simps)
    qed
  qed simp
qed

lemma run_steps_view:
  assumes "run_steps exec undo_of ss applied h = (r, applied', h')"
    and "\<forall>s \<in> set ss. step_ok exec view eff s"
    and "distinct (List.map_filter eff ss)" "set (List.map_filter eff ss) \<inter> set (view h) = {}"
  shows "\<exists>k. view h' = view h @ List.map_filter eff (take k ss) \<and> applied' = applied @ map undo_of (take k ss) \<and>
    (is_Ok r \<longrightarrow> length ss \<le> k)"
  using assms
proof (induction ss arbitrary: applied h)
  case Nil
  then show ?case by (auto simp: map_filter_simps)
next
  case (Cons s ss)
  obtain r1 h1 where e: "exec s h = (r1, h1)" by fastforce
  have ok: "step_ok exec view eff s" using Cons.prems(2) by simp
  show ?case
  proof (cases "is_Ok r1")
    case True
    then have run: "run_steps exec undo_of ss (applied @ [undo_of s]) h1 = (r, applied', h')"
      using Cons.prems(1) e by (auto simp: is_Ok_conv)
    have h1: "view h1 = view h @ (case eff s of None \<Rightarrow> [] | Some x \<Rightarrow> [x])"
      using ok True e Cons.prems(4) unfolding step_ok_def
      by (auto simp: map_filter_simps split: option.splits dest!: spec [of _ h])
    have "set (List.map_filter eff ss) \<inter> set (view h1) = {}" "distinct (List.map_filter eff ss)"
      using Cons.prems(3,4) h1 by (auto simp: map_filter_simps split: option.splits)
    with Cons.IH [OF run] Cons.prems(2) obtain k where "view h' = view h1 @ List.map_filter eff (take k ss)"
      "applied' = (applied @ [undo_of s]) @ map undo_of (take k ss)" "is_Ok r \<longrightarrow> length ss \<le> k" by auto
    with h1 show ?thesis
      by (intro exI [of _ "Suc k"]) (simp add: map_filter_simps split: option.splits)
  next
    case False
    then have "r = r1" "applied' = applied" "h' = h1"
      using Cons.prems(1) e by (auto simp: is_Ok_conv split: result.splits)
    moreover have "view h1 = view h" using ok False e unfolding step_ok_def by (auto dest!: spec [of _ h])
    ultimately show ?thesis using False by (intro exI [of _ 0]) (auto simp: map_filter_simps)
  qed
qed

section \<open>Undoing\<close>

lemma run_undo_view:
  assumes "\<forall>s \<in> set ss. undo_ok unexec undo_of view eff s"
    and "distinct (List.map_filter eff ss)" "set (List.map_filter eff ss) \<inter> set xs = {}"
    and "view h = xs @ List.map_filter eff ss"
  shows "view (run_undo unexec (map undo_of ss) h) = xs"
  using assms
proof (induction ss arbitrary: h rule: rev_induct)
  case Nil
  then show ?case by (simp add: run_undo_def map_filter_simps)
next
  case (snoc s ss)
  have split: "List.map_filter eff (ss @ [s]) = List.map_filter eff ss @ (case eff s of None \<Rightarrow> [] | Some x \<Rightarrow> [x])"
    by (simp add: map_filter_def split: option.splits)
  have u: "undo_ok unexec undo_of view eff s" using snoc.prems(1) by simp
  have "view (unexec (undo_of s) h) = xs @ List.map_filter eff ss"
  proof (cases "eff s")
    case None
    then show ?thesis using u snoc.prems(4) split by (simp add: undo_ok_def)
  next
    case (Some x)
    then have "view h = (xs @ List.map_filter eff ss) @ [x]" "x \<notin> set (xs @ List.map_filter eff ss)"
      using snoc.prems split by auto
    then show ?thesis using u Some by (auto simp: undo_ok_def)
  qed
  moreover have "distinct (List.map_filter eff ss)" "set (List.map_filter eff ss) \<inter> set xs = {}"
    using snoc.prems(2,3) split by auto
  ultimately show ?case using snoc.IH [of "unexec (undo_of s) h"] snoc.prems(1) by (simp add: run_undo_def)
qed

text \<open>However far the steps came, undoing them leaves the host as it was, also later, when the
  entries have not changed in between.\<close>

lemma run_steps_reversible:
  assumes "run_steps exec undo_of ss [] h = (r, applied, h')"
    and "\<forall>s \<in> set ss. step_ok exec view eff s \<and> undo_ok unexec undo_of view eff s"
    and "distinct (List.map_filter eff ss)" "set (List.map_filter eff ss) \<inter> set (view h) = {}"
  shows "(\<forall>g. view g = view h' \<longrightarrow> view (run_undo unexec applied g) = view h) \<and>
    (is_Ok r \<longrightarrow> view h' = view h @ List.map_filter eff ss)"
proof -
  have "\<forall>s \<in> set ss. step_ok exec view eff s" using assms(2) by blast
  from run_steps_view [where view = view and eff = eff, OF assms(1) this assms(3,4)] obtain k
    where k: "view h' = view h @ List.map_filter eff (take k ss)" "applied = map undo_of (take k ss)"
      "is_Ok r \<longrightarrow> length ss \<le> k" by auto
  obtain m where m: "List.map_filter eff (take k ss) = take m (List.map_filter eff ss)"
    using map_filter_take by blast
  have "view (run_undo unexec (map undo_of (take k ss)) g) = view h" if "view g = view h'" for g
  proof (rule run_undo_view)
    show "\<forall>s \<in> set (take k ss). undo_ok unexec undo_of view eff s" using assms(2) by (meson in_set_takeD)
    show "distinct (List.map_filter eff (take k ss))" unfolding m using assms(3) by (rule distinct_take)
    show "set (List.map_filter eff (take k ss)) \<inter> set (view h) = {}"
      unfolding m using assms(4) set_take_subset [of m "List.map_filter eff ss"] by blast
    show "view g = view h @ List.map_filter eff (take k ss)" using that k(1) by simp
  qed
  with k show ?thesis by simp
qed

end
