(* ===== verification/HostNet.thy ===== *)
theory HostNet
  imports HostCommands
begin

text \<open>
  Host networking of the server, \<open>internal/server/nat.go\<close>: address and link of the TUN device,
  IPv4 forwarding, and the iptables rules with their undo list. The commands run on the host
  are an argument: \<open>run\<close> takes the program, its arguments and the state of the host. What the
  sources rely on about iptables is the predicate \<open>iptables_ok\<close>.
\<close>

section \<open>Commands\<close>

type_synonym 'h host_run = "string \<Rightarrow> string list \<Rightarrow> 'h \<Rightarrow> unit result \<times> 'h"

text \<open>The server's \<open>run\<close> has the program apart from its arguments.\<close>

definition run_program :: "(string list \<Rightarrow> 'h \<Rightarrow> (string \<times> string option) \<times> 'h) \<Rightarrow> 'h host_run" where
  "run_program exec name args h =
     (case exec (name # args) h of
        ((out, None), h1) \<Rightarrow> (Ok (), h1)
      | ((out, Some e), h1) \<Rightarrow> (Err (name @ '' '' @ Join args '' '' @ '': '' @ e @ '': '' @ TrimSpace out), h1))"

lemma run_program_command: "args \<noteq> [] \<Longrightarrow> run_program exec name args = run_command exec (name # args)"
  by (cases args) (auto simp: fun_eq_iff run_program_def run_command_def)

record 'h host_ops =
  h_run :: "'h host_run"
  h_forward :: "'h \<Rightarrow> string result"
  h_set_forward :: "'h \<Rightarrow> 'h"

definition ensureRule :: "'h host_ops \<Rightarrow> string \<Rightarrow> string \<Rightarrow> string list \<Rightarrow> 'h \<Rightarrow> unit result \<times> 'h" where
  "ensureRule H table chain spec h =
     (case h_run H ''iptables'' ([''-t'', table, ''-C'', chain] @ spec) h of
        (Ok _, h1) \<Rightarrow> (Ok (), h1)
      | (_, h1) \<Rightarrow> h_run H ''iptables'' ([''-t'', table, ''-A'', chain] @ spec) h1)"

definition ipForwardEnabled :: "'h host_ops \<Rightarrow> 'h \<Rightarrow> bool" where
  "ipForwardEnabled H h = (case h_forward H h of Ok data \<Rightarrow> TrimSpace data = ''1'' | _ \<Rightarrow> False)"

definition ipForwardPath :: string where
  "ipForwardPath = ''/proc/sys/net/ipv4/ip_forward''"

definition ensureIPForward :: "'h host_ops \<Rightarrow> 'h \<Rightarrow> unit result \<times> 'h" where
  "ensureIPForward H h =
     (if ipForwardEnabled H h then (Ok (), h)
      else let h1 = h_set_forward H h
           in if ipForwardEnabled H h1 then (Ok (), h1)
              else (Err (''IPv4 forwarding is disabled and '' @ ipForwardPath @ '' is not writable; '' @
                      ''enable it on the host or via the container sysctls '' @
                      ''(docker: --sysctl net.ipv4.ip_forward=1; compose: sysctls: [net.ipv4.ip_forward=1])''), h1))"

section \<open>Network configuration\<close>

record net_config =
  n_tunName :: string
  n_tunAddr :: string
  n_tunCIDR :: string
  n_prefixLen :: int
  n_wanIface :: string
  n_applied :: "string list list"

text \<open>The rules in the order of \<open>apply\<close>: table, chain, rule, and the arguments that undo it.\<close>

definition masquerade :: "net_config \<Rightarrow> string list" where
  "masquerade n = [''-s'', n_tunCIDR n, ''-o'', n_wanIface n, ''-j'', ''MASQUERADE'']"

definition forward_out :: "net_config \<Rightarrow> string list" where
  "forward_out n = [''-i'', n_tunName n, ''-o'', n_wanIface n, ''-j'', ''ACCEPT'']"

definition forward_in :: "net_config \<Rightarrow> string list" where
  "forward_in n = [''-i'', n_wanIface n, ''-o'', n_tunName n, ''-m'', ''state'', ''--state'',
     ''RELATED,ESTABLISHED'', ''-j'', ''ACCEPT'']"

definition clamp_mss :: "net_config \<Rightarrow> string list" where
  "clamp_mss n = [''-o'', n_tunName n, ''-p'', ''tcp'', ''--tcp-flags'', ''SYN,RST'', ''SYN'', ''-j'', ''TCPMSS'',
     ''--clamp-mss-to-pmtu'']"

definition net_rules :: "net_config \<Rightarrow> (string \<times> string \<times> string list \<times> string list) list" where
  "net_rules n =
     [(''nat'', ''POSTROUTING'', masquerade n, [''-t'', ''nat'', ''-D'', ''POSTROUTING''] @ masquerade n),
      (''filter'', ''FORWARD'', forward_out n, [''-D'', ''FORWARD''] @ forward_out n),
      (''filter'', ''FORWARD'', forward_in n, [''-D'', ''FORWARD''] @ forward_in n),
      (''mangle'', ''FORWARD'', clamp_mss n, [''-t'', ''mangle'', ''-D'', ''FORWARD''] @ clamp_mss n)]"

text \<open>Each rule that is ensured puts its undo command on the list.\<close>

definition apply_rules :: "'h host_ops \<Rightarrow> (string \<times> string \<times> string list \<times> string list) list \<Rightarrow> string list list \<Rightarrow> 'h
    \<Rightarrow> unit result \<times> string list list \<times> 'h" where
  "apply_rules H rs applied h =
     run_steps (\<lambda>(table, chain, spec, undo). ensureRule H table chain spec) (\<lambda>(table, chain, spec, undo). undo) rs applied h"

definition apply_net :: "'h host_ops \<Rightarrow> net_config \<Rightarrow> 'h \<Rightarrow> unit result \<times> net_config \<times> 'h" where
  "apply_net H n h =
     (case h_run H ''ip'' [''addr'', ''add'', n_tunAddr n @ ''/'' @ FormatInt (n_prefixLen n), ''dev'', n_tunName n] h of
        (Ok _, h1) \<Rightarrow>
          (case h_run H ''ip'' [''link'', ''set'', ''dev'', n_tunName n, ''up''] h1 of
             (Ok _, h2) \<Rightarrow>
               (case ensureIPForward H h2 of
                  (Ok _, h3) \<Rightarrow>
                    (let (r, applied, h4) = apply_rules H (net_rules n) (n_applied n) h3
                     in (r, n\<lparr>n_applied := applied\<rparr>, h4))
                | (e, h3) \<Rightarrow> (e, n, h3))
           | (e, h2) \<Rightarrow> (e, n, h2))
      | (e, h1) \<Rightarrow> (e, n, h1))"

text \<open>\<open>Teardown\<close> runs the undo commands, the last first, and ignores their outcome.\<close>

definition Teardown :: "'h host_ops \<Rightarrow> net_config \<Rightarrow> 'h \<Rightarrow> net_config \<times> 'h" where
  "Teardown H n h =
     (n\<lparr>n_applied := []\<rparr>, run_undo (\<lambda>args h. snd (h_run H ''iptables'' args h)) (n_applied n) h)"

text \<open>The WAN interface: of the default route, else the first usable one.\<close>

record iface =
  i_name :: string
  i_loopback :: bool
  i_up :: bool
  i_addrs :: nat

definition route_iface :: "string \<Rightarrow> string option" where
  "route_iface line =
     (let fs = Fields line
      in if 2 \<le> length fs \<and> fs ! 1 = ''00000000'' then Some (fs ! 0) else None)"

definition defaultRouteInterface :: "string list result \<Rightarrow> iface list \<Rightarrow> string result" where
  "defaultRouteInterface routes ifaces =
     bind_result routes (\<lambda>lines.
       case List.map_filter route_iface (drop 1 lines) of
         i # _ \<Rightarrow> Ok i
       | [] \<Rightarrow>
           (case List.find (\<lambda>i. \<not> (i_loopback i \<or> \<not> i_up i) \<and> 0 < i_addrs i) ifaces of
              Some i \<Rightarrow> Ok (i_name i)
            | None \<Rightarrow> Err ''no default route interface found''))"

definition net_WANInterface :: "net_config \<Rightarrow> string" where
  "net_WANInterface n = n_wanIface n"

definition configureNetwork ::
  "'h host_ops \<Rightarrow> string list result \<Rightarrow> iface list \<Rightarrow> string \<Rightarrow> string \<Rightarrow> string \<Rightarrow> int \<Rightarrow> string \<Rightarrow> 'h
    \<Rightarrow> net_config result \<times> 'h" where
  "configureNetwork H routes ifaces tunName gateway tunCIDR prefixLen wan0 h =
     (case (if wan0 = [] then defaultRouteInterface routes ifaces else Ok wan0) of
        Err e \<Rightarrow> (Err (''detect WAN interface: '' @ e), h)
      | Panic e \<Rightarrow> (Panic e, h)
      | Ok wan \<Rightarrow>
          (case apply_net H \<lparr>n_tunName = tunName, n_tunAddr = gateway, n_tunCIDR = tunCIDR,
                              n_prefixLen = prefixLen, n_wanIface = wan, n_applied = []\<rparr> h of
             (Ok _, n, h1) \<Rightarrow> (Ok n, h1)
           | (Err e, n, h1) \<Rightarrow> (Err e, snd (Teardown H n h1))
           | (Panic e, n, h1) \<Rightarrow> (Panic e, h1)))"

section \<open>What is relied on about iptables\<close>

text \<open>
  \<open>rules\<close> reads the rules off the host. A check succeeds exactly for a rule that is there
  and changes nothing; an append adds the rule or fails and changes nothing; a delete of a
  rule that is there takes one copy away; the default table is \<open>filter\<close>; and no other command
  of the sources touches the rules.
\<close>

type_synonym ipt_rule = "string \<times> string \<times> string list"

definition iptables_ok :: "'h host_ops \<Rightarrow> ('h \<Rightarrow> ipt_rule list) \<Rightarrow> bool" where
  "iptables_ok H rules \<longleftrightarrow>
     (\<forall>t c spec h.
        is_Ok (fst (h_run H ''iptables'' ([''-t'', t, ''-C'', c] @ spec) h)) = ((t, c, spec) \<in> set (rules h)) \<and>
        rules (snd (h_run H ''iptables'' ([''-t'', t, ''-C'', c] @ spec) h)) = rules h) \<and>
     (\<forall>t c spec h.
        rules (snd (h_run H ''iptables'' ([''-t'', t, ''-A'', c] @ spec) h)) =
          (if is_Ok (fst (h_run H ''iptables'' ([''-t'', t, ''-A'', c] @ spec) h))
           then rules h @ [(t, c, spec)] else rules h)) \<and>
     (\<forall>t c spec h.
        rules (snd (h_run H ''iptables'' ([''-t'', t, ''-D'', c] @ spec) h)) = remove1 (t, c, spec) (rules h)) \<and>
     (\<forall>c spec h.
        rules (snd (h_run H ''iptables'' ([''-D'', c] @ spec) h)) = remove1 (''filter'', c, spec) (rules h)) \<and>
     (\<forall>args h. rules (snd (h_run H ''ip'' args h)) = rules h) \<and>
     (\<forall>h. rules (h_set_forward H h) = rules h)"

section \<open>Lemmas\<close>

text \<open>Ensuring a rule: there already, or appended, or failed.\<close>

lemma ensureRule_rules:
  assumes "iptables_ok H rules" "ensureRule H t c spec h = (r, h')"
  shows "is_Ok r \<Longrightarrow> rules h' = (if (t, c, spec) \<in> set (rules h) then rules h else rules h @ [(t, c, spec)])"
    and "\<not> is_Ok r \<Longrightarrow> rules h' = rules h"
proof -
  obtain rc hc where check: "h_run H ''iptables'' ([''-t'', t, ''-C'', c] @ spec) h = (rc, hc)" by fastforce
  have c: "is_Ok rc = ((t, c, spec) \<in> set (rules h))" "rules hc = rules h"
    using assms(1) check unfolding iptables_ok_def by (metis fst_conv snd_conv)+
  obtain ra ha where add: "h_run H ''iptables'' ([''-t'', t, ''-A'', c] @ spec) hc = (ra, ha)" by fastforce
  have a: "rules ha = (if is_Ok ra then rules hc @ [(t, c, spec)] else rules hc)"
    using assms(1) add unfolding iptables_ok_def by (metis fst_conv snd_conv)
  show "is_Ok r \<Longrightarrow> rules h' = (if (t, c, spec) \<in> set (rules h) then rules h else rules h @ [(t, c, spec)])"
    and "\<not> is_Ok r \<Longrightarrow> rules h' = rules h"
    using assms(2) check add c a by (cases rc; auto simp: ensureRule_def)+
qed

definition rule_of :: "string \<times> string \<times> string list \<times> string list \<Rightarrow> ipt_rule" where
  "rule_of r = (case r of (t, c, spec, undo) \<Rightarrow> (t, c, spec))"

text \<open>The rules of a configuration as steps with undo commands.\<close>

lemma net_rules_ok:
  assumes "iptables_ok H rules"
  shows "\<forall>x \<in> set (net_rules n).
    step_ok (\<lambda>(table, chain, spec, undo). ensureRule H table chain spec) rules (Some \<circ> rule_of) x \<and>
    undo_ok (\<lambda>args h. snd (h_run H ''iptables'' args h)) (\<lambda>(table, chain, spec, undo). undo) rules (Some \<circ> rule_of) x"
proof -
  have step: "step_ok (\<lambda>(table, chain, spec, undo). ensureRule H table chain spec) rules (Some \<circ> rule_of) (t, c, spec, undo)"
    for t c spec undo
    using ensureRule_rules [OF assms, of t c spec] by (auto simp: step_ok_def rule_of_def) (metis prod.collapse)+
  have undo: "undo_ok (\<lambda>args h. snd (h_run H ''iptables'' args h)) (\<lambda>(table, chain, spec, undo). undo) rules (Some \<circ> rule_of) (t, c, spec, undo)"
    if "\<And>h. rules (snd (h_run H ''iptables'' undo h)) = remove1 (t, c, spec) (rules h)" for t c spec undo
    using that by (simp add: undo_ok_def rule_of_def remove1_append)
  show ?thesis
    using assms step undo by (auto simp: net_rules_def iptables_ok_def)
qed

lemma net_rules_distinct: "distinct (map rule_of (net_rules n))"
  by (simp add: net_rules_def rule_of_def forward_out_def forward_in_def)

lemma map_filter_rule_of [simp]: "List.map_filter (Some \<circ> rule_of) xs = map rule_of xs"
  by (simp add: map_filter_def o_def)

lemma apply_net_cases:
  assumes "iptables_ok H rules" "apply_net H n h = (r, n', h')"
  shows "\<not> is_Ok r \<and> n' = n \<and> rules h' = rules h \<or>
    (\<exists>h3 applied. rules h3 = rules h \<and> apply_rules H (net_rules n) (n_applied n) h3 = (r, applied, h') \<and>
       n' = n\<lparr>n_applied := applied\<rparr>)"
proof -
  have ip: "rules (snd (h_run H ''ip'' args g)) = rules g" for args g
    using assms(1) by (simp add: iptables_ok_def)
  have fwd: "rules (snd (ensureIPForward H g)) = rules g" for g
    using assms(1) by (simp add: ensureIPForward_def iptables_ok_def Let_def)
  obtain r1 h1 where 1: "h_run H ''ip'' [''addr'', ''add'', n_tunAddr n @ ''/'' @ FormatInt (n_prefixLen n), ''dev'', n_tunName n] h = (r1, h1)"
    by fastforce
  obtain r2 h2 where 2: "h_run H ''ip'' [''link'', ''set'', ''dev'', n_tunName n, ''up''] h1 = (r2, h2)" by fastforce
  obtain r3 h3 where 3: "ensureIPForward H h2 = (r3, h3)" by fastforce
  have same: "rules h1 = rules h" "rules h2 = rules h" "rules h3 = rules h"
    using ip 1 2 fwd 3 by (metis snd_conv)+
  obtain ra applied h4 where 4: "apply_rules H (net_rules n) (n_applied n) h3 = (ra, applied, h4)"
    by (cases "apply_rules H (net_rules n) (n_applied n) h3") auto
  have "(case r1 of Ok _ \<Rightarrow> (case r2 of Ok _ \<Rightarrow> (case r3 of Ok _ \<Rightarrow> (ra, n\<lparr>n_applied := applied\<rparr>, h4)
      | Err e \<Rightarrow> (Err e, n, h3) | Panic e \<Rightarrow> (Panic e, n, h3)) | Err e \<Rightarrow> (Err e, n, h2) | Panic e \<Rightarrow> (Panic e, n, h2))
      | Err e \<Rightarrow> (Err e, n, h1) | Panic e \<Rightarrow> (Panic e, n, h1)) = (r, n', h')"
    using assms(2) unfolding apply_net_def 1 2 3 4 Let_def prod.case .
  with same 4 show ?thesis
    by (auto split: result.splits)
qed

text \<open>The rules a configuration would add are not on the host yet.\<close>

definition rules_absent :: "('h \<Rightarrow> ipt_rule list) \<Rightarrow> string \<Rightarrow> string \<Rightarrow> 'h \<Rightarrow> bool" where
  "rules_absent rules tunName tunCIDR h \<longleftrightarrow>
     (\<forall>n. n_tunName n = tunName \<longrightarrow> n_tunCIDR n = tunCIDR \<longrightarrow> set (map rule_of (net_rules n)) \<inter> set (rules h) = {})"

lemma configured_rules:
  assumes "iptables_ok H rules" "apply_net H n h = (r, n', h')" "n_applied n = []"
    and "set (map rule_of (net_rules n)) \<inter> set (rules h) = {}"
  shows "rules (snd (Teardown H n' h')) = rules h \<and> (is_Ok r \<longrightarrow> rules h' = rules h @ map rule_of (net_rules n))"
  using apply_net_cases [OF assms(1,2)]
proof
  assume "\<not> is_Ok r \<and> n' = n \<and> rules h' = rules h"
  then show ?thesis using assms(3) by (simp add: Teardown_def run_undo_def)
next
  assume "\<exists>h3 applied. rules h3 = rules h \<and> apply_rules H (net_rules n) (n_applied n) h3 = (r, applied, h') \<and>
    n' = n\<lparr>n_applied := applied\<rparr>"
  then obtain h3 applied where h3: "rules h3 = rules h" "apply_rules H (net_rules n) [] h3 = (r, applied, h')"
    "n' = n\<lparr>n_applied := applied\<rparr>" using assms(3) by auto
  have "(\<forall>g. rules g = rules h' \<longrightarrow> rules (run_undo (\<lambda>args h. snd (h_run H ''iptables'' args h)) applied g) = rules h3) \<and>
      (is_Ok r \<longrightarrow> rules h' = rules h3 @ List.map_filter (Some \<circ> rule_of) (net_rules n))"
    using h3 net_rules_distinct assms(4)
    by (intro run_steps_reversible [OF _ net_rules_ok [OF assms(1)]]) (simp_all add: apply_rules_def)
  then show ?thesis using h3 by (simp add: Teardown_def)
qed

text \<open>Set up completely or not at all, and taken down completely.\<close>

lemma configureNetwork_reversible:
  assumes "iptables_ok H rules" "rules_absent rules tunName tunCIDR h"
    and "configureNetwork H routes ifaces tunName gateway tunCIDR prefixLen wan h = (r, h')"
  shows "(\<forall>n. r = Ok n \<longrightarrow> rules h' = rules h @ map rule_of (net_rules n) \<and>
       rules (snd (Teardown H n h')) = rules h) \<and>
    (\<forall>e. r = Err e \<longrightarrow> rules h' = rules h)"
proof (cases "if wan = [] then defaultRouteInterface routes ifaces else Ok wan")
  case (Ok w)
  let ?n = "\<lparr>n_tunName = tunName, n_tunAddr = gateway, n_tunCIDR = tunCIDR, n_prefixLen = prefixLen,
      n_wanIface = w, n_applied = []\<rparr>"
  obtain r1 n1 h1 where run: "apply_net H ?n h = (r1, n1, h1)" by (cases "apply_net H ?n h") auto
  have absent: "set (map rule_of (net_rules ?n)) \<inter> set (rules h) = {}"
    using assms(2) by (auto simp: rules_absent_def)
  from configured_rules [OF assms(1) run _ absent]
  have new: "rules (snd (Teardown H n1 h1)) = rules h" "is_Ok r1 \<longrightarrow> rules h1 = rules h @ map rule_of (net_rules ?n)"
    by auto
  have same: "net_rules n1 = net_rules ?n"
    using apply_net_cases [OF assms(1) run] by (auto simp: net_rules_def masquerade_def forward_out_def
        forward_in_def clamp_mss_def)
  show ?thesis
    using assms(3) Ok run new same
    by (cases r1) (auto simp: configureNetwork_def split: if_splits)
qed (use assms(3) in \<open>auto simp: configureNetwork_def split: if_splits\<close>)

section \<open>A concrete host\<close>

text \<open>A host that is its list of rules, with forwarding on.\<close>

definition rule_host :: "ipt_rule list host_ops" where
  "rule_host =
     \<lparr>h_run = (\<lambda>prog args h.
        case args of
          a # t # op # c # spec \<Rightarrow>
            if prog = ''iptables'' \<and> a = ''-t'' \<and> op = ''-C'' then (if (t, c, spec) \<in> set h then Ok () else Err ''no rule'', h)
            else if prog = ''iptables'' \<and> a = ''-t'' \<and> op = ''-A'' then (Ok (), h @ [(t, c, spec)])
            else if prog = ''iptables'' \<and> a = ''-t'' \<and> op = ''-D'' then (Ok (), remove1 (t, c, spec) h)
            else if prog = ''iptables'' \<and> a = ''-D'' then (Ok (), remove1 (''filter'', t, op # c # spec) h)
            else (Ok (), h)
        | a # t # spec \<Rightarrow>
            if prog = ''iptables'' \<and> a = ''-D'' then (Ok (), remove1 (''filter'', t, spec) h) else (Ok (), h)
        | _ \<Rightarrow> (Ok (), h)),
      h_forward = (\<lambda>h. Ok (''1'' @ [LF])),
      h_set_forward = (\<lambda>h. h)\<rparr>"

lemma rule_host_run [simp]:
  "h_run rule_host ''ip'' args h = (Ok (), h)"
  "h_run rule_host ''iptables'' (''-t'' # t # ''-C'' # c # spec) h =
     (if (t, c, spec) \<in> set h then Ok () else Err ''no rule'', h)"
  "h_run rule_host ''iptables'' (''-t'' # t # ''-A'' # c # spec) h = (Ok (), h @ [(t, c, spec)])"
  "h_run rule_host ''iptables'' (''-t'' # t # ''-D'' # c # spec) h = (Ok (), remove1 (t, c, spec) h)"
  "h_run rule_host ''iptables'' (''-D'' # c # spec) h = (Ok (), remove1 (''filter'', c, spec) h)"
  by (auto simp: rule_host_def split: list.splits)

lemma rule_host_forward [simp]: "ensureIPForward rule_host h = (Ok (), h)"
  by (simp add: ensureIPForward_def ipForwardEnabled_def rule_host_def TrimSpace_def is_space_def)

lemma rule_host_ok: "iptables_ok rule_host (\<lambda>h. h)"
  unfolding iptables_ok_def by (simp, simp add: rule_host_def)

lemmas host_run_defs = configureNetwork_def apply_net_def apply_rules_def net_rules_def ensureRule_def Teardown_def run_undo_def
  masquerade_def forward_out_def forward_in_def clamp_mss_def

text \<open>A rule that was on the host before is deleted as well: the undo command is listed
  whether or not the rule had to be added.\<close>

lemma teardown_removes_foreign_rule:
  "\<exists>n h'. configureNetwork rule_host (Ok []) [] ''arnos0'' ''10.66.0.1'' ''10.66.0.0/24'' 24 ''eth0''
      [(''nat'', ''POSTROUTING'', [''-s'', ''10.66.0.0/24'', ''-o'', ''eth0'', ''-j'', ''MASQUERADE''])] = (Ok n, h') \<and>
    snd (Teardown rule_host n h') = []"
  by (simp add: host_run_defs)

text \<open>\<open>Teardown\<close> only takes rules back: forwarding that \<open>apply\<close> has switched on stays on.\<close>

lemma teardown_keeps_forwarding:
  assumes "\<And>args h. h_forward H (snd (h_run H ''iptables'' args h)) = h_forward H h"
  shows "ipForwardEnabled H (snd (Teardown H n h)) = ipForwardEnabled H h"
proof -
  have "h_forward H (fold (\<lambda>args h. snd (h_run H ''iptables'' args h)) cmds g) = h_forward H g" for cmds g
    by (induction cmds arbitrary: g) (simp_all add: assms)
  then show ?thesis by (simp add: Teardown_def run_undo_def ipForwardEnabled_def)
qed

end
