(* ===== verification/Cert.thy ===== *)
theory Cert
  imports ServerConfig
begin

text \<open>
  The certificate providers of \<open>internal/cert\<close>: the choice of a provider (\<open>provider.go\<close>),
  Let's Encrypt (\<open>letsencrypt.go\<close>, whose certificates come from the package autocert), and
  the provider that serves Traefik's certificate and reloads it when its file changes
  (\<open>traefik.go\<close>). The state of the disk at the time of a call is an argument, and so is the
  parser of key pairs of crypto/tls.
\<close>

section \<open>The disk and the TLS configuration\<close>

text \<open>
  What a call finds: modification times, file contents, the JSON document of a file (inside
  \<open>None\<close> for a text that is none), and the pair that \<open>tls.X509KeyPair\<close> builds; each call
  returns an error or a value.
\<close>

record 'c cert_env =
  ce_stat :: "string \<Rightarrow> string + int"
  ce_read :: "string \<Rightarrow> string + bytes"
  ce_json :: "string \<Rightarrow> string + json option"
  ce_pair :: "bytes \<Rightarrow> bytes \<Rightarrow> string + 'c"

fun returned :: "string + 'a \<Rightarrow> 'a result" where
  "returned (Inl m) = Err m"
| "returned (Inr x) = Ok x"

record tls_config =
  MinVersion :: string
  NextProtos :: "string list"

definition baseTLS :: tls_config where
  "baseTLS = \<lparr>MinVersion = ''TLS12'', NextProtos = [''http/1.1'']\<rparr>"

section \<open>The acme.json store\<close>

record acme_certificate =
  ac_Main :: string
  ac_SANs :: "string list"
  ac_Certificate :: string
  ac_Key :: string

definition acme_zero :: acme_certificate where
  "acme_zero = \<lparr>ac_Main = [], ac_SANs = [], ac_Certificate = [], ac_Key = []\<rparr>"

definition assign_domain :: "acme_certificate \<Rightarrow> string \<Rightarrow> json \<Rightarrow> acme_certificate option" where
  "assign_domain c f v =
     (if f = ''main'' then map_option (\<lambda>x. c\<lparr>ac_Main := x\<rparr>) (get_string (ac_Main c) v)
      else map_option (\<lambda>x. c\<lparr>ac_SANs := x\<rparr>) (get_strings (ac_SANs c) v))"

definition assign_acme :: "acme_certificate \<Rightarrow> string \<Rightarrow> json \<Rightarrow> acme_certificate option" where
  "assign_acme c f v =
     (if f = ''domain'' then Unmarshal assign_domain [''main'', ''sans''] c v
      else if f = ''certificate'' then map_option (\<lambda>x. c\<lparr>ac_Certificate := x\<rparr>) (get_string (ac_Certificate c) v)
      else map_option (\<lambda>x. c\<lparr>ac_Key := x\<rparr>) (get_string (ac_Key c) v))"

fun get_acme_certs :: "json \<Rightarrow> acme_certificate list option" where
  "get_acme_certs JNull = Some []"
| "get_acme_certs (JArr js) = those (map (Unmarshal assign_acme [''domain'', ''certificate'', ''key''] acme_zero) js)"
| "get_acme_certs _ = None"

text \<open>
  A document read into \<open>map[string]json.RawMessage\<close>: of equal names the last member counts.
  \<open>range\<close> visits the entries of a map in an order the language leaves open; \<open>visit\<close> gives it,
  for the map at each path of the document.
\<close>

type_synonym raw_map = "(string \<times> json) list"
type_synonym map_order = "string list \<Rightarrow> raw_map \<Rightarrow> raw_map"

fun last_members :: "raw_map \<Rightarrow> raw_map" where
  "last_members [] = []"
| "last_members ((k, v) # ms) = (if k \<in> fst ` set ms then last_members ms else (k, v) # last_members ms)"

fun get_raw_map :: "json \<Rightarrow> raw_map option" where
  "get_raw_map JNull = Some []"
| "get_raw_map (JObj ms) = Some (last_members ms)"
| "get_raw_map _ = None"

section \<open>Choosing a certificate\<close>

definition wildcardMatch :: "string \<Rightarrow> string \<Rightarrow> bool" where
  "wildcardMatch pattern host =
     (if \<not> HasPrefix pattern ''*.'' then False
      else let suffix = drop 1 pattern
           in HasSuffix host suffix \<and> Count host (CHR ''.'') = Count suffix (CHR ''.''))"

definition matchesDomain :: "acme_certificate \<Rightarrow> string \<Rightarrow> bool" where
  "matchesDomain c want =
     (if EqualFold (ac_Main c) want then True
      else if list_ex (\<lambda>s. EqualFold s want \<or> wildcardMatch s want) (ac_SANs c) then True
      else wildcardMatch (ac_Main c) want)"

definition decodeACMEPair :: "acme_certificate \<Rightarrow> (bytes \<times> bytes) result" where
  "decodeACMEPair c =
     (case DecodeString StdEncoding (ac_Certificate c) of
        None \<Rightarrow> Err ''decode acme certificate''
      | Some certPEM \<Rightarrow>
          (case DecodeString StdEncoding (ac_Key c) of
             None \<Rightarrow> Err ''decode acme key''
           | Some keyPEM \<Rightarrow> Ok (certPEM, keyPEM)))"

text \<open>The certificates of a resolver, and of the store, in the order they are visited.\<close>

definition resolver_certs :: "map_order \<Rightarrow> string \<Rightarrow> json \<Rightarrow> acme_certificate list" where
  "resolver_certs visit name r =
     (case get_raw_map r of
        None \<Rightarrow> []
      | Some resolver \<Rightarrow>
          concat (map (\<lambda>(k, v). if \<not> EqualFold k ''certificates'' then []
                                else (case get_acme_certs v of None \<Rightarrow> [] | Some certs \<Rightarrow> certs))
                      (visit [name] resolver)))"

definition store_certs :: "map_order \<Rightarrow> raw_map \<Rightarrow> acme_certificate list" where
  "store_certs visit resolvers = concat (map (\<lambda>(name, r). resolver_certs visit name r) (visit [] resolvers))"

text \<open>The innermost loop: the first certificate that fits, else the first usable one.\<close>

fun pick_cert :: "string \<Rightarrow> acme_certificate option \<Rightarrow> acme_certificate list \<Rightarrow> acme_certificate option" where
  "pick_cert want fallback [] = fallback"
| "pick_cert want fallback (c # cs) =
     (if ac_Certificate c = [] \<or> ac_Key c = [] then pick_cert want fallback cs
      else let fallback' = (case fallback of None \<Rightarrow> Some c | Some f \<Rightarrow> Some f)
           in if want = [] \<or> matchesDomain c want then Some c else pick_cert want fallback' cs)"

definition certFromACME :: "'c cert_env \<Rightarrow> map_order \<Rightarrow> string \<Rightarrow> string \<Rightarrow> (bytes \<times> bytes) result" where
  "certFromACME e visit path domain =
     bind_result (returned (ce_json e path)) (\<lambda>doc.
       case Option.bind doc get_raw_map of
         None \<Rightarrow> Err ''parse acme.json''
       | Some resolvers \<Rightarrow>
           (let want = ToLower (TrimSpace domain)
            in case pick_cert want None (store_certs visit resolvers) of
                 Some c \<Rightarrow> decodeACMEPair c
               | None \<Rightarrow> Err (''no usable certificate found in '' @ path)))"

section \<open>The Traefik provider\<close>

record 'c traefik_provider =
  tp_current :: "'c option"
  tp_loadedAt :: int
  tp_source :: string
  tp_modTime :: int

definition activeSource :: "'c cert_env \<Rightarrow> server_config \<Rightarrow> (string \<times> int) result" where
  "activeSource e cfg =
     (if TLSCertPath cfg \<noteq> [] \<and> TLSKeyPath cfg \<noteq> [] then
        bind_result (returned (ce_stat e (TLSCertPath cfg))) (\<lambda>mtime. Ok (TLSCertPath cfg, mtime))
      else
        (case ce_stat e (TraefikACMEPath cfg) of
           Inr mtime \<Rightarrow> Ok (TraefikACMEPath cfg, mtime)
         | Inl m \<Rightarrow> Err (''no PEM pair and acme store unavailable: '' @ m)))"

text \<open>The middle of \<open>reload\<close>: the key pair built from the source.\<close>

definition load_pair :: "'c cert_env \<Rightarrow> map_order \<Rightarrow> server_config \<Rightarrow> string \<Rightarrow> 'c result" where
  "load_pair e visit cfg path =
     bind_result
       (if path = TLSCertPath cfg then
          bind_result (returned (ce_read e (TLSCertPath cfg))) (\<lambda>certPEM.
            bind_result (returned (ce_read e (TLSKeyPath cfg))) (\<lambda>keyPEM. Ok (certPEM, keyPEM)))
        else certFromACME e visit path (Domain cfg))
       (\<lambda>(certPEM, keyPEM).
          case ce_pair e certPEM keyPEM of
            Inr pair \<Rightarrow> Ok pair
          | Inl m \<Rightarrow> Err (''build key pair from '' @ path @ '': '' @ m))"

definition reload ::
  "'c cert_env \<Rightarrow> map_order \<Rightarrow> int \<Rightarrow> server_config \<Rightarrow> bool \<Rightarrow> 'c traefik_provider \<Rightarrow> unit result \<times> 'c traefik_provider"
where
  "reload e visit now cfg force p =
     (case activeSource e cfg of
        Err m \<Rightarrow> (Err m, p)
      | Panic m \<Rightarrow> (Panic m, p)
      | Ok (path, mtime) \<Rightarrow>
          if \<not> force \<and> tp_current p \<noteq> None \<and> mtime = tp_modTime p \<and> tp_source p = path then (Ok (), p)
          else (case load_pair e visit cfg path of
                  Err m \<Rightarrow> (Err m, p)
                | Panic m \<Rightarrow> (Panic m, p)
                | Ok pair \<Rightarrow> (Ok (), \<lparr>tp_current = Some pair, tp_loadedAt = now, tp_source = path, tp_modTime = mtime\<rparr>)))"

definition newTraefik :: "'c cert_env \<Rightarrow> map_order \<Rightarrow> int \<Rightarrow> server_config \<Rightarrow> 'c traefik_provider result" where
  "newTraefik e visit now cfg =
     (case reload e visit now cfg True \<lparr>tp_current = None, tp_loadedAt = 0, tp_source = [], tp_modTime = 0\<rparr> of
        (Ok _, p) \<Rightarrow> Ok p
      | (Err m, _) \<Rightarrow> Err m
      | (Panic m, _) \<Rightarrow> Panic m)"

definition Describe_traefik :: "'c traefik_provider \<Rightarrow> string" where
  "Describe_traefik p = ''traefik (source='' @ tp_source p @ '')''"

text \<open>The hook called for every TLS handshake; \<open>Ok None\<close> is Go's nil certificate.\<close>

definition GetCertificate ::
  "'c cert_env \<Rightarrow> map_order \<Rightarrow> int \<Rightarrow> server_config \<Rightarrow> 'c traefik_provider \<Rightarrow> 'c option result \<times> 'c traefik_provider"
where
  "GetCertificate e visit now cfg p =
     (case reload e visit now cfg False p of
        (Ok _, p1) \<Rightarrow> (Ok (tp_current p1), p1)
      | (Err m, p1) \<Rightarrow> (case tp_current p1 of Some c \<Rightarrow> (Ok (Some c), p1) | None \<Rightarrow> (Err m, p1))
      | (Panic m, p1) \<Rightarrow> (Panic m, p1))"

section \<open>Let's Encrypt and the choice of provider\<close>

record letsencrypt_provider =
  le_domain :: string
  le_cache :: string
  le_email :: string

definition newLetsEncrypt :: "unit result \<Rightarrow> server_config \<Rightarrow> letsencrypt_provider result" where
  "newLetsEncrypt mkdir cfg =
     (case mkdir of
        Ok _ \<Rightarrow> Ok \<lparr>le_domain = Domain cfg, le_cache = ACMECacheDir cfg, le_email = ACMEEmail cfg\<rparr>
      | Err m \<Rightarrow> Err (''acme cache dir: '' @ m)
      | Panic m \<Rightarrow> Panic m)"

definition Describe_letsencrypt :: "letsencrypt_provider \<Rightarrow> string" where
  "Describe_letsencrypt p = ''letsencrypt (domain='' @ le_domain p @ '')''"

definition TLSConfig_letsencrypt :: tls_config where
  "TLSConfig_letsencrypt = baseTLS\<lparr>NextProtos := [''acme-tls/1''] @ NextProtos baseTLS\<rparr>"

datatype 'c provider = Traefik "'c traefik_provider" | LetsEncrypt letsencrypt_provider

definition cert_New ::
  "'c cert_env \<Rightarrow> map_order \<Rightarrow> int \<Rightarrow> unit result \<Rightarrow> server_config \<Rightarrow> 'c provider result"
where
  "cert_New e visit now mkdir cfg =
     (if CertProvider cfg = CertTraefik then bind_result (newTraefik e visit now cfg) (\<lambda>p. Ok (Traefik p))
      else if CertProvider cfg = CertLetsEncrypt then bind_result (newLetsEncrypt mkdir cfg) (\<lambda>p. Ok (LetsEncrypt p))
      else Err (''unknown cert provider '' @ CertProvider cfg))"

fun TLSConfig :: "'c provider \<Rightarrow> tls_config" where
  "TLSConfig (Traefik p) = baseTLS"
| "TLSConfig (LetsEncrypt p) = TLSConfig_letsencrypt"

fun Describe :: "'c provider \<Rightarrow> string" where
  "Describe (Traefik p) = Describe_traefik p"
| "Describe (LetsEncrypt p) = Describe_letsencrypt p"

section \<open>Lemmas: names\<close>

lemma Count_zero: "Count s c = 0 \<longleftrightarrow> c \<notin> set s"
  by (auto simp: Count_def filter_empty_conv)

text \<open>A wildcard stands for one label.\<close>

definition one_label :: "string \<Rightarrow> string \<Rightarrow> bool" where
  "one_label pattern host \<longleftrightarrow>
     (\<exists>label rest. pattern = ''*.'' @ rest \<and> host = label @ ''.'' @ rest \<and> CHR ''.'' \<notin> set label)"

lemma wildcardMatch_one_label: "wildcardMatch pattern host \<longleftrightarrow> one_label pattern host"
proof -
  have "wildcardMatch (''*.'' @ rest) host \<longleftrightarrow> one_label (''*.'' @ rest) host" for rest
  proof -
    have "wildcardMatch (''*.'' @ rest) host \<longleftrightarrow>
        (\<exists>l. host = l @ ''.'' @ rest \<and> Count (l @ ''.'' @ rest) (CHR ''.'') = Count (''.'' @ rest) (CHR ''.''))"
      by (auto simp: wildcardMatch_def HasPrefix_conv HasSuffix_conv Let_def)
    also have "\<dots> \<longleftrightarrow> one_label (''*.'' @ rest) host"
      by (auto simp: one_label_def Count_append Count_zero [symmetric])
    finally show ?thesis .
  qed
  moreover have "HasPrefix pattern ''*.''" if "one_label pattern host"
    using that by (auto simp: one_label_def HasPrefix_conv)
  ultimately show ?thesis
    by (metis HasPrefix_conv wildcardMatch_def)
qed

definition cert_covers :: "acme_certificate \<Rightarrow> string \<Rightarrow> bool" where
  "cert_covers c host \<longleftrightarrow>
     (\<exists>n \<in> insert (ac_Main c) (set (ac_SANs c)). EqualFold n host \<or> one_label n host)"

lemma matchesDomain_covers: "matchesDomain c host \<longleftrightarrow> cert_covers c host"
  by (auto simp: matchesDomain_def cert_covers_def wildcardMatch_one_label list_ex_iff)

section \<open>Lemmas: the choice\<close>

definition cert_usable :: "acme_certificate \<Rightarrow> bool" where
  "cert_usable c \<longleftrightarrow> ac_Certificate c \<noteq> [] \<and> ac_Key c \<noteq> []"

lemma pick_cert_find:
  "pick_cert want fb cs =
     (case List.find (\<lambda>c. cert_usable c \<and> (want = [] \<or> matchesDomain c want)) cs of
        Some c \<Rightarrow> Some c
      | None \<Rightarrow> (case fb of Some f \<Rightarrow> Some f | None \<Rightarrow> List.find cert_usable cs))"
  by (induction cs arbitrary: fb) (auto simp: cert_usable_def Let_def split: option.splits)

lemma store_certs_set:
  assumes "\<And>path m. set (visit path m) = set m"
  shows "set (store_certs visit m) = set (store_certs (\<lambda>_ m. m) m)"
proof -
  have "set (resolver_certs visit name r) = set (resolver_certs (\<lambda>_ m. m) name r)" for name r
    using assms by (auto simp: resolver_certs_def split: option.splits)
  then show ?thesis using assms by (auto simp: store_certs_def)
qed

lemma find_Some_set: "List.find P xs = Some x \<Longrightarrow> x \<in> set xs \<and> P x"
  by (auto simp: find_Some_iff)

section \<open>Lemmas: reloading\<close>

lemma load_pair_no_Panic: "load_pair e visit cfg path \<noteq> Panic m"
proof -
  have r: "returned x \<noteq> Panic m" for x :: "string + 'a" and m by (cases x) auto
  have "decodeACMEPair c \<noteq> Panic m" for c m by (auto simp: decodeACMEPair_def split: option.splits)
  then have "certFromACME e visit path d \<noteq> Panic m" for d m
    by (cases "ce_json e path") (auto simp: certFromACME_def Let_def split: option.splits)
  then show ?thesis
    by (cases "ce_read e (TLSCertPath cfg)"; cases "ce_read e (TLSKeyPath cfg)")
      (auto simp: load_pair_def bind_result_def split: result.splits sum.splits)
qed

lemma activeSource_no_Panic: "activeSource e cfg \<noteq> Panic m"
  by (cases "ce_stat e (TLSCertPath cfg)") (auto simp: activeSource_def split: sum.splits)

text \<open>The certificate a call would load from the disk.\<close>

definition disk_cert :: "'c cert_env \<Rightarrow> map_order \<Rightarrow> server_config \<Rightarrow> (string \<times> int \<times> 'c) option" where
  "disk_cert e visit cfg =
     (case activeSource e cfg of
        Ok (path, mtime) \<Rightarrow> (case load_pair e visit cfg path of Ok c \<Rightarrow> Some (path, mtime, c) | _ \<Rightarrow> None)
      | _ \<Rightarrow> None)"

lemma GetCertificate_fresh:
  assumes "disk_cert e visit cfg = Some (path, mtime, c)"
    and "tp_current p = None \<or> mtime \<noteq> tp_modTime p \<or> tp_source p \<noteq> path"
  shows "GetCertificate e visit now cfg p =
    (Ok (Some c), \<lparr>tp_current = Some c, tp_loadedAt = now, tp_source = path, tp_modTime = mtime\<rparr>)"
  using assms
  by (auto simp: GetCertificate_def reload_def disk_cert_def split: result.splits prod.splits)

lemma GetCertificate_keeps:
  assumes "tp_current p = Some c" "\<And>path mtime c. disk_cert e visit cfg = Some (path, mtime, c) \<Longrightarrow>
    mtime = tp_modTime p \<and> tp_source p = path"
  shows "GetCertificate e visit now cfg p = (Ok (Some c), p)"
  using assms load_pair_no_Panic [of e visit cfg] activeSource_no_Panic [of e cfg]
  by (auto simp: GetCertificate_def reload_def disk_cert_def split: result.splits prod.splits)

lemma GetCertificate_cases:
  assumes "tp_current p = Some c"
  shows "GetCertificate e visit now cfg p = (Ok (Some c), p) \<or>
    (\<exists>path mtime c'. disk_cert e visit cfg = Some (path, mtime, c') \<and> GetCertificate e visit now cfg p =
       (Ok (Some c'), \<lparr>tp_current = Some c', tp_loadedAt = now, tp_source = path, tp_modTime = mtime\<rparr>))"
  using GetCertificate_fresh GetCertificate_keeps [OF assms] by metis

text \<open>The provider after a series of handshakes, each finding its own state of the disk.\<close>

type_synonym 'c handshake_env = "'c cert_env \<times> map_order \<times> int"

definition after :: "server_config \<Rightarrow> 'c handshake_env list \<Rightarrow> 'c traefik_provider \<Rightarrow> 'c traefik_provider" where
  "after cfg es p = fold (\<lambda>(e, visit, now) p. snd (GetCertificate e visit now cfg p)) es p"

definition from_disk :: "server_config \<Rightarrow> 'c handshake_env list \<Rightarrow> 'c \<Rightarrow> bool" where
  "from_disk cfg es c \<longleftrightarrow> (\<exists>(e, visit, now) \<in> set es. \<exists>path mtime. disk_cert e visit cfg = Some (path, mtime, c))"

lemma from_disk_simps [simp]:
  "\<not> from_disk cfg [] c"
  "from_disk cfg ((e, visit, now) # es) c \<longleftrightarrow>
     (\<exists>path mtime. disk_cert e visit cfg = Some (path, mtime, c)) \<or> from_disk cfg es c"
  "from_disk cfg (xs @ ys) c \<longleftrightarrow> from_disk cfg xs c \<or> from_disk cfg ys c"
  by (simp_all add: from_disk_def bex_Un)

lemma after_current:
  assumes "tp_current p = Some c" "from_disk cfg hist c"
  shows "\<exists>c'. tp_current (after cfg es p) = Some c' \<and> from_disk cfg (hist @ es) c'"
  using assms
proof (induction es arbitrary: p c hist)
  case (Cons x es)
  obtain e visit now where x: "x = (e, visit, now)" by (cases x) auto
  have "\<exists>c'. tp_current (snd (GetCertificate e visit now cfg p)) = Some c' \<and> from_disk cfg (hist @ [x]) c'"
    using GetCertificate_cases [OF Cons.prems(1), of e visit now cfg] Cons.prems by (auto simp: x)
  then obtain c' where "tp_current (snd (GetCertificate e visit now cfg p)) = Some c'" "from_disk cfg (hist @ [x]) c'"
    by blast
  from Cons.IH [OF this] show ?case by (simp add: after_def x)
qed (auto simp: after_def)

lemma newTraefik_current:
  assumes "newTraefik e visit now cfg = Ok p"
  shows "\<exists>c. tp_current p = Some c \<and> from_disk cfg [(e, visit, now)] c"
  using assms
  by (auto simp: newTraefik_def reload_def disk_cert_def split: result.splits prod.splits)

lemma after_snoc: "after cfg (es @ [(e, visit, now)]) p = snd (GetCertificate e visit now cfg (after cfg es p))"
  by (simp add: after_def)

lemma after_failing:
  assumes "tp_current p \<noteq> None" "\<And>e visit now. (e, visit, now) \<in> set es \<Longrightarrow> disk_cert e visit cfg = None"
  shows "after cfg es p = p"
  using assms(2)
proof (induction es)
  case (Cons x es)
  obtain e visit now where x: "x = (e, visit, now)" by (cases x) auto
  obtain c where "tp_current p = Some c" using assms(1) by auto
  moreover have "disk_cert e visit cfg = None" using Cons.prems [of e visit now] x by simp
  ultimately have "GetCertificate e visit now cfg p = (Ok (Some c), p)"
    by (intro GetCertificate_keeps) auto
  moreover have "after cfg es p = p" using Cons.prems by (intro Cons.IH) auto
  ultimately show ?case by (simp add: after_def x)
qed (simp add: after_def)

section \<open>A concrete store\<close>

definition demo_doc :: "(string \<times> string \<times> string) list \<Rightarrow> json" where
  "demo_doc entries =
     JObj [(''le'', JObj [(''Certificates'', JArr (map (\<lambda>(dom, crt, key).
        JObj [(''domain'', JObj [(''main'', JStr dom)]), (''certificate'', JStr crt), (''key'', JStr key)]) entries))])]"

definition demo_cert_cfg :: server_config where
  "demo_cert_cfg = \<lparr>Domain = ''vpn.example'', TLSMode = ''self'', ListenAddr = [], PublicHost = [], PublicPort = 443,
     WSPath = ''/'', PSK = [], TunnelCIDR = [], Gateway = [], MTU = 1380, DNS = [], WANInterface = [],
     CertProvider = CertTraefik, TraefikACMEPath = ''acme.json'', TLSCertPath = [], TLSKeyPath = [],
     ACMEEmail = [], ACMECacheDir = [], StateFile = []\<rparr>"

definition demo_disk :: "int \<Rightarrow> json option \<Rightarrow> (bytes \<times> bytes) cert_env" where
  "demo_disk mtime doc =
     \<lparr>ce_stat = (\<lambda>_. Inr mtime), ce_read = (\<lambda>_. Inl ''no file''), ce_json = (\<lambda>_. Inr doc),
      ce_pair = (\<lambda>c k. Inr (c, k))\<rparr>"

section \<open>Properties\<close>

text \<open>C23: the certificate taken from Traefik's store is the right one, in whatever order Go
  visits the maps of the document. If some usable entry covers the configured domain, by name
  up to case or by a wildcard that stands for exactly one label, an entry of this kind is
  decoded; if none covers it, some usable entry is; an error is reported exactly when there is
  nothing usable or the entry does not decode.\<close>

theorem acme_selection:
  assumes "\<forall>p m. set (visit p m) = set m"
    and "ce_json e path = Inr (Some doc)" "get_raw_map doc = Some resolvers"
    and "certs = {c \<in> set (store_certs (\<lambda>_ m. m) resolvers). cert_usable c}"
    and "host = ToLower (TrimSpace domain)"
    and "fit = {c \<in> certs. host = [] \<or> cert_covers c host}"
  shows "if certs = {} then certFromACME e visit path domain = Err (''no usable certificate found in '' @ path)
    else \<exists>c \<in> (if fit = {} then certs else fit). certFromACME e visit path domain = decodeACMEPair c"
proof -
  let ?cs = "store_certs visit resolvers"
  have cs: "set ?cs = set (store_certs (\<lambda>_ m. m) resolvers)" by (rule store_certs_set) (use assms(1) in simp)
  let ?good = "\<lambda>c. cert_usable c \<and> (host = [] \<or> matchesDomain c host)"
  have run: "certFromACME e visit path domain =
      (case pick_cert host None ?cs of Some c \<Rightarrow> decodeACMEPair c
       | None \<Rightarrow> Err (''no usable certificate found in '' @ path))"
    using assms(2,3,5) by (simp add: certFromACME_def Let_def)
  show ?thesis
  proof (cases "List.find ?good ?cs")
    case (Some c)
    then have "c \<in> fit" "pick_cert host None ?cs = Some c"
      using find_Some_set [OF Some] cs by (auto simp: assms(4,6) matchesDomain_covers pick_cert_find)
    moreover have "fit \<subseteq> certs" by (auto simp: assms(6))
    ultimately show ?thesis using run by auto
  next
    case None
    then have fit: "fit = {}" using cs by (auto simp: assms(4,6) matchesDomain_covers find_None_iff)
    have pick: "pick_cert host None ?cs = List.find cert_usable ?cs" using None by (simp add: pick_cert_find)
    show ?thesis
    proof (cases "List.find cert_usable ?cs")
      case None
      then have "certs = {}" using cs by (auto simp: assms(4) find_None_iff)
      with None run pick show ?thesis by simp
    next
      case (Some c)
      then have "c \<in> certs" using find_Some_set [OF Some] cs by (auto simp: assms(4))
      with Some run pick fit show ?thesis by auto
    qed
  qed
qed

theorem acme_selection_witness:
  "certFromACME (demo_disk 1 (Some (demo_doc [(''other.example'', ''QQ=='', ''QQ==''), (''*.EXAMPLE'', ''Qg=='', ''Qg==''),
      (''Vpn.Example'', ''Qw=='', ''Qw=='')]))) (\<lambda>_ m. rev m) ''acme.json'' '' VPN.example '' = Ok ([67], [67])"
proof -
  let ?doc = "demo_doc [(''other.example'', ''QQ=='', ''QQ==''), (''*.EXAMPLE'', ''Qg=='', ''Qg==''),
      (''Vpn.Example'', ''Qw=='', ''Qw=='')]"
  let ?c = "\<lambda>m x. \<lparr>ac_Main = m, ac_SANs = [], ac_Certificate = x, ac_Key = x\<rparr>"
  obtain rs where rs: "get_raw_map ?doc = Some rs"
    and certs: "store_certs (\<lambda>_ m. m) rs = [?c ''other.example'' ''QQ=='', ?c ''*.EXAMPLE'' ''Qg=='', ?c ''Vpn.Example'' ''Qw=='']"
  proof
    show "get_raw_map ?doc = Some (case ?doc of JObj ms \<Rightarrow> ms)" by (simp add: demo_doc_def)
    show "store_certs (\<lambda>_ m. m) (case ?doc of JObj ms \<Rightarrow> ms) =
      [?c ''other.example'' ''QQ=='', ?c ''*.EXAMPLE'' ''Qg=='', ?c ''Vpn.Example'' ''Qw=='']" by code_simp
  qed
  have host: "ToLower (TrimSpace '' VPN.example '') = ''vpn.example''" by code_simp
  have us: "cert_usable (?c m x) \<longleftrightarrow> x \<noteq> []" for m x by (simp add: cert_usable_def)
  have cov: "\<not> matchesDomain (?c ''other.example'' ''QQ=='') ''vpn.example''"
    "\<not> matchesDomain (?c ''*.EXAMPLE'' ''Qg=='') ''vpn.example''"
    "matchesDomain (?c ''Vpn.Example'' ''Qw=='') ''vpn.example''" by code_simp+
  let ?certs = "{c \<in> set (store_certs (\<lambda>_ m. m) rs). cert_usable c}"
  let ?fit = "{c \<in> ?certs. ''vpn.example'' = [] \<or> cert_covers c ''vpn.example''}"
  have fit: "?fit = {?c ''Vpn.Example'' ''Qw==''}" using cov by (auto simp: certs us matchesDomain_covers)
  then have ne: "?fit \<noteq> {}" "?certs \<noteq> {}" by auto
  have "if ?certs = {} then certFromACME (demo_disk 1 (Some ?doc)) (\<lambda>_ m. rev m) ''acme.json'' '' VPN.example '' =
      Err (''no usable certificate found in '' @ ''acme.json'')
    else \<exists>c \<in> (if ?fit = {} then ?certs else ?fit).
      certFromACME (demo_disk 1 (Some ?doc)) (\<lambda>_ m. rev m) ''acme.json'' '' VPN.example '' = decodeACMEPair c"
    by (rule acme_selection [OF _ _ rs refl host [symmetric] refl]) (simp_all add: demo_disk_def)
  then have "certFromACME (demo_disk 1 (Some ?doc)) (\<lambda>_ m. rev m) ''acme.json'' '' VPN.example '' =
      decodeACMEPair (?c ''Vpn.Example'' ''Qw=='')"
    unfolding if_not_P [OF ne(1)] if_not_P [OF ne(2)] unfolding fit by blast
  moreover have "decodeACMEPair (?c ''Vpn.Example'' ''Qw=='') = Ok ([67], [67])" by code_simp
  ultimately show ?thesis by simp
qed

text \<open>C24: once the server has started with a certificate, every TLS handshake is served one.
  Whatever becomes of the files in the meantime (missing, unreadable, half written, a key
  that does not fit), the answer is a certificate that was complete on the disk at this or an
  earlier handshake or at the start.\<close>

theorem serves_last_good:
  assumes "newTraefik e0 visit0 now0 cfg = Ok p"
  shows "\<exists>c p'. GetCertificate e visit now cfg (after cfg es p) = (Ok (Some c), p') \<and>
    from_disk cfg ((e0, visit0, now0) # es @ [(e, visit, now)]) c"
proof -
  obtain c0 where c0: "tp_current p = Some c0" "from_disk cfg [(e0, visit0, now0)] c0"
    using newTraefik_current [OF assms] by auto
  from after_current [OF this, of es] obtain c
    where c: "tp_current (after cfg es p) = Some c" "from_disk cfg ([(e0, visit0, now0)] @ es) c" by blast
  from GetCertificate_cases [OF c(1), of e visit now cfg] c(2) show ?thesis
    by auto
qed

theorem serves_last_good_witness:
  "\<exists>p c p'. newTraefik (demo_disk 1 (Some (demo_doc [(''vpn.example'', ''QQ=='', ''QQ=='')]))) (\<lambda>_ m. m) 0 demo_cert_cfg = Ok p \<and>
    GetCertificate (demo_disk 2 None) (\<lambda>_ m. m) 5 demo_cert_cfg p = (Ok (Some c), p')"
proof -
  have "is_Ok (newTraefik (demo_disk 1 (Some (demo_doc [(''vpn.example'', ''QQ=='', ''QQ=='')]))) (\<lambda>_ m. m) 0 demo_cert_cfg)"
    by code_simp
  then obtain p where "newTraefik (demo_disk 1 (Some (demo_doc [(''vpn.example'', ''QQ=='', ''QQ=='')]))) (\<lambda>_ m. m) 0 demo_cert_cfg = Ok p"
    by (auto simp: is_Ok_conv)
  from this serves_last_good [OF this, of "demo_disk 2 None" "\<lambda>_ m. m" 5 "[]"] show ?thesis
    by (auto simp: after_def)
qed

text \<open>A renewal is picked up without a restart. When the source has changed, the first
  handshake that finds it complete serves the new certificate and so do all later ones, until
  it changes again; handshakes that found it incomplete in between have served the old one
  and do not keep the new one from being loaded.\<close>

lemma renewal_picked_up:
  assumes "tp_current p = Some old" "\<forall>(e, visit, now) \<in> set failing. disk_cert e visit cfg = None"
    and "disk_cert e visit cfg = Some (path, mtime, c)" "mtime \<noteq> tp_modTime p \<or> path \<noteq> tp_source p"
    and "\<forall>(e, visit, now) \<in> set later. \<forall>q m d. disk_cert e visit cfg = Some (q, m, d) \<longrightarrow> q = path \<and> m = mtime"
  shows "tp_current (after cfg failing p) = Some old \<and>
    tp_current (after cfg (failing @ (e, visit, now) # later) p) = Some c"
proof -
  have 1: "after cfg failing p = p" using assms(1,2) by (intro after_failing) auto
  let ?q = "\<lparr>tp_current = Some c, tp_loadedAt = now, tp_source = path, tp_modTime = mtime\<rparr>"
  have 2: "snd (GetCertificate e visit now cfg p) = ?q"
    using GetCertificate_fresh [OF assms(3), of p now] assms(4) by auto
  have "after cfg later ?q = ?q" using assms(5)
  proof (induction later)
    case (Cons x later)
    obtain e' v' n' where x: "x = (e', v', n')" by (cases x) auto
    have "GetCertificate e' v' n' cfg ?q = (Ok (Some c), ?q)"
      using Cons.prems x by (intro GetCertificate_keeps) auto
    with Cons x show ?case by (simp add: after_def)
  qed (simp add: after_def)
  moreover have "after cfg (failing @ (e, visit, now) # later) p = after cfg later ?q"
    using 1 2 by (simp add: after_def)
  ultimately show ?thesis using 1 assms(1) by simp
qed

lemma renewal_picked_up_witness:
  "tp_current (after demo_cert_cfg
      [(demo_disk 2 None, \<lambda>_ m. m, 10), (demo_disk 2 (Some (demo_doc [(''vpn.example'', ''Qg=='', ''Qg=='')])), \<lambda>_ m. m, 20)]
      \<lparr>tp_current = Some ([65], [65]), tp_loadedAt = 0, tp_source = ''acme.json'', tp_modTime = 1\<rparr>) = Some ([66], [66])"
proof -
  have a: "disk_cert (demo_disk 2 None) (\<lambda>_ m. m) demo_cert_cfg = None" by code_simp
  have b: "disk_cert (demo_disk 2 (Some (demo_doc [(''vpn.example'', ''Qg=='', ''Qg=='')]))) (\<lambda>_ m. m) demo_cert_cfg =
      Some (''acme.json'', 2, [66], [66])" by code_simp
  show ?thesis
    using renewal_picked_up [OF _ _ b, of "\<lparr>tp_current = Some ([65], [65]), tp_loadedAt = 0, tp_source = ''acme.json'', tp_modTime = 1\<rparr>"
        "([65], [65])" "[(demo_disk 2 None, \<lambda>_ m. m, 10)]" "[]" 20] a by simp
qed

text \<open>With several certificates and none for the domain, which one is served depends on the
  order in which the map of resolvers is visited.\<close>

lemma acme_fallback_arbitrary:
  "\<exists>doc visit visit'. (\<forall>p m. set (visit p m) = set m \<and> set (visit' p m) = set m) \<and>
    certFromACME (demo_disk 1 (Some doc)) visit ''acme.json'' ''vpn.example'' = Ok ([65], [65]) \<and>
    certFromACME (demo_disk 1 (Some doc)) visit' ''acme.json'' ''vpn.example'' = Ok ([66], [66])"
proof (intro exI conjI)
  let ?r = "\<lambda>dom x. JObj [(''Certificates'', JArr [JObj [(''domain'', JObj [(''main'', JStr dom)]), (''certificate'', JStr x), (''key'', JStr x)]])]"
  let ?doc = "JObj [(''a'', ?r ''a.example'' ''QQ==''), (''b'', ?r ''b.example'' ''Qg=='')]"
  show "certFromACME (demo_disk 1 (Some ?doc)) (\<lambda>_ m. m) ''acme.json'' ''vpn.example'' = Ok ([65], [65])" by code_simp
  show "certFromACME (demo_disk 1 (Some ?doc)) (\<lambda>_ m. rev m) ''acme.json'' ''vpn.example'' = Ok ([66], [66])" by code_simp
qed simp_all

end
