(* ===== verification/GoUrl.thy ===== *)
theory GoUrl
  imports GoNet "HOL-Library.List_Lexorder" "HOL-Library.Char_ord"
begin

text \<open>
  Go's package \<open>net/url\<close> as the connect URIs use it: escaping, query strings, and \<open>Parse\<close>
  reduced to what the callers look at, the scheme and the raw query, with the errors of the
  whole parser.
\<close>

section \<open>Escaping\<close>

definition is_alnum :: "char \<Rightarrow> bool" where
  "is_alnum c \<longleftrightarrow>
     (let n = of_char c :: nat in 97 \<le> n \<and> n \<le> 122 \<or> 65 \<le> n \<and> n \<le> 90 \<or> 48 \<le> n \<and> n \<le> 57)"

definition is_unreserved :: "char \<Rightarrow> bool" where
  "is_unreserved c \<longleftrightarrow> is_alnum c \<or> c \<in> set ''-_.~''"

definition upper_hex :: "nat \<Rightarrow> char" where
  "upper_hex n = (if n < 10 then char_of (48 + n) else char_of (55 + n))"

definition esc_char :: "char \<Rightarrow> string" where
  "esc_char c =
     (if is_unreserved c then [c]
      else if c = CHR '' '' then ''+''
      else let n = of_char c :: nat in [CHR ''%'', upper_hex (n div 16), upper_hex (n mod 16)])"

definition QueryEscape :: "string \<Rightarrow> string" where
  "QueryEscape s = concat (map esc_char s)"

datatype url_mode = ModeQuery | ModePath | ModeHost | ModeZone

definition host_char :: "char \<Rightarrow> bool" where
  "host_char c \<longleftrightarrow> is_unreserved c \<or> c \<in> set ''!$&()*+,;=:[]<>'' \<or> c = CHR 0x27 \<or> c = CHR 0x22"

fun unescape :: "url_mode \<Rightarrow> string \<Rightarrow> string option" where
  "unescape m [] = Some []"
| "unescape m (c # s) =
     (if c = CHR ''%'' then
        (case s of
           a # b # s' \<Rightarrow>
             (case (hex_val a, hex_val b) of
                (Some h, Some l) \<Rightarrow>
                  if m = ModeHost \<and> h < 8 \<and> [a, b] \<noteq> ''25'' then None
                  else if m = ModeZone \<and> [a, b] \<noteq> ''25'' \<and> char_of (16 * h + l) \<noteq> CHR '' '' \<and>
                    \<not> host_char (char_of (16 * h + l)) then None
                  else map_option ((#) (char_of (16 * h + l))) (unescape m s')
              | _ \<Rightarrow> None)
         | _ \<Rightarrow> None)
      else if m = ModeQuery \<and> c = CHR ''+'' then map_option ((#) (CHR '' '')) (unescape m s)
      else if (m = ModeHost \<or> m = ModeZone) \<and> (of_char c :: nat) < 128 \<and> \<not> host_char c then None
      else map_option ((#) c) (unescape m s))"

definition QueryUnescape :: "string \<Rightarrow> string option" where
  "QueryUnescape = unescape ModeQuery"

section \<open>Values\<close>

text \<open>
  A \<open>url.Values\<close> as its entries; \<open>Set\<close> replaces the entries of a key, \<open>Encode\<close> sorts by
  key, \<open>Get\<close> takes the first value or the empty string.
\<close>

type_synonym url_values = "(string \<times> string) list"

definition Values_Set :: "string \<Rightarrow> string \<Rightarrow> url_values \<Rightarrow> url_values" where
  "Values_Set k v q = filter (\<lambda>(k', _). k' \<noteq> k) q @ [(k, v)]"

definition Values_Get :: "url_values \<Rightarrow> string \<Rightarrow> string" where
  "Values_Get q k = (case map_of q k of Some v \<Rightarrow> v | None \<Rightarrow> [])"

definition Encode :: "url_values \<Rightarrow> string" where
  "Encode q = Join (map (\<lambda>(k, v). QueryEscape k @ ''='' @ QueryEscape v) (sort_key fst q)) ''&''"

text \<open>\<open>Query\<close> drops malformed entries.\<close>

definition parse_entry :: "string \<Rightarrow> (string \<times> string) option" where
  "parse_entry e =
     (if CHR '';'' \<in> set e \<or> e = [] then None
      else let (k, v, _) = Cut (CHR ''='') e
           in case (QueryUnescape k, QueryUnescape v) of
                (Some k', Some v') \<Rightarrow> Some (k', v')
              | _ \<Rightarrow> None)"

definition Query :: "string \<Rightarrow> url_values" where
  "Query raw = (if raw = [] then [] else List.map_filter parse_entry (Split (CHR ''&'') raw))"

section \<open>Parse\<close>

text \<open>\<open>getScheme\<close>: the scheme and the rest, or an error for a leading colon.\<close>

fun get_scheme :: "string \<Rightarrow> string \<Rightarrow> string \<Rightarrow> (string \<times> string) option" where
  "get_scheme raw acc [] = Some ([], raw)"
| "get_scheme raw acc (c # s) =
     (let n = of_char c :: nat
      in if 97 \<le> n \<and> n \<le> 122 \<or> 65 \<le> n \<and> n \<le> 90 then get_scheme raw (acc @ [c]) s
         else if is_digit c \<or> c \<in> set ''+-.'' then
           (if acc = [] then Some ([], raw) else get_scheme raw (acc @ [c]) s)
         else if c = CHR '':'' then (if acc = [] then None else Some (acc, s))
         else Some ([], raw))"

definition valid_optional_port :: "string \<Rightarrow> bool" where
  "valid_optional_port p \<longleftrightarrow> p = [] \<or> hd p = CHR '':'' \<and> list_all is_digit (tl p)"

fun find_zone :: "string \<Rightarrow> nat option" where
  "find_zone [] = None"
| "find_zone (c # s) = (if HasPrefix (c # s) ''%25'' then Some 0 else map_option Suc (find_zone s))"

definition parse_host_ok :: "string \<Rightarrow> bool" where
  "parse_host_ok h =
     (if HasPrefix h ''['' then
        (case last_index (CHR '']'') h of
           None \<Rightarrow> False
         | Some i \<Rightarrow>
             valid_optional_port (drop (i + 1) h) \<and>
             (case find_zone (take i h) of
                None \<Rightarrow> unescape ModeHost h \<noteq> None
              | Some z \<Rightarrow>
                  unescape ModeHost (take z h) \<noteq> None \<and>
                  unescape ModeZone (take (i - z) (drop z h)) \<noteq> None \<and>
                  unescape ModeHost (drop i h) \<noteq> None))
      else
        (case last_index (CHR '':'') h of
           None \<Rightarrow> True
         | Some i \<Rightarrow> valid_optional_port (drop i h)) \<and>
        unescape ModeHost h \<noteq> None)"

definition valid_userinfo :: "string \<Rightarrow> bool" where
  "valid_userinfo s \<longleftrightarrow> list_all (\<lambda>c. is_alnum c \<or> c \<in> set ''-._:~!$&()*+,;=%@'' \<or> c = CHR 0x27) s"

definition parse_authority_ok :: "string \<Rightarrow> bool" where
  "parse_authority_ok a =
     (case last_index (CHR ''@'') a of
        None \<Rightarrow> parse_host_ok a
      | Some i \<Rightarrow>
          parse_host_ok (drop (i + 1) a) \<and> valid_userinfo (take i a) \<and> unescape ModePath (take i a) \<noteq> None)"

record parsed_url =
  u_scheme :: string
  u_query :: string

text \<open>What follows the scheme, without the query: the errors it can give.\<close>

definition hier_ok :: "string \<Rightarrow> string \<Rightarrow> bool" where
  "hier_ok scheme rest =
     (if \<not> HasPrefix rest ''/'' then
        scheme \<noteq> [] \<or> (CHR '':'' \<notin> set (fst (Cut (CHR ''/'') rest)) \<and> unescape ModePath rest \<noteq> None)
      else if (scheme \<noteq> [] \<or> \<not> HasPrefix rest ''///'') \<and> HasPrefix rest ''//'' then
        (let a = takeWhile (\<lambda>c. c \<noteq> CHR ''/'') (drop 2 rest);
             path = dropWhile (\<lambda>c. c \<noteq> CHR ''/'') (drop 2 rest)
         in parse_authority_ok a \<and> unescape ModePath path \<noteq> None)
      else unescape ModePath rest \<noteq> None)"

definition Parse :: "string \<Rightarrow> parsed_url option" where
  "Parse s =
     (let (u, frag, _) = Cut (CHR ''#'') s
      in if list_ex (\<lambda>c. (of_char c :: nat) < 32 \<or> (of_char c :: nat) = 127) u then None
         else if unescape ModePath frag = None then None
         else if u = ''*'' then Some \<lparr>u_scheme = [], u_query = []\<rparr>
         else case get_scheme u [] u of
           None \<Rightarrow> None
         | Some (sch, rest0) \<Rightarrow>
             let scheme = ToLower sch;
                 (rest, raw, _) = Cut (CHR ''?'') rest0
             in if hier_ok scheme rest then Some \<lparr>u_scheme = scheme, u_query = raw\<rparr> else None)"

section \<open>Laws\<close>

lemma hex_val_upper_hex [simp]: "n < 16 \<Longrightarrow> hex_val (upper_hex n) = Some n"
  by (simp add: upper_hex_def hex_val_def Let_def)

lemma upper_hex_facts:
  "n < 16 \<Longrightarrow> is_alnum (upper_hex n)"
  by (simp add: upper_hex_def is_alnum_def Let_def)

lemma of_char_less_256: "(of_char c :: nat) < 256"
  by (metis of_char_mod_256 mod_less_divisor zero_less_numeral)

lemma unescape_unreserved:
  assumes "is_unreserved c"
  shows "unescape ModeQuery (c # s) = map_option ((#) c) (unescape ModeQuery s)"
proof -
  have "c \<noteq> CHR ''%''" "c \<noteq> CHR ''+''" using assms by (auto simp: is_unreserved_def is_alnum_def Let_def)
  then show ?thesis by simp
qed

lemma of_char_nibbles: "(of_char c :: nat) div 16 < 16" "(of_char c :: nat) mod 16 < 16"
  using of_char_less_256 [of c] by (simp_all add: less_mult_imp_div_less)

lemma unescape_esc_char: "unescape ModeQuery (esc_char c @ s) = map_option ((#) c) (unescape ModeQuery s)"
proof -
  consider "is_unreserved c" | "\<not> is_unreserved c" "c = CHR '' ''" | "\<not> is_unreserved c" "c \<noteq> CHR '' ''"
    by blast
  then show ?thesis
  proof cases
    case 1
    then show ?thesis by (simp add: esc_char_def unescape_unreserved del: unescape.simps(2))
  next
    case 2
    then show ?thesis by (simp add: esc_char_def)
  next
    case 3
    then show ?thesis by (simp add: esc_char_def Let_def of_char_nibbles)
  qed
qed

lemma QueryUnescape_QueryEscape [simp, go_lib]: "QueryUnescape (QueryEscape s) = Some s"
  by (induction s) (simp_all add: QueryEscape_def QueryUnescape_def unescape_esc_char)

text \<open>The characters an escaped string can contain.\<close>

definition query_char :: "char \<Rightarrow> bool" where
  "query_char c \<longleftrightarrow> is_unreserved c \<or> c = CHR ''%'' \<or> c = CHR ''+''"

lemma QueryEscape_chars: "c \<in> set (QueryEscape s) \<Longrightarrow> query_char c"
  by (auto simp: QueryEscape_def esc_char_def query_char_def is_unreserved_def upper_hex_facts of_char_nibbles
      Let_def split: if_splits)

lemma query_char_plain:
  assumes "query_char c"
  shows "c \<noteq> CHR ''&''" "c \<noteq> CHR ''=''" "c \<noteq> CHR '';''" "c \<noteq> CHR ''#''" "c \<noteq> CHR ''?''"
    "\<not> is_space c" "32 \<le> (of_char c :: nat)" "(of_char c :: nat) \<noteq> 127"
  using assms by (auto simp: query_char_def is_unreserved_def is_alnum_def is_space_def Let_def)

lemma QueryEscape_plain:
  "CHR ''&'' \<notin> set (QueryEscape s)" "CHR ''='' \<notin> set (QueryEscape s)" "CHR '';'' \<notin> set (QueryEscape s)"
  using QueryEscape_chars query_char_plain by blast+

lemma parse_entry_escaped:
  "parse_entry (QueryEscape k @ CHR ''='' # QueryEscape v) = Some (k, v)"
  by (simp add: parse_entry_def QueryEscape_plain Cut_append_sep)

lemma map_filter_Some: "List.map_filter f (map g xs) = map h xs" if "\<And>x. f (g x) = Some (h x)"
  using that by (simp add: List.map_filter_def o_def)

lemma Split_Join:
  "\<forall>p \<in> set ps. c \<notin> set p \<Longrightarrow> ps \<noteq> [] \<Longrightarrow> Split c (Join ps [c]) = ps"
proof (induction ps rule: induct_list012)
  case (3 p q ps)
  then show ?case by (simp add: Split_append_sep)
qed (simp_all add: Split_no_sep)

text \<open>Reading back what \<open>Encode\<close> writes gives the entries, sorted.\<close>

lemma Query_Encode: "Query (Encode q) = sort_key fst q"
proof (cases "q = []")
  case True
  then show ?thesis by (simp add: Query_def Encode_def)
next
  case False
  let ?e = "\<lambda>(k, v). QueryEscape k @ ''='' @ QueryEscape v" and ?q = "sort_key fst q"
  have q: "?q \<noteq> []" using False by (metis length_0_conv length_sort)
  have plain: "\<forall>p \<in> set (map ?e ?q). CHR ''&'' \<notin> set p" by (auto simp: QueryEscape_plain)
  have split: "Split (CHR ''&'') (Encode q) = map ?e ?q"
    unfolding Encode_def by (rule Split_Join [OF plain]) (use q in simp)
  have "Encode q \<noteq> []"
  proof
    assume "Encode q = []"
    with split have "map ?e ?q = [[]]" by simp
    then show False by auto
  qed
  moreover have "List.map_filter parse_entry (map ?e ?q) = map (\<lambda>x. x) ?q"
    by (rule map_filter_Some) (auto simp: parse_entry_escaped)
  ultimately show ?thesis by (simp add: Query_def split)
qed

lemma Encode_chars: "c \<in> set (Encode q) \<Longrightarrow> query_char c \<or> c = CHR ''='' \<or> c = CHR ''&''"
proof -
  have join: "c \<in> set (Join ps ''&'') \<Longrightarrow> c = CHR ''&'' \<or> (\<exists>p \<in> set ps. c \<in> set p)" for c ps
    by (induction ps rule: induct_list012) auto
  assume "c \<in> set (Encode q)"
  from join [OF this [unfolded Encode_def]] show ?thesis by (auto dest: QueryEscape_chars)
qed

end
