(* ===== verification/Provision.thy ===== *)
theory Provision
  imports GoUrl GoBase64
begin

text \<open>
  The connect string of \<open>internal/provision/provision.go\<close>: a profile is written as an
  \<open>arnos://\<close> URI and read back from one.
\<close>

record profile =
  Host :: string
  Port :: int
  Path :: string
  SNI :: string
  p_PSK :: bytes
  p_Name :: string

definition Scheme :: string where "Scheme = ''arnos''"

definition URI :: "profile \<Rightarrow> string" where
  "URI p =
     (let sni = (if SNI p = [] then Host p else SNI p);
          q = Values_Set ''host'' (Host p) [];
          q = Values_Set ''port'' (FormatInt (Port p)) q;
          q = Values_Set ''path'' (Path p) q;
          q = Values_Set ''sni'' sni q;
          q = Values_Set ''psk'' (EncodeToString RawURLEncoding (p_PSK p)) q;
          q = (if p_Name p \<noteq> [] then Values_Set ''name'' (p_Name p) q else q)
      in Scheme @ ''://connect?'' @ Encode q)"

definition ParseURI :: "string \<Rightarrow> profile result" where
  "ParseURI s =
     (case Parse (TrimSpace s) of
        None \<Rightarrow> Err ''parse''
      | Some u \<Rightarrow>
          if u_scheme u \<noteq> Scheme then Err ''not an arnos:// URI''
          else
            let q = Query (u_query u);
                host = Values_Get q ''host'';
                path = Values_Get q ''path'';
                sni = Values_Get q ''sni'';
                v = Values_Get q ''port''
            in if host = [] then Err ''missing host''
               else case DecodeString RawURLEncoding (Values_Get q ''psk'') of
                 None \<Rightarrow> Err ''bad psk''
               | Some psk \<Rightarrow>
                   Ok \<lparr>Host = host,
                       Port = (if v \<noteq> [] then (case Atoi v of Some n \<Rightarrow> n | None \<Rightarrow> 443) else 443),
                       Path = (if path = [] then ''/'' else path),
                       SNI = (if sni = [] then host else sni),
                       p_PSK = psk, p_Name = Values_Get q ''name''\<rparr>)"

section \<open>QR codes\<close>

text \<open>The package that computes and draws the codes, for medium error correction.\<close>

record qr_package =
  qr_New :: "string \<Rightarrow> bool list list result"
  qr_ToSmallString :: "bool list list \<Rightarrow> string"
  qr_Encode :: "string \<Rightarrow> int \<Rightarrow> string result"

definition QRString :: "qr_package \<Rightarrow> profile \<Rightarrow> string result" where
  "QRString qr p = bind_result (qr_New qr (URI p)) (\<lambda>q. Ok (qr_ToSmallString qr q))"

definition QRPNG :: "qr_package \<Rightarrow> profile \<Rightarrow> int \<Rightarrow> string result" where
  "QRPNG qr p pixels = qr_Encode qr (URI p) pixels"

section \<open>Lemmas\<close>

text \<open>The entries \<open>URI\<close> writes, as a reader finds them.\<close>

definition uri_values :: "profile \<Rightarrow> url_values" where
  "uri_values p =
     [(''host'', Host p), (''port'', FormatInt (Port p)), (''path'', Path p),
      (''sni'', if SNI p = [] then Host p else SNI p), (''psk'', EncodeToString RawURLEncoding (p_PSK p))] @
     (if p_Name p \<noteq> [] then [(''name'', p_Name p)] else [])"

lemma URI_conv: "URI p = ''arnos://connect?'' @ Encode (uri_values p)"
  by (simp add: URI_def Scheme_def uri_values_def Values_Set_def Let_def)

lemma map_of_sort_key:
  assumes "distinct (map fst q)"
  shows "map_of (sort_key fst q) = map_of q"
proof (rule map_of_inject_set [THEN iffD2])
  show "distinct (map fst (sort_key fst q))"
    using assms by (simp add: distinct_map)
qed (use assms in simp_all)

lemma Parse_URI:
  "Parse (TrimSpace (URI p)) = Some \<lparr>u_scheme = Scheme, u_query = Encode (uri_values p)\<rparr>"
proof -
  let ?e = "Encode (uri_values p)"
  have ns: "list_all (\<lambda>c. \<not> is_space c) (URI p)"
    using Encode_chars [of _ "uri_values p"] query_char_plain(6)
    by (auto simp: URI_conv list_all_iff is_space_def)
  then have trim: "TrimSpace (URI p) = URI p" by (rule TrimSpace_no_space)
  have chars: "CHR ''#'' \<notin> set ?e" "\<not> list_ex (\<lambda>c. (of_char c :: nat) < 32 \<or> (of_char c :: nat) = 127) ?e"
    using Encode_chars [of _ "uri_values p"] query_char_plain(4,7,8)
    by (auto simp: list_ex_iff) (fastforce simp: not_less)+
  have cut: "Cut (CHR ''#'') (URI p) = (URI p, [], False)"
    using chars(1) by (intro Cut_no_sep) (simp add: URI_conv)
  have sch: "get_scheme (URI p) [] (URI p) = Some (''arnos'', ''//connect?'' @ ?e)"
    by (simp add: URI_conv is_digit_def)
  have hier: "hier_ok ''arnos'' ''//connect''"
    by (simp add: hier_ok_def HasPrefix_def parse_authority_ok_def parse_host_ok_def host_char_def
        is_unreserved_def is_alnum_def)
  have q: "Cut (CHR ''?'') (''//connect?'' @ ?e) = (''//connect'', ?e, True)"
    using Cut_append_sep [of "CHR ''?''" "''//connect''" ?e] by simp
  have ctl: "\<not> list_ex (\<lambda>c. (of_char c :: nat) < 32 \<or> (of_char c :: nat) = 127) (URI p)" "URI p \<noteq> ''*''"
    using chars(2) by (simp_all add: URI_conv)
  have low: "ToLower ''arnos'' = ''arnos''" by (simp add: ToLower_def lower_char_def)
  show ?thesis
    by (simp only: Parse_def trim cut Let_def prod.case ctl if_False sch option.case low q hier if_True
        unescape.simps(1) option.distinct Scheme_def)
qed

lemma Get_uri_values:
  "Values_Get (Query (Encode (uri_values p))) k = Values_Get (uri_values p) k"
proof -
  have "distinct (map fst (uri_values p))" by (simp add: uri_values_def)
  then show ?thesis by (simp add: Query_Encode Values_Get_def map_of_sort_key)
qed

lemma uri_values_get:
  "Values_Get (uri_values p) ''host'' = Host p" "Values_Get (uri_values p) ''port'' = FormatInt (Port p)"
  "Values_Get (uri_values p) ''path'' = Path p" "Values_Get (uri_values p) ''name'' = p_Name p"
  "Values_Get (uri_values p) ''sni'' = (if SNI p = [] then Host p else SNI p)"
  "Values_Get (uri_values p) ''psk'' = EncodeToString RawURLEncoding (p_PSK p)"
  by (simp_all add: uri_values_def Values_Get_def)

lemma ParseURI_of_URI:
  assumes "Host p \<noteq> []" "Path p \<noteq> []" "in_int64 (Port p)"
  shows "ParseURI (URI p) = Ok (p\<lparr>SNI := if SNI p = [] then Host p else SNI p\<rparr>)"
  using assms
  by (simp add: ParseURI_def Parse_URI Get_uri_values uri_values_get Let_def Atoi_FormatInt)

section \<open>Properties\<close>

text \<open>C26: the connect string round-trips. Reading back the URI of any profile with a host, a
  path and a 64-bit port gives the profile, with the server name indication defaulted to
  the host.\<close>

theorem ParseURI_URI:
  assumes "Host p \<noteq> []" "Path p \<noteq> []" "in_int64 (Port p)"
  shows "ParseURI (URI p) = Ok (p\<lparr>SNI := if SNI p = [] then Host p else SNI p\<rparr>)"
  using ParseURI_of_URI [OF assms] .

theorem ParseURI_URI_witness:
  "ParseURI (URI \<lparr>Host = ''vpn.example.com'', Port = 8443, Path = ''/a b'', SNI = [], p_PSK = replicate 32 255,
      p_Name = ''caf&''\<rparr>) =
    Ok \<lparr>Host = ''vpn.example.com'', Port = 8443, Path = ''/a b'', SNI = ''vpn.example.com'',
      p_PSK = replicate 32 255, p_Name = ''caf&''\<rparr>"
  by (subst ParseURI_URI) (simp_all add: in_int64_def)

end
