(* ===== verification/ServerStart.thy ===== *)
theory ServerStart
  imports Channel HostNet Cert Provision
begin

text \<open>
  The life of a server process: the TUN device (\<open>internal/server/tun.go\<close>), \<open>New\<close>, \<open>Close\<close> and
  \<open>Serve\<close> of \<open>internal/server/server.go\<close>, the main program \<open>cmd/arnosvpn-server\<close> and the
  operator's helper \<open>cmd/arnosvpnctl\<close>. The TUN package, the listening socket, the HTTP server
  and the QR renderer are arguments.
\<close>

section \<open>The TUN device\<close>

text \<open>
  The host as seen by the server: its commands and routes, and the TUN package, which opens
  a device under a suggested name and closes one.
\<close>

record 'h net_env =
  ne_ops :: "'h host_ops"
  ne_routes :: "string list result"
  ne_ifaces :: "iface list"
  ne_open :: "string \<Rightarrow> 'h \<Rightarrow> string result \<times> 'h"
  ne_close :: "string \<Rightarrow> 'h \<Rightarrow> 'h"

record tun_device =
  td_name :: string
  td_mtu :: int

definition openTUN :: "'h net_env \<Rightarrow> string \<Rightarrow> int \<Rightarrow> 'h \<Rightarrow> tun_device result \<times> 'h" where
  "openTUN E name mtu h =
     (case ne_open E name h of
        (Ok actual, h1) \<Rightarrow> (Ok \<lparr>td_name = actual, td_mtu = mtu\<rparr>, h1)
      | (Err e, h1) \<Rightarrow> (Err (''open tun: '' @ e), h1)
      | (Panic e, h1) \<Rightarrow> (Panic e, h1))"

section \<open>New and Close\<close>

record running =
  ru_server :: server
  ru_net :: net_config
  ru_tun :: tun_device

definition New :: "'h net_env \<Rightarrow> server_config \<Rightarrow> 'h \<Rightarrow> running result \<times> 'h" where
  "New E cfg h =
     (case newIPPool (TunnelCIDR cfg) (Gateway cfg) of
        Err e \<Rightarrow> (Err e, h)
      | Panic e \<Rightarrow> (Panic e, h)
      | Ok pool \<Rightarrow>
          (case openTUN E ''arnos0'' (MTU cfg) h of
             (Err e, h1) \<Rightarrow> (Err e, h1)
           | (Panic e, h1) \<Rightarrow> (Panic e, h1)
           | (Ok tun, h1) \<Rightarrow>
               (case configureNetwork (ne_ops E) (ne_routes E) (ne_ifaces E) (td_name tun) (Gateway cfg) (TunnelCIDR cfg)
                       (int (Ones pool)) (WANInterface cfg) h1 of
                  (Err e, h2) \<Rightarrow> (Err e, ne_close E (td_name tun) h2)
                | (Panic e, h2) \<Rightarrow> (Panic e, h2)
                | (Ok netcfg, h2) \<Rightarrow>
                    (Ok \<lparr>ru_server = \<lparr>srv_cfg = cfg, srv_pool = pool, srv_replay = newReplayGuard,
                                      srv_clients = Map.empty, srv_heap = Map.empty\<rparr>,
                         ru_net = netcfg, ru_tun = tun\<rparr>, h2))))"

definition server_Close :: "'h net_env \<Rightarrow> running \<Rightarrow> 'h \<Rightarrow> 'h" where
  "server_Close E ru h = ne_close E (td_name (ru_tun ru)) (snd (Teardown (ne_ops E) (ru_net ru) h))"

section \<open>Serve\<close>

datatype listener = Plain string | TLSOver tls_config string

definition ErrServerClosed :: string where "ErrServerClosed = ''http: Server closed''"

text \<open>\<open>http_serve\<close> is the HTTP server's run on a listener until it ends.\<close>

definition Serve :: "(listener \<Rightarrow> unit result) \<Rightarrow> string \<Rightarrow> tls_config option \<Rightarrow> unit result" where
  "Serve http_serve ln tlsConf =
     (let err = http_serve (case tlsConf of None \<Rightarrow> Plain ln | Some tc \<Rightarrow> TLSOver tc ln)
      in if err = Err ErrServerClosed then Ok () else err)"

section \<open>The connect profile\<close>

definition public_host :: "server_config \<Rightarrow> string" where
  "public_host cfg = (if PublicHost cfg = [] then ''<your-domain>'' else PublicHost cfg)"

definition server_profile :: "server_config \<Rightarrow> profile" where
  "server_profile cfg =
     \<lparr>Host = public_host cfg, Port = PublicPort cfg, Path = WSPath cfg, SNI = public_host cfg,
      p_PSK = PSK cfg, p_Name = ''arnosvpn''\<rparr>"

text \<open>The lines of the log.\<close>

definition printProfile :: "qr_package \<Rightarrow> server_config \<Rightarrow> string \<Rightarrow> string list" where
  "printProfile qr cfg bind =
     (let uri = URI (server_profile cfg)
      in [''tls mode: '' @ TLSMode cfg,
          ''internal bind: '' @ bind @ '' (expose this port in Coolify)'',
          ''connect URI: '' @ uri] @
         (case QRString qr (server_profile cfg) of Ok code \<Rightarrow> [''scan to configure a client:'' @ [LF] @ code] | _ \<Rightarrow> []) @
         (if public_host cfg = ''<your-domain>''
          then [''note: set ARNOS_DOMAIN (or ARNOS_PUBLIC_HOST) so the profile has a real host''] else []))"

section \<open>The main program\<close>

text \<open>
  The process ends with an exit code; the log lines (those of \<open>main\<close>, \<open>printProfile\<close> and \<open>Serve\<close>)
  and the state of the host are what is left of it. Deferred calls run only when \<open>main\<close> returns: \<open>log.Fatalf\<close> and \<open>os.Exit\<close> end the process
  at once.
\<close>

record ('h, 'c) process_env =
  pe_host :: host
  pe_rand :: rand_source
  pe_cert :: "'c cert_env"
  pe_order :: map_order
  pe_now :: int
  pe_mkdir :: "unit result"
  pe_listen :: "string \<Rightarrow> string result"
  pe_net :: "'h net_env"
  pe_qr :: qr_package
  pe_serve :: "running \<Rightarrow> listener \<Rightarrow> unit result"

record 'h exited =
  ex_code :: nat
  ex_log :: "string list"
  ex_net :: 'h

definition fatal :: "string list \<Rightarrow> string \<Rightarrow> 'h \<Rightarrow> 'h exited" where
  "fatal out msg h = \<lparr>ex_code = 1, ex_log = out @ [msg], ex_net = h\<rparr>"

definition tls_setup :: "('h, 'c) process_env \<Rightarrow> server_config \<Rightarrow> (tls_config option \<times> string) result" where
  "tls_setup P cfg =
     (if TLSMode cfg = TLSSelf then
        (case cert_New (pe_cert P) (pe_order P) (pe_now P) (pe_mkdir P) cfg of
           Ok provider \<Rightarrow> Ok (Some (TLSConfig provider), ''self mode - '' @ Describe provider)
         | Err e \<Rightarrow> Err (''cert provider: '' @ e)
         | Panic e \<Rightarrow> Panic e)
      else Ok (None, ''proxy mode - TLS terminated by upstream reverse proxy''))"

definition server_main :: "('h, 'c) process_env \<Rightarrow> 'h \<Rightarrow> 'h exited" where
  "server_main P h =
     (case fst (Load (pe_host P) (pe_rand P)) of
        Err e \<Rightarrow> fatal [] (''config: '' @ e) h
      | Panic e \<Rightarrow> \<lparr>ex_code = 2, ex_log = [e], ex_net = h\<rparr>
      | Ok cfg \<Rightarrow>
          (case tls_setup P cfg of
             Err e \<Rightarrow> fatal [] e h
           | Panic e \<Rightarrow> \<lparr>ex_code = 2, ex_log = [e], ex_net = h\<rparr>
           | Ok (tlsConf, description) \<Rightarrow>
               (case ResolveListener (pe_listen P) cfg of
                  Err e \<Rightarrow> fatal [] (''listen: '' @ e) h
                | Panic e \<Rightarrow> \<lparr>ex_code = 2, ex_log = [e], ex_net = h\<rparr>
                | Ok ln \<Rightarrow>
                    (case New (pe_net P) cfg h of
                       (Err e, h1) \<Rightarrow> fatal [] (''server: '' @ e) h1
                     | (Panic e, h1) \<Rightarrow> \<lparr>ex_code = 2, ex_log = [e], ex_net = h1\<rparr>
                     | (Ok srv, h1) \<Rightarrow>
                         (let out = printProfile (pe_qr P) cfg ln @ [''listening on '' @ ln @ '' ('' @ description @ '')'']
                          in case Serve (pe_serve P srv) ln tlsConf of
                               Ok _ \<Rightarrow> \<lparr>ex_code = 0, ex_log = out @ [''shutdown complete''], ex_net = h1\<rparr>
                             | Err e \<Rightarrow> fatal out (''serve: '' @ e) h1
                             | Panic e \<Rightarrow> \<lparr>ex_code = 2, ex_log = out @ [e], ex_net = server_Close (pe_net P) srv h1\<rparr>)))))"

section \<open>The operator's helper\<close>

text \<open>The usage text, with its dash in ASCII.\<close>

definition ctl_usage :: "string list" where
  "ctl_usage =
     [''arnosvpnctl - ArnosVPN operator helper'',
      '''',
      ''Usage:'',
      ''  arnosvpnctl uri            print the connect URI'',
      ''  arnosvpnctl qr             print a scannable QR code'',
      ''  arnosvpnctl png <file>     write the connect QR to a PNG file'',
      ''  arnosvpnctl genpsk         print a fresh base64 pre-shared key'',
      ''  arnosvpnctl show           print the resolved configuration'',
      '''',
      ''Configuration is read from the same environment variables as the server'',
      ''(ARNOS_DOMAIN, ARNOS_WS_PATH, ARNOS_PSK / state file, ...).'']"

datatype ctl_output = Usage "string list" | Printed "string list" | WroteFile string string

text \<open>
  The arguments after the program name. \<open>write\<close> is the outcome of writing a file. The result is the exit code and what was put out; an error is
  reported on stderr with exit code 1.
\<close>

definition ctl_show :: "server_config \<Rightarrow> string list" where
  "ctl_show cfg =
     [''domain:        '' @ Domain cfg,
      ''public:        '' @ PublicHost cfg @ '':'' @ FormatInt (PublicPort cfg),
      ''tls mode:      '' @ TLSMode cfg,
      ''listen:        '' @ ListenAddr cfg,
      ''ws path:       '' @ WSPath cfg,
      ''cert provider: '' @ CertProvider cfg,
      ''tunnel cidr:   '' @ TunnelCIDR cfg,
      ''gateway:       '' @ Gateway cfg,
      ''mtu:           '' @ FormatInt (MTU cfg),
      ''psk (base64):  '' @ PSKBase64 cfg]"

definition must :: "'a result \<Rightarrow> ('a \<Rightarrow> nat \<times> ctl_output) \<Rightarrow> nat \<times> ctl_output" where
  "must r f = (case r of Ok v \<Rightarrow> f v | Err e \<Rightarrow> (1, Printed [''error: '' @ e]) | Panic e \<Rightarrow> (2, Printed [e]))"

definition ctl_main ::
  "host \<Rightarrow> rand_source \<Rightarrow> qr_package \<Rightarrow> (string \<Rightarrow> unit result) \<Rightarrow> string list
    \<Rightarrow> (nat \<times> ctl_output) \<times> host" where
  "ctl_main h rand qr write args =
     (case args of
        [] \<Rightarrow> ((2, Usage ctl_usage), h)
      | cmd # rest \<Rightarrow>
          if cmd = ''genpsk'' then
            (must (RandBytes rand PSKLen) (\<lambda>psk. (0, Printed [EncodeToString StdEncoding psk])), h)
          else if cmd = ''-h'' \<or> cmd = ''--help'' \<or> cmd = ''help'' then ((0, Usage ctl_usage), h)
          else (case Load h rand of
                  (r, h1) \<Rightarrow>
                    (must r (\<lambda>cfg.
                       let profile = server_profile cfg
                       in if cmd = ''uri'' then (0, Printed [URI profile])
                          else if cmd = ''qr'' then must (QRString qr profile) (\<lambda>code. (0, Printed [code]))
                          else if cmd = ''png'' then
                            (case rest of
                               [] \<Rightarrow> (2, Usage ctl_usage)
                             | file # _ \<Rightarrow> must (QRPNG qr profile 512) (\<lambda>img. must (write file) (\<lambda>_. (0, WroteFile file img))))
                          else if cmd = ''show'' then (0, Printed (ctl_show cfg))
                          else (2, Usage ctl_usage)), h1)))"

section \<open>Lemmas: the configuration\<close>

lemma env_nonempty: "def \<noteq> [] \<Longrightarrow> env h key def \<noteq> []"
  by (simp add: env_def Let_def)

lemma envInt_range: "in_int64 def \<Longrightarrow> in_int64 (envInt h key def)"
  by (auto simp: envInt_def Let_def Atoi_def split: option.splits if_splits)

lemma Load_profile:
  assumes "Load h rand = (Ok cfg, h')"
  shows "WSPath cfg \<noteq> []" "in_int64 (PublicPort cfg)" "in_int64 (MTU cfg)"
proof -
  obtain psk where "cfg = (resolved h)\<lparr>PSK := psk\<rparr>"
    using Load_cases [of h rand] assms resolvePSK_Ok [of h rand "resolved h" cfg h'] by auto
  then have "WSPath cfg = env h ''ARNOS_WS_PATH'' ''/''" "PublicPort cfg = envInt h ''ARNOS_PUBLIC_PORT'' 443"
    "MTU cfg = envInt h ''ARNOS_MTU'' DefaultMTU"
    by (simp_all add: resolved_def env_config_def Let_def)
  then show "WSPath cfg \<noteq> []" "in_int64 (PublicPort cfg)" "in_int64 (MTU cfg)"
    using env_nonempty [of "''/''"] envInt_range [of 443] envInt_range [of DefaultMTU]
    by (simp_all add: in_int64_def DefaultMTU_def)
qed

lemma server_profile_parses:
  assumes "WSPath cfg \<noteq> []" "in_int64 (PublicPort cfg)"
  shows "ParseURI (URI (server_profile cfg)) = Ok (server_profile cfg)"
  using ParseURI_of_URI [of "server_profile cfg"] assms by (simp add: server_profile_def public_host_def)

section \<open>Lemmas: starting and stopping\<close>

text \<open>Opening and closing the TUN device does not touch the packet filter.\<close>

definition tun_neutral :: "'h net_env \<Rightarrow> ('h \<Rightarrow> ipt_rule list) \<Rightarrow> bool" where
  "tun_neutral E rules \<longleftrightarrow>
     (\<forall>name h. rules (snd (ne_open E name h)) = rules h \<and> rules (ne_close E name h) = rules h)"

lemma New_rules:
  assumes "iptables_ok (ne_ops E) rules" "tun_neutral E rules"
    and "\<And>name. rules_absent rules name (TunnelCIDR cfg) h" "New E cfg h = (r, h')"
  shows "(\<forall>e. r = Err e \<longrightarrow> rules h' = rules h) \<and>
    (\<forall>ru. r = Ok ru \<longrightarrow> rules h' = rules h @ map rule_of (net_rules (ru_net ru)) \<and>
       rules (server_Close E ru h') = rules h)"
proof (cases "newIPPool (TunnelCIDR cfg) (Gateway cfg)")
  case (Ok pool)
  obtain t h1 where tun: "openTUN E ''arnos0'' (MTU cfg) h = (t, h1)" by fastforce
  have h1: "rules h1 = rules h"
  proof -
    have "h1 = snd (ne_open E ''arnos0'' h)" using tun by (auto simp: openTUN_def split: prod.splits result.splits)
    then show ?thesis using assms(2) by (simp add: tun_neutral_def)
  qed
  show ?thesis
  proof (cases t)
    case (Ok dev)
    obtain c h2 where conf: "configureNetwork (ne_ops E) (ne_routes E) (ne_ifaces E) (td_name dev) (Gateway cfg)
        (TunnelCIDR cfg) (int (Ones pool)) (WANInterface cfg) h1 = (c, h2)" by fastforce
    have absent: "rules_absent rules (td_name dev) (TunnelCIDR cfg) h1"
      using assms(3) h1 by (simp add: rules_absent_def)
    note rev = configureNetwork_reversible [OF assms(1) absent conf]
    have new: "New E cfg h = (case c of Err e \<Rightarrow> (Err e, ne_close E (td_name dev) h2) | Panic e \<Rightarrow> (Panic e, h2)
        | Ok netcfg \<Rightarrow> (Ok \<lparr>ru_server = \<lparr>srv_cfg = cfg, srv_pool = pool, srv_replay = newReplayGuard,
            srv_clients = Map.empty, srv_heap = Map.empty\<rparr>, ru_net = netcfg, ru_tun = dev\<rparr>, h2))"
      unfolding New_def \<open>newIPPool (TunnelCIDR cfg) (Gateway cfg) = Ok pool\<close> result.case tun Ok prod.case conf ..
    show ?thesis
      using assms(2,4) new rev h1 by (cases c) (auto simp: server_Close_def tun_neutral_def)
  qed (use assms(4) Ok tun h1 in \<open>auto simp: New_def\<close>)
qed (use assms(4) in \<open>auto simp: New_def\<close>)

lemma New_server:
  assumes "New E cfg h = (Ok ru, h')"
  shows "\<exists>pool. newIPPool (TunnelCIDR cfg) (Gateway cfg) = Ok pool \<and>
    ru_server ru = \<lparr>srv_cfg = cfg, srv_pool = pool, srv_replay = newReplayGuard,
      srv_clients = Map.empty, srv_heap = Map.empty\<rparr>"
  using assms by (auto simp: New_def split: result.splits prod.splits)

section \<open>A concrete host\<close>

text \<open>The host of the packet filter rules, on which a TUN device can be opened.\<close>

definition rule_net :: "ipt_rule list net_env" where
  "rule_net = \<lparr>ne_ops = rule_host, ne_routes = Ok [], ne_ifaces = [],
     ne_open = (\<lambda>name h. (Ok name, h)), ne_close = (\<lambda>_ h. h)\<rparr>"

definition start_cfg :: server_config where
  "start_cfg = demo_cert_cfg\<lparr>TunnelCIDR := ''10.66.0.0/24'', Gateway := ''10.66.0.1'', WANInterface := ''eth0''\<rparr>"

lemma rule_net_ok: "iptables_ok (ne_ops rule_net) (\<lambda>h. h)" "tun_neutral rule_net (\<lambda>h. h)"
  using rule_host_ok by (simp_all add: rule_net_def tun_neutral_def)

lemma rule_net_New:
  assumes "TunnelCIDR cfg = ''10.66.0.0/24''" "Gateway cfg = ''10.66.0.1''" "WANInterface cfg = ''eth0''"
  shows "\<exists>ru h'. New rule_net cfg [] = (Ok ru, h')"
  using newIPPool_default assms
  by (simp add: New_def openTUN_def rule_net_def host_run_defs)

definition demo_host :: host where
  "demo_host = blank_host\<lparr>os_env := (\<lambda>_. [])(''ARNOS_WAN_IFACE'' := ''eth0'', ''ARNOS_DOMAIN'' := ''vpn.example'')\<rparr>"

definition no_qr :: qr_package where
  "no_qr = \<lparr>qr_New = (\<lambda>_. Err ''none''), qr_ToSmallString = (\<lambda>_. []), qr_Encode = (\<lambda>_ _. Err ''none'')\<rparr>"

definition demo_process :: "(ipt_rule list, bytes \<times> bytes) process_env" where
  "demo_process =
     \<lparr>pe_host = demo_host, pe_rand = (\<lambda>n. Ok (replicate n 7)), pe_cert = demo_disk 1 None, pe_order = (\<lambda>_ m. m),
      pe_now = 0, pe_mkdir = Ok (), pe_listen = (\<lambda>a. Ok a), pe_net = rule_net,
      pe_qr = no_qr, pe_serve = (\<lambda>_ _. Err ErrServerClosed)\<rparr>"

lemma demo_process_Load:
  "\<exists>cfg h'. Load (pe_host demo_process) (pe_rand demo_process) = (Ok cfg, h') \<and> TLSMode cfg = TLSProxy \<and>
    TunnelCIDR cfg = ''10.66.0.0/24'' \<and> Gateway cfg = ''10.66.0.1'' \<and> WANInterface cfg = ''eth0''"
  by (simp add: demo_process_def demo_host_def Load_def env_config_def blank_host_def env_def ToLower_def
      TLSProxy_def TLSSelf_def Let_def resolvePSK_def stored_key_def lower_char_def DefaultTunnelCIDR_def DefaultGateway_def)

section \<open>Properties\<close>



text \<open>The main program never takes its rules back. A server that came up and was shut
  down in order, or whose serving failed, ends with its four rules on the host: both ways out
  of \<open>main\<close> end the process without running the deferred \<open>Close\<close>.\<close>

lemma shutdown_leaves_rules:
  assumes "iptables_ok (ne_ops (pe_net P)) rules" "tun_neutral (pe_net P) rules"
    and "Load (pe_host P) (pe_rand P) = (Ok cfg, host')" "tls_setup P cfg = Ok tls"
      "ResolveListener (pe_listen P) cfg = Ok ln"
    and "\<forall>name. rules_absent rules name (TunnelCIDR cfg) h" "New (pe_net P) cfg h = (Ok ru, h1)"
    and "\<forall>l e. pe_serve P ru l \<noteq> Panic e"
  shows "ex_code (server_main P h) \<in> {0, 1} \<and>
    rules (ex_net (server_main P h)) = rules h @ map rule_of (net_rules (ru_net ru))"
proof -
  obtain tc desc where tls: "tls = (tc, desc)" by fastforce
  have serve: "Serve (pe_serve P ru) ln tc \<noteq> Panic e" for e
    using assms(8) by (auto simp: Serve_def Let_def)
  have rules: "rules h1 = rules h @ map rule_of (net_rules (ru_net ru))"
    using New_rules [OF assms(1,2) _ assms(7)] assms(6) by blast
  have "server_main P h =
      (let out = printProfile (pe_qr P) cfg ln @ [''listening on '' @ ln @ '' ('' @ desc @ '')'']
       in case Serve (pe_serve P ru) ln tc of
            Ok _ \<Rightarrow> \<lparr>ex_code = 0, ex_log = out @ [''shutdown complete''], ex_net = h1\<rparr>
          | Err e \<Rightarrow> fatal out (''serve: '' @ e) h1
          | Panic e \<Rightarrow> \<lparr>ex_code = 2, ex_log = out @ [e], ex_net = server_Close (pe_net P) ru h1\<rparr>)"
    by (simp add: server_main_def assms(3-5,7) tls)
  then show ?thesis
    using serve rules by (cases "Serve (pe_serve P ru) ln tc") (auto simp: Let_def fatal_def)
qed

lemma shutdown_leaves_rules_witness:
  "ex_code (server_main demo_process []) \<in> {0, 1} \<and> length (ex_net (server_main demo_process [])) = 4"
proof -
  obtain cfg h' where load: "Load (pe_host demo_process) (pe_rand demo_process) = (Ok cfg, h')"
    and cfg: "TLSMode cfg = TLSProxy" "TunnelCIDR cfg = ''10.66.0.0/24''" "Gateway cfg = ''10.66.0.1''" "WANInterface cfg = ''eth0''"
    using demo_process_Load by blast
  obtain ru h1 where new: "New (pe_net demo_process) cfg [] = (Ok ru, h1)"
    using rule_net_New [OF cfg(2-4)] by (auto simp: demo_process_def)
  have net: "pe_net demo_process = rule_net" by (simp add: demo_process_def)
  have tls: "tls_setup demo_process cfg = Ok (None, ''proxy mode - TLS terminated by upstream reverse proxy'')"
    using cfg(1) by (simp add: tls_setup_def TLSProxy_def TLSSelf_def)
  have ln: "ResolveListener (pe_listen demo_process) cfg = Ok (listen_addr cfg)"
    by (simp add: ResolveListener_def demo_process_def)
  have absent: "\<forall>name. rules_absent (\<lambda>h. h) name (TunnelCIDR cfg) []" by (simp add: rules_absent_def)
  have np: "\<forall>l e. pe_serve demo_process ru l \<noteq> Panic e" by (simp add: demo_process_def)
  from shutdown_leaves_rules [OF rule_net_ok [folded net] load tls ln absent new np]
  show ?thesis by (simp add: net_rules_def)
qed

text \<open>C28: the operator's helper prints what the running server accepts. After a server has
  loaded its configuration, \<open>arnosvpnctl uri\<close> prints the very URI the server has logged; a
  client that reads it gets the server's public endpoint and key, and a hello made with this
  key within the time window passes the server's checks.\<close>

theorem ctl_uri_accepted:
  assumes "Load h rand = (Ok cfg, h')" "\<And>bs. rand PSKLen = Ok bs \<Longrightarrow> length bs = PSKLen"
    and "length salt = SaltLen" "0 \<le> ts" "ts < 2 ^ 62" "0 \<le> unix now" "unix now < 2 ^ 62"
      "\<bar>unix now - ts\<bar> \<le> AuthWindow"
  shows "\<exists>uri p. ctl_main h' rand' qr write [''uri''] = ((0, Printed [uri]), h') \<and>
    ''connect URI: '' @ uri \<in> set (printProfile qr cfg bind) \<and>
    ParseURI uri = Ok p \<and> Host p = public_host cfg \<and> Port p = PublicPort cfg \<and>
    is_Ok (check_hello cfg now (Ok (TextMessage (Some (marshal_hello (client_hello (p_PSK p) salt ts))))))"
proof -
  have "Load h' rand' = (Ok cfg, h')" using Load_again [OF assms(1,2)] .
  then have "ctl_main h' rand' qr write [''uri''] = ((0, Printed [URI (server_profile cfg)]), h')"
    by (simp add: ctl_main_def must_def)
  moreover have "ParseURI (URI (server_profile cfg)) = Ok (server_profile cfg)"
    using server_profile_parses Load_profile [OF assms(1)] by blast
  moreover have "''connect URI: '' @ URI (server_profile cfg) \<in> set (printProfile qr cfg bind)"
    by (simp add: printProfile_def Let_def)
  ultimately show ?thesis
    using hello_accepted_with_key [OF assms(3-8)] by (auto simp: server_profile_def)
qed

theorem ctl_uri_accepted_witness:
  "\<exists>cfg h' uri. Load blank_host (\<lambda>n. Ok (replicate n 7)) = (Ok cfg, h') \<and>
    ctl_main h' (\<lambda>_. Err ''no randomness'') no_qr (\<lambda>_. Ok ()) [''uri''] = ((0, Printed [uri]), h') \<and>
    is_Ok (ParseURI uri)"
proof -
  obtain cfg h' where load: "Load blank_host (\<lambda>n. Ok (replicate n 7)) = (Ok cfg, h')" using Load_blank by blast
  have "\<exists>uri p. ctl_main h' (\<lambda>_. Err ''no randomness'') no_qr (\<lambda>_. Ok ()) [''uri''] = ((0, Printed [uri]), h') \<and>
    ''connect URI: '' @ uri \<in> set (printProfile no_qr cfg []) \<and>
    ParseURI uri = Ok p \<and> Host p = public_host cfg \<and> Port p = PublicPort cfg \<and>
    is_Ok (check_hello cfg demo_now (Ok (TextMessage (Some (marshal_hello (client_hello (p_PSK p) (replicate SaltLen 1) 1700000000))))))"
    by (rule ctl_uri_accepted [OF load]) (simp_all add: AuthWindow_def)
  with load show ?thesis by auto
qed

end
