(* ===== verification/GoPath.thy ===== *)
theory GoPath
  imports GoStrings
begin

text \<open>
  Go's \<open>path/filepath\<close> on Unix: \<open>Clean\<close> and \<open>Join\<close>. A path is taken apart at its slashes, its
  elements are put on a stack from which \<open>..\<close> takes the last one, and put together again.
\<close>

fun clean_elems :: "bool \<Rightarrow> string list \<Rightarrow> string list \<Rightarrow> string list" where
  "clean_elems rooted [] acc = rev acc"
| "clean_elems rooted (e # es) acc =
     (if e = [] \<or> e = ''.'' then clean_elems rooted es acc
      else if e = ''..'' then
        (if acc \<noteq> [] \<and> hd acc \<noteq> ''..'' then clean_elems rooted es (tl acc)
         else if rooted then clean_elems rooted es acc
         else clean_elems rooted es (e # acc))
      else clean_elems rooted es (e # acc))"

definition Clean :: "string \<Rightarrow> string" where
  "Clean p =
     (if p = [] then ''.''
      else let rooted = (hd p = CHR ''/''); out = Join (clean_elems rooted (Split (CHR ''/'') p) []) ''/''
           in if rooted then CHR ''/'' # out else if out = [] then ''.'' else out)"

definition filepath_Join :: "string list \<Rightarrow> string" where
  "filepath_Join elems =
     (case dropWhile (\<lambda>e. e = []) elems of [] \<Rightarrow> [] | es \<Rightarrow> Clean (Join es ''/''))"

section \<open>Lemmas\<close>

definition plain_elem :: "string \<Rightarrow> bool" where
  "plain_elem e \<longleftrightarrow> e \<noteq> [] \<and> e \<noteq> ''.'' \<and> e \<noteq> ''..'' \<and> CHR ''/'' \<notin> set e"

lemma clean_elems_plain:
  "\<forall>e \<in> set es. plain_elem e \<Longrightarrow> clean_elems rooted es acc = rev acc @ es"
  by (induction es arbitrary: acc) (auto simp: plain_elem_def)

lemma clean_elems_append_plain:
  "\<forall>e \<in> set es. plain_elem e \<Longrightarrow> clean_elems rooted (xs @ es) acc = clean_elems rooted xs acc @ es"
  by (induction rooted xs acc rule: clean_elems.induct) (auto simp: clean_elems_plain)

lemma Split_plain: "c \<notin> set e \<Longrightarrow> Split c e = [e]"
  by (induction e) auto

lemma Split_append: "Split c (p @ c # q) = Split c p @ Split c q"
proof (induction p)
  case (Cons d p)
  then show ?case by (cases "Split c p") (auto split: list.splits)
qed simp

lemma Join_append2:
  "es \<noteq> [] \<Longrightarrow> xs \<noteq> [] \<Longrightarrow> Join (xs @ es) sep = Join xs sep @ sep @ Join es sep"
proof (induction xs rule: induct_list012)
  case (2 x)
  then show ?case by (cases es) simp_all
qed simp_all

text \<open>Plain elements joined behind a path stay its last ones.\<close>

lemma Clean_ends:
  assumes "plain_elem a" "plain_elem b" "p \<noteq> []"
  shows "\<exists>q. Clean (p @ ''/'' @ a @ ''/'' @ b) = q @ a @ ''/'' @ b"
proof -
  let ?p = "p @ ''/'' @ a @ ''/'' @ b"
  let ?r = "hd ?p = CHR ''/''"
  have "Split (CHR ''/'') ?p = Split (CHR ''/'') p @ [a, b]"
    using assms(1,2) Split_append [of "CHR ''/''" p "a @ ''/'' @ b"] Split_append [of "CHR ''/''" a b]
    by (simp add: plain_elem_def Split_plain)
  then have e: "clean_elems ?r (Split (CHR ''/'') ?p) [] = clean_elems ?r (Split (CHR ''/'') p) [] @ [a, b]"
    using assms(1,2) by (simp add: clean_elems_append_plain)
  have "\<exists>q. Join (xs @ [a, b]) ''/'' = q @ a @ ''/'' @ b" for xs
    using Join_append2 [of "[a, b]" xs "''/''"] by (cases "xs = []") auto
  then obtain q where "Join (clean_elems ?r (Split (CHR ''/'') ?p) []) ''/'' = q @ a @ ''/'' @ b" using e by metis
  moreover have "q @ a @ ''/'' @ b \<noteq> []" by simp
  ultimately have "Clean ?p = (if ?r then [CHR ''/''] else []) @ q @ a @ ''/'' @ b"
    using assms(3) by (cases ?r) (simp_all add: Clean_def Let_def)
  then show ?thesis by (metis append_assoc)
qed

end
