(* ===== verification/ClientConfig.thy ===== *)
theory ClientConfig
  imports GoJson GoPath Provision
begin

text \<open>
  The client's saved servers and preferences, \<open>internal/client/config.go\<close>, and the in-memory
  log of \<open>internal/client/logbuf.go\<close>.
\<close>

section \<open>Data\<close>

record saved_server =
  srv_Name :: string
  srv_URI :: string

record settings =
  s_Mode :: string
  s_Socks :: string
  s_Http :: string
  s_DNS :: string
  s_PreferredIP :: string
  s_AllowLAN :: bool
  s_SystemProxy :: bool
  s_Autostart :: bool
  s_Fragment :: bool
  s_Mux :: bool
  s_Theme :: string
  s_TunDNS :: string

definition DefaultSettings :: settings where
  "DefaultSettings =
     \<lparr>s_Mode = ''proxy'', s_Socks = ''127.0.0.1:1080'', s_Http = ''127.0.0.1:8080'',
      s_DNS = ''1.1.1.1,1.0.0.1'', s_PreferredIP = ''auto'', s_AllowLAN = False, s_SystemProxy = False,
      s_Autostart = False, s_Fragment = False, s_Mux = False, s_Theme = ''light'', s_TunDNS = ''1.1.1.1''\<rparr>"

record client_config =
  Active :: string
  Servers :: "saved_server list"
  Settings :: "settings option"

section \<open>JSON\<close>

definition server_zero :: saved_server where
  "server_zero = \<lparr>srv_Name = [], srv_URI = []\<rparr>"

definition assign_server :: "saved_server \<Rightarrow> string \<Rightarrow> json \<Rightarrow> saved_server option" where
  "assign_server r f v =
     (if f = ''name'' then map_option (\<lambda>x. r\<lparr>srv_Name := x\<rparr>) (get_string (srv_Name r) v)
      else map_option (\<lambda>x. r\<lparr>srv_URI := x\<rparr>) (get_string (srv_URI r) v))"

definition settings_zero :: settings where
  "settings_zero =
     \<lparr>s_Mode = [], s_Socks = [], s_Http = [], s_DNS = [], s_PreferredIP = [], s_AllowLAN = False,
      s_SystemProxy = False, s_Autostart = False, s_Fragment = False, s_Mux = False, s_Theme = [], s_TunDNS = []\<rparr>"

definition settings_fields :: "string list" where
  "settings_fields = [''mode'', ''socks'', ''http'', ''dns'', ''preferredIP'', ''allowLan'', ''systemProxy'',
     ''autostart'', ''fragment'', ''mux'', ''theme'', ''tunDns'']"

definition assign_settings :: "settings \<Rightarrow> string \<Rightarrow> json \<Rightarrow> settings option" where
  "assign_settings r f v =
     (if f = ''mode'' then map_option (\<lambda>x. r\<lparr>s_Mode := x\<rparr>) (get_string (s_Mode r) v)
      else if f = ''socks'' then map_option (\<lambda>x. r\<lparr>s_Socks := x\<rparr>) (get_string (s_Socks r) v)
      else if f = ''http'' then map_option (\<lambda>x. r\<lparr>s_Http := x\<rparr>) (get_string (s_Http r) v)
      else if f = ''dns'' then map_option (\<lambda>x. r\<lparr>s_DNS := x\<rparr>) (get_string (s_DNS r) v)
      else if f = ''preferredIP'' then map_option (\<lambda>x. r\<lparr>s_PreferredIP := x\<rparr>) (get_string (s_PreferredIP r) v)
      else if f = ''allowLan'' then map_option (\<lambda>x. r\<lparr>s_AllowLAN := x\<rparr>) (get_bool (s_AllowLAN r) v)
      else if f = ''systemProxy'' then map_option (\<lambda>x. r\<lparr>s_SystemProxy := x\<rparr>) (get_bool (s_SystemProxy r) v)
      else if f = ''autostart'' then map_option (\<lambda>x. r\<lparr>s_Autostart := x\<rparr>) (get_bool (s_Autostart r) v)
      else if f = ''fragment'' then map_option (\<lambda>x. r\<lparr>s_Fragment := x\<rparr>) (get_bool (s_Fragment r) v)
      else if f = ''mux'' then map_option (\<lambda>x. r\<lparr>s_Mux := x\<rparr>) (get_bool (s_Mux r) v)
      else if f = ''theme'' then map_option (\<lambda>x. r\<lparr>s_Theme := x\<rparr>) (get_string (s_Theme r) v)
      else map_option (\<lambda>x. r\<lparr>s_TunDNS := x\<rparr>) (get_string (s_TunDNS r) v))"

fun get_servers :: "saved_server list \<Rightarrow> json \<Rightarrow> saved_server list option" where
  "get_servers old JNull = Some []"
| "get_servers old (JArr js) = those (map (Unmarshal assign_server [''name'', ''uri''] server_zero) js)"
| "get_servers old _ = None"

fun get_settings :: "settings option \<Rightarrow> json \<Rightarrow> settings option option" where
  "get_settings old JNull = Some None"
| "get_settings old j =
     map_option Some
       (Unmarshal assign_settings settings_fields (case old of Some s \<Rightarrow> s | None \<Rightarrow> settings_zero) j)"

definition assign_config :: "client_config \<Rightarrow> string \<Rightarrow> json \<Rightarrow> client_config option" where
  "assign_config r f v =
     (if f = ''active'' then map_option (\<lambda>x. r\<lparr>Active := x\<rparr>) (get_string (Active r) v)
      else if f = ''servers'' then map_option (\<lambda>x. r\<lparr>Servers := x\<rparr>) (get_servers (Servers r) v)
      else map_option (\<lambda>x. r\<lparr>Settings := x\<rparr>) (get_settings (Settings r) v))"

definition unmarshal_config :: "json \<Rightarrow> client_config option" where
  "unmarshal_config =
     Unmarshal assign_config [''active'', ''servers'', ''settings''] \<lparr>Active = [], Servers = [], Settings = None\<rparr>"

definition marshal_server :: "saved_server \<Rightarrow> json" where
  "marshal_server s = JObj [(''name'', JText (srv_Name s)), (''uri'', JText (srv_URI s))]"

definition marshal_settings :: "settings \<Rightarrow> json" where
  "marshal_settings s =
     JObj [(''mode'', JText (s_Mode s)), (''socks'', JText (s_Socks s)), (''http'', JText (s_Http s)),
       (''dns'', JText (s_DNS s)), (''preferredIP'', JText (s_PreferredIP s)), (''allowLan'', JBool (s_AllowLAN s)),
       (''systemProxy'', JBool (s_SystemProxy s)), (''autostart'', JBool (s_Autostart s)),
       (''fragment'', JBool (s_Fragment s)), (''mux'', JBool (s_Mux s)), (''theme'', JText (s_Theme s)),
       (''tunDns'', JText (s_TunDNS s))]"

text \<open>
  The model has one empty list of servers where Go has a nil slice (written as \<open>null\<close>) and an
  empty one; both read back as the empty list.
\<close>

definition marshal_config :: "client_config \<Rightarrow> json" where
  "marshal_config c =
     JObj ([(''active'', JText (Active c)), (''servers'', JArr (map marshal_server (Servers c)))] @
           (case Settings c of None \<Rightarrow> [] | Some s \<Rightarrow> [(''settings'', marshal_settings s)]))"

section \<open>Where it is kept\<close>

text \<open>
  \<open>dir\<close> is the outcome of \<open>os.UserConfigDir\<close>, \<open>home\<close> the directory \<open>os.UserHomeDir\<close> gives (empty
  when it fails); paths are put together as on Unix.
\<close>

definition DefaultConfigPath :: "string result \<Rightarrow> string \<Rightarrow> string" where
  "DefaultConfigPath dir home =
     (case dir of
        Ok d \<Rightarrow> filepath_Join [d, ''ArnosVPN'', ''servers.json'']
      | _ \<Rightarrow> filepath_Join [home, ''.arnosvpn'', ''servers.json''])"

section \<open>Load and save\<close>

datatype file_read = NotExist | ReadErr string | Contents "json option"

definition LoadConfig :: "file_read \<Rightarrow> client_config result" where
  "LoadConfig f =
     (case f of
        NotExist \<Rightarrow> Ok \<lparr>Active = [], Servers = [], Settings = Some DefaultSettings\<rparr>
      | ReadErr e \<Rightarrow> Err e
      | Contents doc \<Rightarrow>
          (case Option.bind doc unmarshal_config of
             None \<Rightarrow> Err ''parse''
           | Some c \<Rightarrow> Ok (if Settings c = None then c\<lparr>Settings := Some DefaultSettings\<rparr> else c)))"

text \<open>
  \<open>Save\<close> with the outcomes of making the directory and writing the file: the result and
  the file afterwards. \<open>os.WriteFile\<close> truncates the file when it has opened it, so that a
  write that fails later leaves some other content behind.
\<close>

datatype write_outcome = Written | NotOpened string | Torn string "json option"

record disk =
  d_file :: file_read
  d_mkdir :: "unit result"
  d_write :: write_outcome

definition Save :: "client_config \<Rightarrow> disk \<Rightarrow> unit result \<times> disk" where
  "Save c d =
     (case d_mkdir d of
        Ok _ \<Rightarrow>
          (case d_write d of
             Written \<Rightarrow> (Ok (), d\<lparr>d_file := Contents (Some (marshal_config c))\<rparr>)
           | NotOpened e \<Rightarrow> (Err e, d)
           | Torn e doc \<Rightarrow> (Err e, d\<lparr>d_file := Contents doc\<rparr>))
      | e \<Rightarrow> (e, d))"

section \<open>The server list\<close>

fun replace_uri :: "string \<Rightarrow> string \<Rightarrow> saved_server list \<Rightarrow> saved_server list option" where
  "replace_uri name uri [] = None"
| "replace_uri name uri (s # ss) =
     (if EqualFold (srv_Name s) name then Some (s\<lparr>srv_URI := uri\<rparr> # ss)
      else map_option ((#) s) (replace_uri name uri ss))"

definition entry_name :: "string \<Rightarrow> profile \<Rightarrow> string" where
  "entry_name name p = (if name = [] then (if p_Name p = [] then Host p else p_Name p) else name)"

definition Add :: "string \<Rightarrow> string \<Rightarrow> client_config \<Rightarrow> unit result \<times> client_config" where
  "Add name0 uri c =
     (case ParseURI uri of
        Err e \<Rightarrow> (Err e, c)
      | Panic e \<Rightarrow> (Panic e, c)
      | Ok p \<Rightarrow>
          let name = entry_name name0 p
          in case replace_uri name uri (Servers c) of
               Some ss \<Rightarrow> (Ok (), c\<lparr>Servers := ss\<rparr>)
             | None \<Rightarrow>
                 (Ok (), c\<lparr>Servers := Servers c @ [\<lparr>srv_Name = name, srv_URI = uri\<rparr>],
                           Active := (if Active c = [] then name else Active c)\<rparr>))"

definition Remove :: "string \<Rightarrow> client_config \<Rightarrow> client_config" where
  "Remove name c =
     (let out = filter (\<lambda>s. \<not> EqualFold (srv_Name s) name) (Servers c);
          c1 = c\<lparr>Servers := out\<rparr>
      in if EqualFold (Active c) name then
           c1\<lparr>Active := (case out of [] \<Rightarrow> [] | s # _ \<Rightarrow> srv_Name s)\<rparr>
         else c1)"

definition Profile :: "client_config \<Rightarrow> string \<Rightarrow> profile result" where
  "Profile c name0 =
     (let name = (if name0 = [] then Active c else name0)
      in if name = [] then Err ''no server selected; add one with `arnosvpn-client add <arnos://...>`''
         else case List.find (\<lambda>s. EqualFold (srv_Name s) name) (Servers c) of
                Some s \<Rightarrow> ParseURI (srv_URI s)
              | None \<Rightarrow> Err ''server not found'')"

section \<open>The log ring\<close>

record log_ring =
  lr_lines :: "string list"
  lr_max :: nat

definition guiLog :: log_ring where
  "guiLog = \<lparr>lr_lines = [], lr_max = 500\<rparr>"

definition new_lines :: "string \<Rightarrow> string list" where
  "new_lines p = filter (\<lambda>l. l \<noteq> []) (Split LF (TrimRight p LF))"

definition log_Write :: "string \<Rightarrow> log_ring \<Rightarrow> nat \<times> log_ring" where
  "log_Write p r =
     (let ls = lr_lines r @ new_lines p
      in (length p, r\<lparr>lr_lines := (if length ls > lr_max r then drop (length ls - lr_max r) ls else ls)\<rparr>))"

text \<open>\<open>add\<close> puts the time of day in front; \<open>clock\<close> is that time formatted.\<close>

definition log_add :: "string \<Rightarrow> string \<Rightarrow> log_ring \<Rightarrow> log_ring" where
  "log_add clock line r = snd (log_Write (clock @ '' '' @ line @ [LF]) r)"

definition log_Lines :: "log_ring \<Rightarrow> string list" where
  "log_Lines r = lr_lines r"

definition log_clear :: "log_ring \<Rightarrow> log_ring" where
  "log_clear r = r\<lparr>lr_lines := []\<rparr>"

section \<open>Lemmas\<close>

lemma ParseURI_host: "ParseURI s = Ok p \<Longrightarrow> Host p \<noteq> []"
  by (auto simp: ParseURI_def Let_def split: option.splits if_splits)

lemma entry_name_nonempty: "ParseURI uri = Ok p \<Longrightarrow> entry_name name p \<noteq> []"
  using ParseURI_host by (auto simp: entry_name_def)

lemma replace_uri_None:
  "replace_uri name uri ss = None \<longleftrightarrow> (\<forall>s \<in> set ss. \<not> EqualFold (srv_Name s) name)"
  by (induction ss) auto

lemma replace_uri_Some:
  assumes "replace_uri name uri ss = Some ss'"
  shows "map srv_Name ss' = map srv_Name ss \<and> srv_URI ` set ss' \<subseteq> insert uri (srv_URI ` set ss) \<and>
    (\<exists>s. List.find (\<lambda>s. EqualFold (srv_Name s) name) ss' = Some s \<and> srv_URI s = uri)"
  using assms
proof (induction ss arbitrary: ss')
  case (Cons s ss)
  show ?case
  proof (cases "EqualFold (srv_Name s) name")
    case True
    with Cons.prems show ?thesis by auto
  next
    case False
    with Cons.prems obtain t where "replace_uri name uri ss = Some t" "ss' = s # t" by auto
    with Cons.IH [of t] False show ?thesis by auto
  qed
qed simp

lemma find_append_None:
  "\<forall>x \<in> set xs. \<not> P x \<Longrightarrow> List.find P (xs @ ys) = List.find P ys"
  by (induction xs) auto

lemma find_append_other: "\<not> P y \<Longrightarrow> List.find P (xs @ [y]) = List.find P xs"
  by (induction xs) auto

text \<open>
  A consistent list: names differ beyond case and are not empty, every stored URI parses,
  and the active name, if any, is one of the list.
\<close>

definition config_wf :: "client_config \<Rightarrow> bool" where
  "config_wf c \<longleftrightarrow>
     distinct (map (ToLower \<circ> srv_Name) (Servers c)) \<and>
     [] \<notin> srv_Name ` set (Servers c) \<and>
     (\<forall>u \<in> srv_URI ` set (Servers c). is_Ok (ParseURI u)) \<and>
     (Active c \<noteq> [] \<longrightarrow> ToLower (Active c) \<in> ToLower ` srv_Name ` set (Servers c))"

lemma Add_cases:
  assumes "ParseURI uri = Ok p"
  shows "(\<exists>ss. replace_uri (entry_name name p) uri (Servers c) = Some ss \<and>
      Add name uri c = (Ok (), c\<lparr>Servers := ss\<rparr>)) \<or>
    (\<forall>s \<in> set (Servers c). \<not> EqualFold (srv_Name s) (entry_name name p)) \<and>
      Add name uri c = (Ok (), c\<lparr>Servers := Servers c @ [\<lparr>srv_Name = entry_name name p, srv_URI = uri\<rparr>],
        Active := (if Active c = [] then entry_name name p else Active c)\<rparr>)"
  using assms by (auto simp: Add_def Let_def replace_uri_None split: option.splits)

lemma Add_fails: "\<not> is_Ok (ParseURI uri) \<Longrightarrow> snd (Add name uri c) = c \<and> \<not> is_Ok (fst (Add name uri c))"
  by (auto simp: Add_def split: result.splits)

lemma Add_wf:
  assumes "config_wf c"
  shows "config_wf (snd (Add name uri c))"
proof (cases "ParseURI uri")
  case (Ok p)
  from Add_cases [OF Ok, of name c] show ?thesis
  proof
    assume "\<exists>ss. replace_uri (entry_name name p) uri (Servers c) = Some ss \<and>
      Add name uri c = (Ok (), c\<lparr>Servers := ss\<rparr>)"
    then obtain ss where ss: "replace_uri (entry_name name p) uri (Servers c) = Some ss"
      "Add name uri c = (Ok (), c\<lparr>Servers := ss\<rparr>)" by blast
    note r = replace_uri_Some [OF ss(1)]
    have names: "map (ToLower \<circ> srv_Name) ss = map (ToLower \<circ> srv_Name) (Servers c)"
      "srv_Name ` set ss = srv_Name ` set (Servers c)"
      using r by (metis map_map) (metis list.set_map r)
    show ?thesis using assms r Ok by (auto simp: config_wf_def ss(2) names)
  next
    assume "(\<forall>s \<in> set (Servers c). \<not> EqualFold (srv_Name s) (entry_name name p)) \<and>
      Add name uri c = (Ok (), c\<lparr>Servers := Servers c @ [\<lparr>srv_Name = entry_name name p, srv_URI = uri\<rparr>],
        Active := (if Active c = [] then entry_name name p else Active c)\<rparr>)"
    then show ?thesis
      using assms Ok entry_name_nonempty [OF Ok, of name] by (auto simp: config_wf_def EqualFold_def)
  qed
qed (use assms Add_fails [of uri name c] in auto)

lemma Remove_wf:
  assumes "config_wf c"
  shows "config_wf (Remove name c)"
proof -
  let ?out = "filter (\<lambda>s. \<not> EqualFold (srv_Name s) name) (Servers c)"
  have d: "distinct (map (ToLower \<circ> srv_Name) ?out)" using assms by (simp add: config_wf_def distinct_map_filter)
  show ?thesis
  proof (cases "EqualFold (Active c) name")
    case True
    then show ?thesis
      using assms d by (cases ?out) (auto simp: Remove_def config_wf_def Let_def filter_eq_Cons_iff)
  next
    case False
    have "ToLower (Active c) \<in> ToLower ` srv_Name ` set ?out" if "Active c \<noteq> []"
    proof -
      from assms that obtain s where "s \<in> set (Servers c)" "ToLower (srv_Name s) = ToLower (Active c)"
        by (auto simp: config_wf_def)
      with False have "s \<in> set ?out" by (simp add: EqualFold_def)
      then show ?thesis using \<open>ToLower (srv_Name s) = ToLower (Active c)\<close> by (metis image_eqI)
    qed
    with False assms d show ?thesis by (auto simp: Remove_def config_wf_def Let_def)
  qed
qed

lemma Profile_active:
  assumes "config_wf c" "Active c \<noteq> []"
  shows "is_Ok (Profile c [])"
proof -
  from assms obtain s where "s \<in> set (Servers c)" "EqualFold (srv_Name s) (Active c)"
    by (auto simp: config_wf_def EqualFold_def)
  then obtain t where t: "List.find (\<lambda>s. EqualFold (srv_Name s) (Active c)) (Servers c) = Some t"
    by (metis find_None_iff not_None_eq)
  then have "t \<in> set (Servers c)" by (auto simp: find_Some_iff)
  with t assms show ?thesis by (auto simp: Profile_def config_wf_def)
qed

text \<open>A configuration as the file carries it: its strings made well-formed.\<close>

definition server_text :: "saved_server \<Rightarrow> saved_server" where
  "server_text s = \<lparr>srv_Name = json_text (srv_Name s), srv_URI = json_text (srv_URI s)\<rparr>"

definition settings_text :: "settings \<Rightarrow> settings" where
  "settings_text s = s\<lparr>s_Mode := json_text (s_Mode s), s_Socks := json_text (s_Socks s), s_Http := json_text (s_Http s),
     s_DNS := json_text (s_DNS s), s_PreferredIP := json_text (s_PreferredIP s), s_Theme := json_text (s_Theme s),
     s_TunDNS := json_text (s_TunDNS s)\<rparr>"

definition config_text :: "client_config \<Rightarrow> client_config" where
  "config_text c = \<lparr>Active = json_text (Active c), Servers = map server_text (Servers c),
     Settings = map_option settings_text (Settings c)\<rparr>"

definition server_utf8 :: "saved_server \<Rightarrow> bool" where
  "server_utf8 s \<longleftrightarrow> utf8 (srv_Name s) \<and> utf8 (srv_URI s)"

definition settings_utf8 :: "settings \<Rightarrow> bool" where
  "settings_utf8 s \<longleftrightarrow> utf8 (s_Mode s) \<and> utf8 (s_Socks s) \<and> utf8 (s_Http s) \<and> utf8 (s_DNS s) \<and>
     utf8 (s_PreferredIP s) \<and> utf8 (s_Theme s) \<and> utf8 (s_TunDNS s)"

definition config_utf8 :: "client_config \<Rightarrow> bool" where
  "config_utf8 c \<longleftrightarrow> utf8 (Active c) \<and> (\<forall>s \<in> set (Servers c). server_utf8 s) \<and>
     (case Settings c of None \<Rightarrow> True | Some s \<Rightarrow> settings_utf8 s)"

lemma config_text_id: "config_utf8 c \<Longrightarrow> config_text c = c"
proof -
  assume c: "config_utf8 c"
  have "map server_text (Servers c) = Servers c"
    using c by (auto simp: config_utf8_def server_utf8_def utf8_def server_text_def intro!: map_idI)
  moreover have "map_option settings_text (Settings c) = Settings c"
    using c by (cases "Settings c") (auto simp: config_utf8_def settings_utf8_def utf8_def settings_text_def)
  ultimately show ?thesis using c by (simp add: config_text_def config_utf8_def utf8_def)
qed

lemma config_text_utf8: "config_utf8 (config_text c)"
  by (cases "Settings c")
    (auto simp: config_utf8_def config_text_def server_utf8_def server_text_def settings_utf8_def settings_text_def)

lemma Add_utf8:
  assumes "config_utf8 c" "utf8 name" "utf8 uri" "\<And>p. ParseURI uri = Ok p \<Longrightarrow> utf8 (Host p) \<and> utf8 (p_Name p)"
  shows "config_utf8 (snd (Add name uri c))"
proof (cases "ParseURI uri")
  case (Ok p)
  have name: "utf8 (entry_name name p)" using assms(2,4) Ok by (simp add: entry_name_def)
  have "\<forall>s \<in> set ss'. server_utf8 s" if "replace_uri n uri ss = Some ss'" "\<forall>s \<in> set ss. server_utf8 s" for n ss ss'
    using that
  proof (induction ss arbitrary: ss')
    case (Cons s ss)
    then show ?case using assms(3) by (auto simp: server_utf8_def split: if_splits)
  qed simp
  note replaced = this
  from Add_cases [OF Ok, of name c] show ?thesis
  proof (elim disjE exE conjE)
    fix ss assume "replace_uri (entry_name name p) uri (Servers c) = Some ss" "Add name uri c = (Ok (), c\<lparr>Servers := ss\<rparr>)"
    with replaced [of _ "Servers c" ss] assms(1) show ?thesis by (simp add: config_utf8_def)
  next
    assume "Add name uri c = (Ok (), c\<lparr>Servers := Servers c @ [\<lparr>srv_Name = entry_name name p, srv_URI = uri\<rparr>],
      Active := (if Active c = [] then entry_name name p else Active c)\<rparr>)"
    with assms(1,3) name show ?thesis by (simp add: config_utf8_def server_utf8_def)
  qed
qed (use assms(1) Add_fails [of uri name c] in auto)

lemma Remove_utf8: "config_utf8 c \<Longrightarrow> config_utf8 (Remove name c)"
  by (cases "filter (\<lambda>s. \<not> EqualFold (srv_Name s) name) (Servers c)")
    (auto simp: Remove_def config_utf8_def server_utf8_def Let_def filter_eq_Cons_iff)

lemma config_text_settings [simp]: "Settings (config_text c) = None \<longleftrightarrow> Settings c = None"
  by (simp add: config_text_def)

lemma unmarshal_marshal_config: "unmarshal_config (marshal_config c) = Some (config_text c)"
proof -
  have srv: "Unmarshal assign_server [''name'', ''uri''] server_zero (marshal_server s) = Some (server_text s)" for s
    by (simp add: marshal_server_def assign_server_def server_zero_def server_text_def)
  have set: "Unmarshal assign_settings settings_fields settings_zero (marshal_settings s) = Some (settings_text s)" for s
    by (simp add: marshal_settings_def assign_settings_def settings_zero_def settings_fields_def settings_text_def)
  have s': "get_settings None (marshal_settings s) = Some (Some (settings_text s))" for s
    using set [of s] by (simp add: marshal_settings_def)
  show ?thesis
    by (cases "Settings c")
      (simp_all add: unmarshal_config_def marshal_config_def assign_config_def config_text_def o_def srv s')
qed

lemma Load_saved: "Settings c \<noteq> None \<Longrightarrow> LoadConfig (Contents (Some (marshal_config c))) = Ok (config_text c)"
  by (auto simp: LoadConfig_def unmarshal_marshal_config)

lemma Save_Ok:
  "fst (Save c d) = Ok () \<longleftrightarrow> d_mkdir d = Ok () \<and> d_write d = Written"
  by (auto simp: Save_def split: result.splits write_outcome.splits)

lemma Save_cases:
  assumes "Save c d = (r, d')"
  shows "r = Ok () \<and> d' = d\<lparr>d_file := Contents (Some (marshal_config c))\<rparr> \<or> r \<noteq> Ok () \<and> d' = d \<or>
    (\<exists>e doc. d_write d = Torn e doc \<and> r = Err e \<and> d' = d\<lparr>d_file := Contents doc\<rparr>)"
  using assms by (auto simp: Save_def split: result.splits write_outcome.splits)

section \<open>Properties\<close>

text \<open>The server list stays consistent. Adding and removing servers, whatever the names
  and URIs, keeps names distinct beyond case, every stored URI parseable and the active name
  in the list; so whenever a server is active, its profile can be resolved.\<close>

lemma server_list_consistent:
  assumes "config_wf c"
  shows "config_wf (snd (Add name uri c)) \<and> config_wf (Remove name c) \<and>
    (Active c \<noteq> [] \<longrightarrow> is_Ok (Profile c []))"
  using Add_wf [OF assms] Remove_wf [OF assms] Profile_active [OF assms] by blast

lemma server_list_consistent_witness:
  "config_wf (snd (Add ''a'' ''x'' \<lparr>Active = [], Servers = [], Settings = None\<rparr>)) \<and>
   config_wf (Remove ''a'' \<lparr>Active = [], Servers = [], Settings = None\<rparr>)"
  using server_list_consistent [of "\<lparr>Active = [], Servers = [], Settings = None\<rparr>" "''a''" "''x''"]
  by (simp add: config_wf_def)

text \<open>What is added can be looked up. After adding a URI that parses, the profile under
  the name it was stored as is the profile of that URI, and names that differ from it beyond
  case resolve as before.\<close>

lemma Add_then_Profile:
  assumes "ParseURI uri = Ok p" "config_wf c"
  shows "fst (Add name uri c) = Ok () \<and> Profile (snd (Add name uri c)) (entry_name name p) = Ok p \<and>
    (\<forall>other. other \<noteq> [] \<longrightarrow> \<not> EqualFold other (entry_name name p) \<longrightarrow>
       Profile (snd (Add name uri c)) other = Profile c other)"
proof -
  have other: "List.find (\<lambda>s. EqualFold (srv_Name s) o') ss' = List.find (\<lambda>s. EqualFold (srv_Name s) o') ss"
    if "replace_uri n uri ss = Some ss'" "\<not> EqualFold o' n" for o' n ss ss'
    using that
  proof (induction ss arbitrary: ss')
    case (Cons s ss)
    then show ?case by (auto simp: EqualFold_def split: if_splits)
  qed simp
  have ne: "entry_name name p \<noteq> []" by (rule entry_name_nonempty [OF assms(1)])
  from Add_cases [OF assms(1), of name c] show ?thesis
  proof
    assume "\<exists>ss. replace_uri (entry_name name p) uri (Servers c) = Some ss \<and>
      Add name uri c = (Ok (), c\<lparr>Servers := ss\<rparr>)"
    then obtain ss where ss: "replace_uri (entry_name name p) uri (Servers c) = Some ss"
      "Add name uri c = (Ok (), c\<lparr>Servers := ss\<rparr>)" by blast
    with replace_uri_Some [OF ss(1)] other [OF ss(1)] ne assms(1) show ?thesis by (auto simp: Profile_def)
  next
    assume "(\<forall>s \<in> set (Servers c). \<not> EqualFold (srv_Name s) (entry_name name p)) \<and>
      Add name uri c = (Ok (), c\<lparr>Servers := Servers c @ [\<lparr>srv_Name = entry_name name p, srv_URI = uri\<rparr>],
        Active := (if Active c = [] then entry_name name p else Active c)\<rparr>)"
    with ne assms(1) show ?thesis
      using EqualFold_sym by (auto simp: Profile_def find_append_None find_append_other)
  qed
qed

lemma Add_then_Profile_witness:
  "Profile (snd (Add [] (URI \<lparr>Host = ''h'', Port = 443, Path = ''/'', SNI = ''h'', p_PSK = [], p_Name = ''n''\<rparr>)
      \<lparr>Active = [], Servers = [], Settings = None\<rparr>)) ''n'' =
    Ok \<lparr>Host = ''h'', Port = 443, Path = ''/'', SNI = ''h'', p_PSK = [], p_Name = ''n''\<rparr>"
proof -
  let ?p = "\<lparr>Host = ''h'', Port = 443, Path = ''/'', SNI = ''h'', p_PSK = [], p_Name = ''n''\<rparr>"
  let ?c = "\<lparr>Active = [], Servers = [], Settings = None\<rparr>"
  have "ParseURI (URI ?p) = Ok ?p"
    by (subst ParseURI_of_URI) (simp_all add: in_int64_def)
  from Add_then_Profile [OF this, of ?c "[]"] show ?thesis
    by (simp add: config_wf_def entry_name_def)
qed

text \<open>C33: a saved configuration is loaded as it was. After a \<open>Save\<close> that reports success the
  file loads, to the configuration itself when its strings are UTF-8, else to the
  configuration with every ill-formed byte replaced, which is then stable.\<close>

theorem Load_Save:
  assumes "Save c d = (Ok (), d')" "Settings c \<noteq> None"
  shows "LoadConfig (d_file d') = Ok (config_text c) \<and> (config_utf8 c \<longrightarrow> config_text c = c) \<and>
    (\<forall>d1 d2. Save (config_text c) d1 = (Ok (), d2) \<longrightarrow> LoadConfig (d_file d2) = Ok (config_text c))"
proof -
  have loads: "LoadConfig (d_file d2) = Ok (config_text c1)" if "Save c1 d1 = (Ok (), d2)" "Settings c1 \<noteq> None" for c1 d1 d2
    using Save_cases [OF that(1)] Load_saved [OF that(2)] by auto
  show ?thesis
    using loads [OF assms] loads [of "config_text c"] config_text_id [OF config_text_utf8, of c] config_text_id assms(2)
    by auto
qed

theorem Load_Save_witness:
  "LoadConfig (d_file (snd (Save \<lparr>Active = ''a'', Servers = [\<lparr>srv_Name = ''a'', srv_URI = ''u''\<rparr>],
      Settings = Some DefaultSettings\<rparr> \<lparr>d_file = NotExist, d_mkdir = Ok (), d_write = Written\<rparr>))) =
   Ok \<lparr>Active = ''a'', Servers = [\<lparr>srv_Name = ''a'', srv_URI = ''u''\<rparr>], Settings = Some DefaultSettings\<rparr>"
proof -
  let ?c = "\<lparr>Active = ''a'', Servers = [\<lparr>srv_Name = ''a'', srv_URI = ''u''\<rparr>], Settings = Some DefaultSettings\<rparr>"
  let ?d = "\<lparr>d_file = NotExist, d_mkdir = Ok (), d_write = Written\<rparr>"
  have save: "Save ?c ?d = (Ok (), snd (Save ?c ?d))" by (simp add: Save_def)
  have "config_utf8 ?c" by (simp add: config_utf8_def server_utf8_def settings_utf8_def DefaultSettings_def utf8_def)
  with Load_Save [OF save] show ?thesis by simp
qed

text \<open>Two servers whose names differ only in ill-formed bytes have the same name once they have
  been saved and loaded: the list is no longer consistent.\<close>

lemma Save_merges_names:
  "srv_Name s = [CHR 0xFF] \<Longrightarrow> srv_Name t = [CHR 0xFE] \<Longrightarrow> Servers c = [s, t] \<Longrightarrow> Settings c \<noteq> None \<Longrightarrow>
    Save c d = (Ok (), d') \<Longrightarrow> \<exists>c'. LoadConfig (d_file d') = Ok c' \<and> \<not> config_wf c'"
proof -
  assume s: "srv_Name s = [CHR 0xFF]" "srv_Name t = [CHR 0xFE]" "Servers c = [s, t]" "Settings c \<noteq> None"
    and save: "Save c d = (Ok (), d')"
  have "json_text [CHR 0xFF] = json_text [CHR 0xFE]" by code_simp
  then have "\<not> config_wf (config_text c)" using s by (simp add: config_wf_def config_text_def server_text_def)
  then show ?thesis using Save_cases [OF save] Load_saved [OF s(4)] by auto
qed

text \<open>A write that fails after the file was opened may leave a file that does not load, where a
  consistent list was before.\<close>

lemma Save_torn_loses_list:
  "d_mkdir d = Ok () \<Longrightarrow> d_write d = Torn e None \<Longrightarrow> Save c d = (Err e, d\<lparr>d_file := Contents None\<rparr>) \<and>
    \<not> is_Ok (LoadConfig (d_file (snd (Save c d))))"
  by (simp add: Save_def LoadConfig_def)

text \<open>The file lies in a directory of its own below the configuration directory, in mixed
  case.\<close>

lemma DefaultConfigPath_ends:
  "d \<noteq> [] \<Longrightarrow> \<exists>q. DefaultConfigPath (Ok d) home = q @ ''ArnosVPN/servers.json''"
  using Clean_ends [of "''ArnosVPN''" "''servers.json''" d]
  by (simp add: DefaultConfigPath_def filepath_Join_def plain_elem_def)

lemma DefaultConfigPath_example:
  "DefaultConfigPath (Ok ''/home/u/.config'') ''/home/u'' = ''/home/u/.config/ArnosVPN/servers.json''"
  "DefaultConfigPath (Err []) [] = ''.arnosvpn/servers.json''"
  by code_simp+

text \<open>The log ring never holds more than its limit and always the latest lines: after any
  writes it is the tail of everything written since it was empty.\<close>

lemma log_keeps_latest:
  "lr_lines (fold (\<lambda>p r. snd (log_Write p r)) ps guiLog) =
     (let all = concat (map new_lines ps) in drop (length all - 500) all)"
proof (induction ps rule: rev_induct)
  case (snoc p ps)
  let ?r = "fold (\<lambda>p r. snd (log_Write p r)) ps guiLog" and ?all = "concat (map new_lines ps)"
  have max: "lr_max (fold (\<lambda>p r. snd (log_Write p r)) qs guiLog) = 500" for qs
    by (induction qs rule: rev_induct) (simp_all add: guiLog_def log_Write_def Let_def)
  have "lr_lines (snd (log_Write p ?r)) =
      drop (length (lr_lines ?r @ new_lines p) - 500) (lr_lines ?r @ new_lines p)"
    by (simp add: log_Write_def [of p ?r] Let_def max)
  also have "\<dots> = drop (length (?all @ new_lines p) - 500) (?all @ new_lines p)"
    by (cases "length ?all \<le> 500") (simp_all add: snoc.IH Let_def add.commute)
  finally show ?case by (simp add: Let_def)
qed (simp add: guiLog_def)

end
