(* ===== verification/Subscribe.thy ===== *)
theory Subscribe
  imports ClientConfig
begin

text \<open>
  Subscriptions: the guarded fetch of \<open>internal/client/subscribe.go\<close> and
  \<open>Controller.Subscribe\<close> of \<open>internal/client/controller.go\<close>, which adds the servers of a
  fetched list. The HTTP client and the resolver are arguments.
\<close>

section \<open>Address classes of package net\<close>

definition ip4_test :: "net_ip \<Rightarrow> (bytes \<Rightarrow> bool) \<Rightarrow> (bytes \<Rightarrow> bool) \<Rightarrow> bool" where
  "ip4_test ip p4 p6 = (case To4 ip of Some b \<Rightarrow> p4 b | None \<Rightarrow> length ip = 16 \<and> p6 ip)"

definition IsUnspecified :: "net_ip \<Rightarrow> bool" where
  "IsUnspecified ip = ip4_test ip (\<lambda>b. b = [0, 0, 0, 0]) (\<lambda>b. b = replicate 16 0)"

definition IsLoopback :: "net_ip \<Rightarrow> bool" where
  "IsLoopback ip = ip4_test ip (\<lambda>b. b ! 0 = 127) (\<lambda>b. b = replicate 15 0 @ [1])"

definition IsPrivate :: "net_ip \<Rightarrow> bool" where
  "IsPrivate ip =
     ip4_test ip
       (\<lambda>b. b ! 0 = 10 \<or> b ! 0 = 172 \<and> b ! 1 AND 0xf0 = 16 \<or> b ! 0 = 192 \<and> b ! 1 = 168)
       (\<lambda>b. b ! 0 AND 0xfe = 0xfc)"

definition IsMulticast :: "net_ip \<Rightarrow> bool" where
  "IsMulticast ip = ip4_test ip (\<lambda>b. b ! 0 AND 0xf0 = 0xe0) (\<lambda>b. b ! 0 = 0xff)"

definition IsLinkLocalMulticast :: "net_ip \<Rightarrow> bool" where
  "IsLinkLocalMulticast ip =
     ip4_test ip (\<lambda>b. b ! 0 = 224 \<and> b ! 1 = 0 \<and> b ! 2 = 0) (\<lambda>b. b ! 0 = 0xff \<and> b ! 1 AND 0x0f = 2)"

definition IsLinkLocalUnicast :: "net_ip \<Rightarrow> bool" where
  "IsLinkLocalUnicast ip =
     ip4_test ip (\<lambda>b. b ! 0 = 169 \<and> b ! 1 = 254) (\<lambda>b. b ! 0 = 0xfe \<and> b ! 1 AND 0xc0 = 0x80)"

section \<open>The guarded fetch\<close>

definition isPublicIP :: "net_ip \<Rightarrow> bool" where
  "isPublicIP ip =
     (\<not> (ip = [] \<or> IsLoopback ip \<or> IsPrivate ip \<or> IsLinkLocalUnicast ip \<or> IsLinkLocalMulticast ip \<or>
         IsMulticast ip \<or> IsUnspecified ip))"

text \<open>
  \<open>newHTTPGet\<close>: \<open>scheme\<close> is the scheme of the URL, if the URL is accepted by
  \<open>http.NewRequest\<close>; the result is the request's user agent.
\<close>

definition newHTTPGet :: "string result \<Rightarrow> (string \<times> string) list result" where
  "newHTTPGet scheme =
     bind_result scheme (\<lambda>s.
       if s \<noteq> ''http'' \<and> s \<noteq> ''https'' then Err (''subscription URL must be http(s), got '' @ s)
       else Ok [(''User-Agent'', ''ArnosVPN/desktop'')])"

definition checkRedirect :: "string \<Rightarrow> unit result" where
  "checkRedirect s =
     (if s \<noteq> ''http'' \<and> s \<noteq> ''https'' then Err (''refusing redirect to '' @ s) else Ok ())"

text \<open>
  The dialer of \<open>safeTransport\<close>: the address it connects to, given what the resolver
  answers. Indexing the first of no addresses would be a panic.
\<close>

definition safe_dial :: "(string \<Rightarrow> net_ip list result) \<Rightarrow> string \<Rightarrow> string result" where
  "safe_dial lookup addr =
     (case SplitHostPort addr of
        None \<Rightarrow> Err ''address''
      | Some (host, port) \<Rightarrow>
          bind_result (lookup host) (\<lambda>ips.
            case List.find (\<lambda>ip. \<not> isPublicIP ip) ips of
              Some ip \<Rightarrow> Err (''refusing to connect to non-public address '' @ IP_String ip)
            | None \<Rightarrow>
                (case ips of
                   [] \<Rightarrow> Panic ''index out of range''
                 | ip # _ \<Rightarrow> Ok (JoinHostPort (IP_String ip) port))))"

text \<open>
  Which address the transport asks its dialer for: that of the proxy when the environment names
  one for the request, else that of the URL.
\<close>

definition safeTransport :: "(string \<Rightarrow> net_ip list result) \<Rightarrow> string option \<Rightarrow> string \<Rightarrow> string result" where
  "safeTransport lookup proxy addr = safe_dial lookup (case proxy of Some p \<Rightarrow> p | None \<Rightarrow> addr)"

definition bodyCap :: nat where "bodyCap = 4 * 2 ^ 20"

definition fetchBody :: "string result \<Rightarrow> string result" where
  "fetchBody resp = bind_result resp (\<lambda>body. Ok (take bodyCap body))"

section \<open>The list\<close>

definition maybeBase64 :: "string \<Rightarrow> string option" where
  "maybeBase64 s =
     (let t = TrimSpace s
      in if Contains t ''arnos://'' then None
         else List.find (\<lambda>d. Contains d ''arnos://'')
           (List.map_filter (\<lambda>e. map_option string_of_bytes (DecodeString e t))
              [StdEncoding, RawStdEncoding, URLEncoding]))"

fun add_lines :: "string list \<Rightarrow> client_config \<Rightarrow> nat \<times> client_config" where
  "add_lines [] c = (0, c)"
| "add_lines (l # ls) c =
     (let line = TrimSpace l
      in if \<not> HasPrefix line ''arnos://'' then add_lines ls c
         else let (r, c1) = Add [] line c;
                  (n, c2) = add_lines ls c1
              in (if r = Ok () then Suc n else n, c2))"

definition Subscribe :: "string result \<Rightarrow> string result \<Rightarrow> client_config \<Rightarrow> disk
    \<Rightarrow> nat \<times> unit result \<times> client_config \<times> disk" where
  "Subscribe scheme resp c d =
     (case newHTTPGet scheme of
        Err e \<Rightarrow> (0, Err e, c, d)
      | Panic e \<Rightarrow> (0, Panic e, c, d)
      | Ok _ \<Rightarrow>
          (case fetchBody resp of
             Err e \<Rightarrow> (0, Err e, c, d)
           | Panic e \<Rightarrow> (0, Panic e, c, d)
           | Ok body \<Rightarrow>
               let text = (case maybeBase64 body of Some decoded \<Rightarrow> decoded | None \<Rightarrow> body);
                   (added, c1) = add_lines (Split LF text) c
               in if added = 0 then (0, Err ''no arnos:// entries found at that URL'', c1, d)
                  else let (r, d1) = Save c1 d in (added, r, c1, d1)))"

section \<open>Lemmas\<close>

lemma Add_ok_iff: "fst (Add name uri c) = Ok () \<longleftrightarrow> is_Ok (ParseURI uri)"
  by (auto simp: Add_def Let_def split: result.splits option.splits)

definition usable_line :: "string \<Rightarrow> bool" where
  "usable_line l \<longleftrightarrow> HasPrefix (TrimSpace l) ''arnos://'' \<and> is_Ok (ParseURI (TrimSpace l))"

lemma add_lines_count: "fst (add_lines ls c) = length (filter usable_line ls)"
proof (induction ls arbitrary: c)
  case (Cons l ls)
  then show ?case by (auto simp: Let_def usable_line_def Add_ok_iff case_prod_beta)
qed simp

lemma add_lines_wf: "config_wf c \<Longrightarrow> config_wf (snd (add_lines ls c))"
proof (induction ls arbitrary: c)
  case (Cons l ls)
  then show ?case using Add_wf [OF Cons.prems] by (auto simp: Let_def case_prod_beta)
qed simp

lemma add_lines_none: "fst (add_lines ls c) = 0 \<Longrightarrow> snd (add_lines ls c) = c"
proof (induction ls arbitrary: c)
  case (Cons l ls)
  show ?case
  proof (cases "HasPrefix (TrimSpace l) ''arnos://''")
    case True
    with Cons.prems have "\<not> is_Ok (ParseURI (TrimSpace l))" "fst (add_lines ls (snd (Add [] (TrimSpace l) c))) = 0"
      by (auto simp: Let_def case_prod_beta Add_ok_iff split: if_splits)
    with True Cons.IH Add_fails show ?thesis by (simp add: Let_def case_prod_beta)
  qed (use Cons in simp)
qed simp

text \<open>
  The reserved ranges written out as numbers: of IPv4 (also when embedded in IPv6)
  10/8, 127/8, 169.254/16, 172.16/12, 192.168/16, 224/4 and 0.0.0.0; of IPv6 the addresses
  0 and 1, fc00::/7, fe80::/10 and ff00::/8.
\<close>

definition reserved4 :: "nat \<Rightarrow> nat \<Rightarrow> bool" where
  "reserved4 a b \<longleftrightarrow> a = 10 \<or> a = 127 \<or> a = 169 \<and> b = 254 \<or> a = 172 \<and> 16 \<le> b \<and> b \<le> 31 \<or>
     a = 192 \<and> b = 168 \<or> 224 \<le> a \<and> a \<le> 239"

definition reserved6 :: "nat \<Rightarrow> nat \<Rightarrow> bool" where
  "reserved6 a b \<longleftrightarrow> a = 252 \<or> a = 253 \<or> a = 254 \<and> 128 \<le> b \<and> b \<le> 191 \<or> a = 255"

definition reserved_ip :: "net_ip \<Rightarrow> bool" where
  "reserved_ip ip =
     (case To4 ip of
        Some b \<Rightarrow> reserved4 (unat (b ! 0)) (unat (b ! 1)) \<or> b = replicate 4 0
      | None \<Rightarrow> length ip = 16 \<and>
          (reserved6 (unat (ip ! 0)) (unat (ip ! 1)) \<or> ip = replicate 16 0 \<or> ip = replicate 15 0 @ [1]))"

lemma byte_exhaust:
  fixes b :: byte
  assumes "list_all (\<lambda>n. P (of_nat n)) [0..<256]"
  shows "P b"
proof -
  have "\<forall>n \<in> {0..<256}. P (of_nat n)" using assms by (simp add: list_all_iff)
  then have "P (of_nat (unat b))" by (rule bspec) simp
  then show ?thesis by simp
qed

lemma byte_masks:
  fixes b :: byte
  shows "b AND 0xf0 = 16 \<longleftrightarrow> 16 \<le> unat b \<and> unat b \<le> 31"
    and "b AND 0xf0 = 0xe0 \<longleftrightarrow> 224 \<le> unat b \<and> unat b \<le> 239"
    and "b AND 0xfe = 0xfc \<longleftrightarrow> unat b = 252 \<or> unat b = 253"
    and "b AND 0xc0 = 0x80 \<longleftrightarrow> 128 \<le> unat b \<and> unat b \<le> 191"
  by (rule byte_exhaust [of _ b], code_simp)+

lemma byte_numeral: "(b :: byte) = numeral k \<longleftrightarrow> unat b = numeral k" if "numeral k < (256 :: nat)"
proof -
  have "unat (numeral k :: byte) = numeral k"
    using that by (simp add: unsigned_numeral take_bit_eq_mod del: numeral_mod_numeral)
  then show ?thesis by (metis word_unat_eq_iff)
qed

lemmas byte_tests = byte_masks byte_numeral

text \<open>The address test of the sources decides exactly these ranges.\<close>

lemma isPublicIP_ranges: "isPublicIP ip \<longleftrightarrow> ip \<noteq> [] \<and> \<not> reserved_ip ip"
proof (cases "To4 ip")
  case None
  then show ?thesis
    by (auto simp: isPublicIP_def reserved_ip_def reserved6_def ip4_test_def IsLoopback_def IsPrivate_def
        IsLinkLocalUnicast_def IsLinkLocalMulticast_def IsMulticast_def IsUnspecified_def byte_tests)
next
  case (Some b)
  then show ?thesis
    by (auto simp: isPublicIP_def reserved_ip_def reserved4_def ip4_test_def IsLoopback_def IsPrivate_def
        IsLinkLocalUnicast_def IsLinkLocalMulticast_def IsMulticast_def IsUnspecified_def byte_tests numeral_eq_Suc)
qed

section \<open>Properties\<close>

text \<open>C30: a subscription cannot be pointed at internal addresses. Whatever the resolver
  answers, an address is dialled only if every address of the host is outside the loopback,
  private, link-local, multicast and unspecified ranges of IPv4 and IPv6, and it is the first of them.\<close>

theorem safe_dial_public:
  assumes "safe_dial lookup addr = Ok target" "SplitHostPort addr = Some (host, port)"
  shows "\<exists>ip ips. lookup host = Ok (ip # ips) \<and> target = JoinHostPort (IP_String ip) port \<and>
    (\<forall>i \<in> set (ip # ips). i \<noteq> [] \<and> \<not> reserved_ip i)"
  using assms
  by (auto simp: safe_dial_def bind_result_Ok_conv find_None_iff isPublicIP_ranges
      split: option.splits list.splits)

theorem safe_dial_public_witness:
  "\<exists>ip ips. Ok [[1, 2, 3, 4]] = Ok (ip # ips) \<and> ''1.2.3.4:443'' = JoinHostPort (IP_String ip) ''443'' \<and> \<not> reserved_ip ip"
proof -
  have a: "SplitHostPort ''sub.example:443'' = Some (''sub.example'', ''443'')" by code_simp
  have b: "safe_dial (\<lambda>_. Ok [[1, 2, 3, 4]]) ''sub.example:443'' = Ok ''1.2.3.4:443''" by code_simp
  from safe_dial_public [OF b a] show ?thesis by auto
qed



text \<open>The test for public addresses lets shared address space, the broadcast address and
  the rest of network zero pass.\<close>

lemma nonpublic_addresses_pass:
  "isPublicIP [100, 64, 0, 1] \<and> isPublicIP [255, 255, 255, 255] \<and> isPublicIP [0, 0, 0, 1]"
  by (simp add: isPublicIP_def IsLoopback_def IsPrivate_def IsLinkLocalUnicast_def IsLinkLocalMulticast_def
      IsMulticast_def IsUnspecified_def ip4_test_def To4_def)

text \<open>Behind a proxy the address of the URL is not looked at: whatever it is, the dial succeeds when
  the address of the proxy is public.\<close>

lemma proxied_fetch_unvetted: "safeTransport lookup (Some p) addr = safe_dial lookup p"
  by (simp add: safeTransport_def)

end
