(* ===== verification/Controller.thy ===== *)
theory Controller
  imports Subscribe ClientTunnel "HOL-Library.Multiset"
begin

text \<open>
  The client's connection manager, \<open>internal/client/controller.go\<close>: the operations on the
  saved servers and settings, and the life of connections as a state machine of the callers
  of \<open>Connect\<close>, the supervisors they start, and \<open>Disconnect\<close>, interleaved at the critical
  sections of the code.
\<close>

section \<open>State\<close>

text \<open>
  Tunnels and contexts are identified by numbers; \<open>cancelled\<close> is the set of contexts whose
  cancel function has been called.
\<close>

record controller =
  ct_cfg :: client_config
  ct_cancel :: "nat option"
  ct_tunnel :: "tunnel option"
  connected :: bool
  connecting :: bool
  wantConn :: bool
  ct_mode :: string
  lastError :: string
  cancelled :: "nat set"

definition NewController :: "file_read \<Rightarrow> controller result" where
  "NewController f =
     bind_result (LoadConfig f) (\<lambda>cfg.
       Ok \<lparr>ct_cfg = cfg, ct_cancel = None, ct_tunnel = None, connected = False, connecting = False,
           wantConn = False, ct_mode = [], lastError = [], cancelled = {}\<rparr>)"

text \<open>The settings are never nil after \<open>LoadConfig\<close>.\<close>

definition the_settings :: "client_config \<Rightarrow> settings" where
  "the_settings c = (case Settings c of Some s \<Rightarrow> s | None \<Rightarrow> settings_zero)"

section \<open>Servers and settings\<close>

record state_server =
  ss_Name :: string
  ss_Host :: string
  ss_Port :: int
  ss_Active :: bool

record state_snapshot =
  st_Connected :: bool
  st_Connecting :: bool
  st_Mode :: string
  st_AssignedIP :: string
  st_Socks :: string
  st_Http :: string
  st_Active :: string
  st_Error :: string
  st_Rx :: u64
  st_Tx :: u64
  st_Servers :: "state_server list"

definition state_item :: "client_config \<Rightarrow> saved_server \<Rightarrow> state_server" where
  "state_item cfg s =
     (case Profile cfg (srv_Name s) of
        Ok p \<Rightarrow> \<lparr>ss_Name = srv_Name s, ss_Host = Host p, ss_Port = Port p, ss_Active = (srv_Name s = Active cfg)\<rparr>
      | _ \<Rightarrow> \<lparr>ss_Name = srv_Name s, ss_Host = [], ss_Port = 0, ss_Active = (srv_Name s = Active cfg)\<rparr>)"

definition State :: "controller \<Rightarrow> state_snapshot" where
  "State c =
     (let set = the_settings (ct_cfg c);
          (ip, rx, tx) = (case ct_tunnel c of Some t \<Rightarrow> (LocalIP t, Stats t) | None \<Rightarrow> ([], 0, 0))
      in \<lparr>st_Connected = connected c, st_Connecting = connecting c, st_Mode = ct_mode c, st_AssignedIP = ip,
          st_Socks = s_Socks set, st_Http = s_Http set, st_Active = Active (ct_cfg c), st_Error = lastError c,
          st_Rx = rx, st_Tx = tx, st_Servers = map (state_item (ct_cfg c)) (Servers (ct_cfg c))\<rparr>)"

definition SetSettings :: "settings \<Rightarrow> controller \<Rightarrow> disk \<Rightarrow> unit result \<times> controller \<times> disk" where
  "SetSettings s c d =
     (let s1 = (if s_Socks s = [] then s\<lparr>s_Socks := ''127.0.0.1:1080''\<rparr> else s);
          s2 = (if s_Http s1 = [] then s1\<lparr>s_Http := ''127.0.0.1:8080''\<rparr> else s1);
          s3 = (if s_Mode s2 = [] then s2\<lparr>s_Mode := ''proxy''\<rparr> else s2);
          cfg = (ct_cfg c)\<lparr>Settings := Some s3\<rparr>;
          (r, d1) = Save cfg d
      in (r, c\<lparr>ct_cfg := cfg\<rparr>, d1))"

definition AddServer :: "string \<Rightarrow> controller \<Rightarrow> disk \<Rightarrow> unit result \<times> controller \<times> disk" where
  "AddServer uri c d =
     (case Add [] uri (ct_cfg c) of
        (Ok _, cfg) \<Rightarrow> (let (r, d1) = Save cfg d in (r, c\<lparr>ct_cfg := cfg\<rparr>, d1))
      | (r, cfg) \<Rightarrow> (r, c\<lparr>ct_cfg := cfg\<rparr>, d))"

definition SetActive :: "string \<Rightarrow> controller \<Rightarrow> disk \<Rightarrow> unit result \<times> controller \<times> disk" where
  "SetActive name c d =
     (case Profile (ct_cfg c) name of
        Ok _ \<Rightarrow>
          (let cfg = (ct_cfg c)\<lparr>Active := name\<rparr>; (r, d1) = Save cfg d in (r, c\<lparr>ct_cfg := cfg\<rparr>, d1))
      | Err e \<Rightarrow> (Err e, c, d)
      | Panic e \<Rightarrow> (Panic e, c, d))"

definition RemoveServer :: "string \<Rightarrow> controller \<Rightarrow> disk \<Rightarrow> unit result \<times> controller \<times> disk" where
  "RemoveServer name c d =
     (let cfg = Remove name (ct_cfg c); (r, d1) = Save cfg d in (r, c\<lparr>ct_cfg := cfg\<rparr>, d1))"

text \<open>
  The address \<open>Ping\<close> dials, and \<open>Ping\<close> with what dialling gives: an error or the nanoseconds it
  took, of which whole milliseconds are reported.
\<close>

definition ping_addr :: "controller \<Rightarrow> string \<Rightarrow> string result" where
  "ping_addr c name =
     bind_result (Profile (ct_cfg c) name) (\<lambda>p. Ok (JoinHostPort (Host p) (FormatInt (Port p))))"

definition Ping :: "(string \<Rightarrow> int result) \<Rightarrow> controller \<Rightarrow> string \<Rightarrow> int result" where
  "Ping dial c name =
     bind_result (ping_addr c name) (\<lambda>addr. bind_result (dial addr) (\<lambda>elapsed. Ok (elapsed div 1000000)))"

definition lanAdjust :: "string \<Rightarrow> bool \<Rightarrow> string" where
  "lanAdjust addr allowLAN =
     (if \<not> allowLAN then addr
      else case SplitHostPort addr of
             Some (h, p) \<Rightarrow> if h = ''127.0.0.1'' \<or> h = ''localhost'' then JoinHostPort ''0.0.0.0'' p else addr
           | None \<Rightarrow> addr)"

definition resolveHost :: "(string \<Rightarrow> string list result) \<Rightarrow> string \<Rightarrow> string" where
  "resolveHost lookup host =
     (if ParseIP host \<noteq> None then host
      else case lookup host of Ok (ip # _) \<Rightarrow> ip | _ \<Rightarrow> host)"

definition splitDNS :: "string \<Rightarrow> string list" where
  "splitDNS s = filter (\<lambda>p. p \<noteq> []) (map TrimSpace (Split (CHR '','') s))"

definition tunnelHost :: "tunnel \<Rightarrow> string" where
  "tunnelHost t = t_Gateway t"

text \<open>Which runner \<open>runMode\<close> starts, and with what arguments.\<close>

datatype runner = StartTUN string string | StartProxy string string

definition runMode :: "(string \<Rightarrow> string list result) \<Rightarrow> tunnel \<Rightarrow> string \<Rightarrow> string \<Rightarrow> string \<Rightarrow> runner" where
  "runMode lookup t mode socks httpAddr =
     (if mode = ''tun'' then StartTUN (resolveHost lookup (tunnelHost t)) ''arnos0''
      else StartProxy socks httpAddr)"

section \<open>Connections\<close>

text \<open>\<open>Connect\<close> up to its dial: refused, or the mode and profile it will use.\<close>

definition connect_mode :: "string \<Rightarrow> controller \<Rightarrow> string" where
  "connect_mode mode c =
     (let m = (if mode = [] then s_Mode (the_settings (ct_cfg c)) else mode)
      in if m = [] then ''proxy'' else m)"

definition connect_begin :: "string \<Rightarrow> controller \<Rightarrow> profile result \<times> controller" where
  "connect_begin mode c =
     (if connected c \<or> connecting c then (Err ''already connected'', c)
      else case Profile (ct_cfg c) [] of
             Ok p \<Rightarrow> (Ok p, c\<lparr>connecting := True, lastError := [], ct_mode := connect_mode mode c\<rparr>)
           | Err e \<Rightarrow> (Err e, c)
           | Panic e \<Rightarrow> (Panic e, c))"

definition connect_failed :: "string \<Rightarrow> controller \<Rightarrow> controller" where
  "connect_failed e c = c\<lparr>connecting := False, lastError := e\<rparr>"

definition connect_done :: "nat \<Rightarrow> tunnel \<Rightarrow> controller \<Rightarrow> controller" where
  "connect_done ctx t c =
     c\<lparr>ct_cancel := Some ctx, ct_tunnel := Some t, connected := True, connecting := False, wantConn := True\<rparr>"

text \<open>
  \<open>Disconnect\<close> forgets the connection in its critical section and calls the cancel function
  it found there afterwards.
\<close>

definition disconnect_clear :: "controller \<Rightarrow> nat option \<times> controller" where
  "disconnect_clear c = (ct_cancel c, c\<lparr>ct_cancel := None, ct_tunnel := None, connected := False\<rparr>)"

definition call_cancel :: "nat option \<Rightarrow> controller \<Rightarrow> controller" where
  "call_cancel cancel c =
     (case cancel of Some ctx \<Rightarrow> c\<lparr>cancelled := insert ctx (cancelled c)\<rparr> | None \<Rightarrow> c)"

definition Disconnect :: "controller \<Rightarrow> controller" where
  "Disconnect c = (case disconnect_clear c of (cancel, c1) \<Rightarrow> call_cancel cancel c1)"

text \<open>
  A supervisor: running a tunnel; about to test whether to reconnect; sleeping before a
  dial; with a dialled tunnel; or returned.
\<close>

datatype supervisor =
    Running tunnel
  | Backoff nat
  | Sleeping nat
  | Dialled tunnel
  | Ended

text \<open>The tunnel's run has ended.\<close>

definition sup_lost :: "nat \<Rightarrow> controller \<Rightarrow> supervisor \<times> controller" where
  "sup_lost ctx c =
     (let c1 = c\<lparr>connected := False, ct_tunnel := None\<rparr>
      in (if wantConn c1 \<and> ctx \<notin> cancelled c1 then Backoff 2 else Ended, c1))"

text \<open>The head of the reconnect loop.\<close>

definition sup_check :: "nat \<Rightarrow> nat \<Rightarrow> controller \<Rightarrow> supervisor \<times> controller" where
  "sup_check ctx delay c =
     (let c1 = c\<lparr>connecting := True\<rparr>
      in (if \<not> wantConn c1 \<or> ctx \<in> cancelled c1 then Ended else Sleeping delay, c1))"

definition next_delay :: "nat \<Rightarrow> nat" where
  "next_delay d = (if 2 * d > 30 then 30 else 2 * d)"

definition sup_resume :: "tunnel \<Rightarrow> controller \<Rightarrow> supervisor \<times> controller" where
  "sup_resume t c =
     (if \<not> wantConn c then (Ended, c)
      else (Running t, c\<lparr>ct_tunnel := Some t, connected := True, connecting := False, lastError := []\<rparr>))"

section \<open>The machine\<close>

text \<open>
  \<open>pending\<close> holds the contexts of callers of \<open>Connect\<close> that are dialling; \<open>cancelling\<close> the
  contexts that callers of \<open>Disconnect\<close> are about to cancel; \<open>sups\<close> the supervisors by context.
\<close>

record ctl_sys =
  ctl :: controller
  pending :: "nat set"
  cancelling :: "nat multiset"
  sups :: "nat \<rightharpoonup> supervisor"

definition with_ctl :: "ctl_sys \<Rightarrow> controller \<Rightarrow> ctl_sys" where
  "with_ctl m c = m\<lparr>ctl := c\<rparr>"

inductive ctl_step :: "ctl_sys \<Rightarrow> ctl_sys \<Rightarrow> bool" where
  begin_connect: "connect_begin mode (ctl m) = (Ok p, c) \<Longrightarrow> ctx \<notin> pending m \<Longrightarrow> sups m ctx = None \<Longrightarrow>
    ctl_step m (m\<lparr>ctl := c, pending := insert ctx (pending m)\<rparr>)"
| dial_failed: "ctx \<in> pending m \<Longrightarrow>
    ctl_step m (m\<lparr>ctl := connect_failed e (ctl m), pending := pending m - {ctx}\<rparr>)"
| dial_done: "ctx \<in> pending m \<Longrightarrow>
    ctl_step m (m\<lparr>ctl := connect_done ctx t (ctl m), pending := pending m - {ctx},
                  sups := (sups m)(ctx \<mapsto> Running t)\<rparr>)"
| lost: "sups m ctx = Some (Running t) \<Longrightarrow> sup_lost ctx (ctl m) = (s, c) \<Longrightarrow>
    ctl_step m (m\<lparr>ctl := c, sups := (sups m)(ctx \<mapsto> s)\<rparr>)"
| check: "sups m ctx = Some (Backoff d) \<Longrightarrow> sup_check ctx d (ctl m) = (s, c) \<Longrightarrow>
    ctl_step m (m\<lparr>ctl := c, sups := (sups m)(ctx \<mapsto> s)\<rparr>)"
| woken: "sups m ctx = Some (Sleeping d) \<Longrightarrow> ctx \<in> cancelled (ctl m) \<Longrightarrow>
    ctl_step m (m\<lparr>sups := (sups m)(ctx \<mapsto> Ended)\<rparr>)"
| redial_failed: "sups m ctx = Some (Sleeping d) \<Longrightarrow>
    ctl_step m (m\<lparr>sups := (sups m)(ctx \<mapsto> Backoff (next_delay d))\<rparr>)"
| redial_done: "sups m ctx = Some (Sleeping d) \<Longrightarrow>
    ctl_step m (m\<lparr>sups := (sups m)(ctx \<mapsto> Dialled t)\<rparr>)"
| resume: "sups m ctx = Some (Dialled t) \<Longrightarrow> sup_resume t (ctl m) = (s, c) \<Longrightarrow>
    ctl_step m (m\<lparr>ctl := c, sups := (sups m)(ctx \<mapsto> s)\<rparr>)"
| forget: "disconnect_clear (ctl m) = (None, c) \<Longrightarrow> ctl_step m (m\<lparr>ctl := c\<rparr>)"
| disconnect: "disconnect_clear (ctl m) = (Some ctx, c) \<Longrightarrow>
    ctl_step m (m\<lparr>ctl := c, cancelling := add_mset ctx (cancelling m)\<rparr>)"
| cancel: "ctx \<in># cancelling m \<Longrightarrow>
    ctl_step m (m\<lparr>ctl := call_cancel (Some ctx) (ctl m), cancelling := cancelling m - {#ctx#}\<rparr>)"
| edit: "ctl_step m (m\<lparr>ctl := (ctl m)\<lparr>ct_cfg := cfg\<rparr>\<rparr>)"

definition ctl_init :: "ctl_sys \<Rightarrow> bool" where
  "ctl_init m \<longleftrightarrow> (\<exists>f. NewController f = Ok (ctl m)) \<and> pending m = {} \<and> cancelling m = {#} \<and>
     sups m = Map.empty"

text \<open>A call of \<open>Disconnect\<close> that nobody interrupts.\<close>

lemma disconnect_steps: "ctl_step\<^sup>*\<^sup>* m (m\<lparr>ctl := Disconnect (ctl m)\<rparr>)"
proof (cases "ct_cancel (ctl m)")
  case None
  then show ?thesis
    using forget [of m] by (simp add: disconnect_clear_def Disconnect_def call_cancel_def r_into_rtranclp)
next
  case (Some ctx)
  define m1 where "m1 = m\<lparr>ctl := snd (disconnect_clear (ctl m)), cancelling := add_mset ctx (cancelling m)\<rparr>"
  have 1: "ctl_step m m1"
    unfolding m1_def using Some by (intro disconnect [of m ctx]) (simp add: disconnect_clear_def)
  have "ctl_step m1 (m1\<lparr>ctl := call_cancel (Some ctx) (ctl m1), cancelling := cancelling m1 - {#ctx#}\<rparr>)"
    by (rule cancel) (simp add: m1_def)
  moreover have "m1\<lparr>ctl := call_cancel (Some ctx) (ctl m1), cancelling := cancelling m1 - {#ctx#}\<rparr> =
      m\<lparr>ctl := Disconnect (ctl m)\<rparr>"
    using Some by (simp add: m1_def Disconnect_def disconnect_clear_def)
  ultimately show ?thesis using 1 by auto
qed

section \<open>Invariant\<close>

definition delay_ok :: "supervisor \<Rightarrow> bool" where
  "delay_ok s = (case s of Backoff d \<Rightarrow> 2 \<le> d \<and> d \<le> 30 | Sleeping d \<Rightarrow> 2 \<le> d \<and> d \<le> 30 | _ \<Rightarrow> True)"

definition ctl_inv :: "ctl_sys \<Rightarrow> bool" where
  "ctl_inv m \<longleftrightarrow>
     (connected (ctl m) \<longleftrightarrow> ct_tunnel (ctl m) \<noteq> None) \<and>
     (connected (ctl m) \<longrightarrow> wantConn (ctl m)) \<and>
     (\<forall>ctx s. sups m ctx = Some s \<longrightarrow> delay_ok s)"

lemma delay_ok_simps [simp]:
  "delay_ok (Running t)" "delay_ok (Dialled t)" "delay_ok Ended" "delay_ok (Backoff 2)"
  "delay_ok (Backoff d) = delay_ok (Sleeping d)"
  "delay_ok (Sleeping d) \<Longrightarrow> delay_ok (Sleeping (next_delay d))"
  by (auto simp: delay_ok_def next_delay_def)

lemma delay_ok_2 [simp]: "delay_ok (Sleeping 2)"
  by (simp add: delay_ok_def)

lemmas ctl_ops = connect_begin_def connect_failed_def connect_done_def Disconnect_def disconnect_clear_def
  call_cancel_def sup_lost_def
  sup_check_def sup_resume_def Let_def

lemma sups_update:
  "(\<forall>x s. sups m x = Some s \<longrightarrow> delay_ok s) \<Longrightarrow> delay_ok t \<Longrightarrow>
   \<forall>x s. ((sups m)(ctx \<mapsto> t)) x = Some s \<longrightarrow> delay_ok s"
  by auto

lemma ctl_inv_step:
  assumes "ctl_step m m'" "ctl_inv m"
  shows "ctl_inv m'"
  using assms(1)
proof cases
  case (redial_failed ctx d)
  then have "delay_ok (Sleeping (next_delay d))" using assms(2) by (auto simp: ctl_inv_def)
  with redial_failed assms(2) show ?thesis by (simp add: ctl_inv_def)
next
  case (check ctx d s c)
  then have "delay_ok (Backoff d)" using assms(2) unfolding ctl_inv_def by blast
  with check assms(2) show ?thesis by (auto simp: ctl_inv_def ctl_ops split: if_splits)
qed (use assms(2) in \<open>auto simp: ctl_inv_def ctl_ops split: if_splits result.splits\<close>)

lemma ctl_inv_init: "ctl_init m \<Longrightarrow> ctl_inv m"
proof -
  assume init: "ctl_init m"
  then obtain cfg where "ctl m = \<lparr>ct_cfg = cfg, ct_cancel = None, ct_tunnel = None, connected = False,
      connecting = False, wantConn = False, ct_mode = [], lastError = [], cancelled = {}\<rparr>"
    by (auto simp: ctl_init_def NewController_def bind_result_Ok_conv; metis)
  with init show "ctl_inv m" by (simp add: ctl_inv_def ctl_init_def)
qed

interpretation ctl: safe_system ctl_init ctl_step ctl_inv
  by unfold_locales (auto intro: ctl_inv_init ctl_inv_step)

section \<open>A cancelled supervisor\<close>

text \<open>A context belongs to a caller that is dialling or to a supervisor, never to both.\<close>

definition one_owner :: "ctl_sys \<Rightarrow> bool" where
  "one_owner m \<longleftrightarrow> pending m \<inter> dom (sups m) = {}"

lemma one_owner_step: "ctl_step m m' \<Longrightarrow> one_owner m \<Longrightarrow> one_owner m'"
  by (induction rule: ctl_step.induct) (auto simp: one_owner_def)

lemma one_owner_init: "ctl_init m \<Longrightarrow> one_owner m"
  by (simp add: ctl_init_def one_owner_def)

interpretation owner: safe_system ctl_init ctl_step one_owner
  by unfold_locales (fact one_owner_init one_owner_step)+

text \<open>How many moves a supervisor has left once its context is cancelled.\<close>

fun moves_left :: "supervisor \<Rightarrow> nat" where
  "moves_left (Running t) = 1"
| "moves_left (Backoff d) = 1"
| "moves_left (Sleeping d) = 3"
| "moves_left (Dialled t) = 2"
| "moves_left Ended = 0"

lemma cancelled_move:
  assumes "ctl_step m m'" "one_owner m" "ctx \<in> cancelled (ctl m)" "sups m ctx = Some s"
  shows "ctx \<in> cancelled (ctl m') \<and> (\<exists>s'. sups m' ctx = Some s' \<and> (s' = s \<or> moves_left s' < moves_left s))"
  using assms by (cases rule: ctl_step.cases) (auto simp: ctl_ops one_owner_def split: if_splits result.splits option.splits)

lemma cancelled_enabled:
  assumes "ctx \<in> cancelled (ctl m)" "sups m ctx = Some s" "s \<noteq> Ended"
  shows "\<exists>m' s'. ctl_step m m' \<and> sups m' ctx = Some s' \<and> moves_left s' < moves_left s \<and> ctx \<in> cancelled (ctl m')"
proof (cases s)
  case (Running t)
  then show ?thesis using assms ctl_step.lost [of m ctx t, OF _ prod.collapse [symmetric]]
    by (fastforce simp: sup_lost_def Let_def)
next
  case (Backoff d)
  then show ?thesis using assms ctl_step.check [of m ctx d, OF _ prod.collapse [symmetric]]
    by (fastforce simp: sup_check_def Let_def)
next
  case (Sleeping d)
  then show ?thesis using assms ctl_step.woken [of m ctx d]
    by (intro exI [of _ "m\<lparr>sups := (sups m)(ctx \<mapsto> Ended)\<rparr>"] exI [of _ Ended]) simp
next
  case (Dialled t)
  then show ?thesis using assms ctl_step.resume [of m ctx t, OF _ prod.collapse [symmetric]]
    by (fastforce simp: sup_resume_def split: if_splits)
qed (use assms in simp)

lemma cancelled_can_end:
  assumes "ctx \<in> cancelled (ctl m)" "sups m ctx = Some s"
  shows "\<exists>m'. ctl_step\<^sup>*\<^sup>* m m' \<and> sups m' ctx = Some Ended"
  using assms
proof (induction "moves_left s" arbitrary: m s rule: less_induct)
  case less
  show ?case
  proof (cases "s = Ended")
    case False
    from cancelled_enabled [OF less.prems False] obtain m1 s1 where 1: "ctl_step m m1" "sups m1 ctx = Some s1"
      "moves_left s1 < moves_left s" "ctx \<in> cancelled (ctl m1)" by blast
    from less.hyps [OF 1(3,4,2)] 1(1) show ?thesis by (meson converse_rtranclp_into_rtranclp)
  qed (use less.prems in auto)
qed

text \<open>A stretch of a run, and how often a supervisor moves in it.\<close>

fun ctl_path :: "ctl_sys list \<Rightarrow> bool" where
  "ctl_path (m # m' # ms) \<longleftrightarrow> ctl_step m m' \<and> ctl_path (m' # ms)"
| "ctl_path _ \<longleftrightarrow> True"

fun sup_moves :: "nat \<Rightarrow> ctl_sys list \<Rightarrow> nat" where
  "sup_moves ctx (m # m' # ms) = (if sups m ctx = sups m' ctx then 0 else 1) + sup_moves ctx (m' # ms)"
| "sup_moves ctx _ = 0"

lemma cancelled_path:
  assumes "ctl_path (m # ms)" "one_owner m" "ctx \<in> cancelled (ctl m)" "sups m ctx = Some s"
  shows "ctx \<in> cancelled (ctl (last (m # ms))) \<and>
    (\<exists>s'. sups (last (m # ms)) ctx = Some s' \<and> sup_moves ctx (m # ms) + moves_left s' \<le> moves_left s)"
  using assms
proof (induction ms arbitrary: m s)
  case (Cons m1 ms)
  then have step: "ctl_step m m1" by simp
  from cancelled_move [OF this Cons.prems(2-4)] obtain s1 where
    1: "ctx \<in> cancelled (ctl m1)" "sups m1 ctx = Some s1" "s1 = s \<or> moves_left s1 < moves_left s" by blast
  from Cons.IH [OF _ one_owner_step [OF step Cons.prems(2)] 1(1,2)] Cons.prems(1) obtain s' where
    2: "ctx \<in> cancelled (ctl (last (m1 # ms)))" "sups (last (m1 # ms)) ctx = Some s'"
      "sup_moves ctx (m1 # ms) + moves_left s' \<le> moves_left s1" by auto
  with 1(2,3) Cons.prems(4) show ?case by auto
qed simp

lemma moves_left_le: "moves_left s \<le> 3"
  by (cases s) simp_all

section \<open>Concrete runs\<close>

definition demo_profile :: profile where
  "demo_profile = \<lparr>Host = ''h'', Port = 443, Path = ''/'', SNI = ''h'', p_PSK = [], p_Name = ''n''\<rparr>"

definition demo_config :: client_config where
  "demo_config = \<lparr>Active = ''n'', Servers = [\<lparr>srv_Name = ''n'', srv_URI = URI demo_profile\<rparr>],
     Settings = Some DefaultSettings\<rparr>"

lemma demo_config_Profile: "Profile demo_config [] = Ok demo_profile"
  using ParseURI_of_URI [of demo_profile] by (simp add: Profile_def demo_config_def demo_profile_def in_int64_def)

lemma demo_config_wf: "config_wf demo_config"
  using ParseURI_of_URI [of demo_profile]
  by (simp add: config_wf_def demo_config_def demo_profile_def in_int64_def)

definition demo_tunnel :: "string \<Rightarrow> tunnel" where
  "demo_tunnel ip = \<lparr>t_session = toy_session False, rxBytes = 0, txBytes = 0, LocalIP = ip, t_Mask = 24,
     t_Gateway = ''10.66.0.1'', t_DNS = [], t_MTU = 1400, readLimit = 2680\<rparr>"

text \<open>A controller started on that configuration: connected through context 0.\<close>

definition demo_ctl :: "tunnel option \<Rightarrow> bool \<Rightarrow> controller" where
  "demo_ctl t busy = \<lparr>ct_cfg = demo_config, ct_cancel = None, ct_tunnel = t, connected = (t \<noteq> None),
     connecting = busy, wantConn = False, ct_mode = ''proxy'', lastError = [], cancelled = {}\<rparr>"

lemma demo_config_utf8: "config_utf8 demo_config"
  by code_simp

lemma demo_load: "NewController (Contents (Some (marshal_config demo_config))) =
    Ok ((demo_ctl None False)\<lparr>ct_mode := []\<rparr>)"
proof -
  have "Settings demo_config \<noteq> None" by (simp add: demo_config_def)
  from Load_saved [OF this] show ?thesis
    by (simp add: NewController_def config_text_id [OF demo_config_utf8] demo_ctl_def)
qed

lemma demo_begin:
  assumes "reach ctl_init ctl_step m" "ct_cfg (ctl m) = demo_config" "\<not> connected (ctl m)" "\<not> connecting (ctl m)"
    and "ctx \<notin> pending m" "sups m ctx = None"
  shows "reach ctl_init ctl_step (m\<lparr>ctl := connect_done ctx t ((ctl m)\<lparr>connecting := True, lastError := [],
      ct_mode := ''proxy''\<rparr>), pending := pending m, sups := (sups m)(ctx \<mapsto> Running t)\<rparr>)"
proof -
  let ?c = "(ctl m)\<lparr>connecting := True, lastError := [], ct_mode := ''proxy''\<rparr>"
  have "connect_begin [] (ctl m) = (Ok demo_profile, ?c)"
    using assms by (simp add: connect_begin_def demo_config_Profile connect_mode_def)
      (simp add: demo_config_def the_settings_def DefaultSettings_def)
  from ctl_step.begin_connect [OF this assms(5,6)]
  have 1: "reach ctl_init ctl_step (m\<lparr>ctl := ?c, pending := insert ctx (pending m)\<rparr>)"
    using assms(1) by (rule reach_step [rotated])
  have "ctl_step (m\<lparr>ctl := ?c, pending := insert ctx (pending m)\<rparr>)
      (m\<lparr>ctl := connect_done ctx t ?c, pending := pending m, sups := (sups m)(ctx \<mapsto> Running t)\<rparr>)"
    using ctl_step.dial_done [of ctx "m\<lparr>ctl := ?c, pending := insert ctx (pending m)\<rparr>" t] assms(5) by simp
  with 1 show ?thesis by (rule reach_step)
qed

lemma demo_connected:
  "\<exists>m. reach ctl_init ctl_step m \<and> pending m = {} \<and> sups m = [0 \<mapsto> Running t] \<and> connected (ctl m) \<and>
    \<not> connecting (ctl m) \<and> wantConn (ctl m) \<and> ct_cancel (ctl m) = Some 0 \<and> cancelled (ctl m) = {} \<and>
    ct_cfg (ctl m) = demo_config"
proof -
  let ?m = "\<lparr>ctl = (demo_ctl None False)\<lparr>ct_mode := []\<rparr>, pending = {}, cancelling = {#}, sups = Map.empty\<rparr>"
  have "reach ctl_init ctl_step ?m" by (rule reach_init) (use demo_load in \<open>auto simp: ctl_init_def\<close>)
  from demo_begin [OF this, of 0 t] show ?thesis
    by (intro exI) (auto simp: demo_ctl_def connect_done_def)
qed

section \<open>Properties\<close>

text \<open>C17: the snapshot the user sees is coherent. In every reachable state, however calls and
  supervisors interleave, the client is connected exactly when it has a tunnel, and every
  reconnect delay is between 2 and 30 seconds.\<close>

theorem controller_coherent:
  assumes "reach ctl_init ctl_step m"
  shows "(st_Connected (State (ctl m)) \<longleftrightarrow> ct_tunnel (ctl m) \<noteq> None) \<and>
    (\<forall>ctx d. sups m ctx = Some (Sleeping d) \<or> sups m ctx = Some (Backoff d) \<longrightarrow> 2 \<le> d \<and> d \<le> 30)"
proof -
  have inv: "ctl_inv m" by (rule ctl.reach_inv [OF assms])
  then have "delay_ok s" if "sups m ctx = Some s" for ctx s using that by (auto simp: ctl_inv_def)
  then have "2 \<le> d \<and> d \<le> 30" if "sups m ctx = Some (Sleeping d) \<or> sups m ctx = Some (Backoff d)" for ctx d
    using that by (fastforce simp: delay_ok_def split: supervisor.splits)
  moreover have "st_Connected (State (ctl m)) \<longleftrightarrow> ct_tunnel (ctl m) \<noteq> None"
    using inv by (simp add: State_def ctl_inv_def Let_def case_prod_beta)
  ultimately show ?thesis by blast
qed

theorem controller_coherent_witness:
  "\<exists>(m :: ctl_sys). sups m 0 \<noteq> None \<and> st_Connected (State (ctl m)) \<and> ct_tunnel (ctl m) \<noteq> None"
proof -
  obtain m where m0: "reach ctl_init ctl_step m" "sups m = [0 \<mapsto> Running (demo_tunnel [])]" "connected (ctl m)"
    using demo_connected by blast
  then have m: "reach ctl_init ctl_step m" "sups m 0 \<noteq> None" "connected (ctl m)" by simp_all
  then have "st_Connected (State (ctl m))" by (simp add: State_def Let_def case_prod_beta)
  with controller_coherent [OF m(1)] m(2) show ?thesis by blast
qed

text \<open>C18: a disconnected supervisor comes to its end. Once the context of a supervisor is
  cancelled, in a reachable state, the supervisor takes at most three more moves in any run,
  however the rest of the program goes on; and at every point of the run it can still reach
  its end.\<close>

theorem cancelled_supervisor_ends:
  assumes "reach ctl_init ctl_step m" "ctx \<in> cancelled (ctl m)" "sups m ctx \<noteq> None" "ctl_path (m # ms)"
  shows "sup_moves ctx (m # ms) \<le> 3 \<and>
    (\<exists>m'. ctl_step\<^sup>*\<^sup>* (last (m # ms)) m' \<and> sups m' ctx = Some Ended)"
proof -
  obtain s where s: "sups m ctx = Some s" using assms(3) by blast
  from cancelled_path [OF assms(4) owner.reach_inv [OF assms(1)] assms(2) s] obtain s' where
    "ctx \<in> cancelled (ctl (last (m # ms)))" "sups (last (m # ms)) ctx = Some s'"
    "sup_moves ctx (m # ms) + moves_left s' \<le> moves_left s" by blast
  with moves_left_le [of s] cancelled_can_end show ?thesis by fastforce
qed

theorem cancelled_supervisor_ends_witness:
  "\<exists>m m'. sups m 0 = Some (Running (demo_tunnel [])) \<and> 0 \<in> cancelled (ctl m) \<and>
    ctl_step\<^sup>*\<^sup>* m m' \<and> sups m' 0 = Some Ended"
proof -
  obtain m where m: "reach ctl_init ctl_step m" "sups m = [0 \<mapsto> Running (demo_tunnel [])]" "ct_cancel (ctl m) = Some 0"
    using demo_connected by blast
  let ?m = "m\<lparr>ctl := Disconnect (ctl m)\<rparr>"
  have r: "reach ctl_init ctl_step ?m" using disconnect_steps m(1) by (rule reach_steps)
  have c: "0 \<in> cancelled (ctl ?m)" using m(3) by (simp add: Disconnect_def disconnect_clear_def call_cancel_def)
  from cancelled_supervisor_ends [OF r c, of "[]"] m(2) obtain m' where
    "ctl_step\<^sup>*\<^sup>* ?m m'" "sups m' 0 = Some Ended" by auto
  with m(2) c show ?thesis by (intro exI [of _ ?m] exI [of _ m']) simp
qed



text \<open>A state in which \<open>connecting\<close> is set and nobody is left to clear it.\<close>

definition stuck :: "ctl_sys \<Rightarrow> bool" where
  "stuck m \<longleftrightarrow> connecting (ctl m) \<and> pending m = {} \<and> (\<forall>ctx s. sups m ctx = Some s \<longrightarrow> s = Ended)"

lemma stuck_step: "ctl_step m m' \<Longrightarrow> stuck m \<Longrightarrow> stuck m'"
  by (induction rule: ctl_step.induct) (auto simp: stuck_def ctl_ops split: if_splits)

lemma stuck_steps: "ctl_step\<^sup>*\<^sup>* m m' \<Longrightarrow> stuck m \<Longrightarrow> stuck m'"
  by (induction rule: rtranclp_induct) (auto intro: stuck_step)

text \<open>Disconnecting while the client is reconnecting blocks it. There is a reachable state
  in which nobody is dialling, every supervisor has returned, and from which no sequence of
  steps leads to a state where \<open>Connect\<close> is accepted: the flag \<open>connecting\<close> stays set.\<close>

lemma disconnect_while_reconnecting_blocks:
  "\<exists>m. reach ctl_init ctl_step m \<and> pending m = {} \<and> (\<forall>ctx s. sups m ctx = Some s \<longrightarrow> s = Ended) \<and>
    (\<forall>m' mode. ctl_step\<^sup>*\<^sup>* m m' \<longrightarrow> fst (connect_begin mode (ctl m')) = Err ''already connected'')"
proof -
  obtain m where m: "reach ctl_init ctl_step m" "pending m = {}" "sups m = [0 \<mapsto> Running (demo_tunnel [])]"
    "wantConn (ctl m)" "ct_cancel (ctl m) = Some 0" "cancelled (ctl m) = {}"
    using demo_connected by blast
  let ?c1 = "(ctl m)\<lparr>connected := False, ct_tunnel := None\<rparr>"
  define m1 where "m1 = m\<lparr>ctl := ?c1, sups := (sups m)(0 \<mapsto> Backoff 2)\<rparr>"
  define m2 where "m2 = m1\<lparr>ctl := ?c1\<lparr>connecting := True\<rparr>, sups := (sups m1)(0 \<mapsto> Sleeping 2)\<rparr>"
  define m3 where "m3 = m2\<lparr>ctl := Disconnect (ctl m2)\<rparr>"
  define m4 where "m4 = m3\<lparr>sups := (sups m3)(0 \<mapsto> Ended)\<rparr>"
  have "reach ctl_init ctl_step m1"
    unfolding m1_def by (rule reach_step [OF m(1)], rule ctl_step.lost [of _ 0])
      (use m in \<open>simp_all add: sup_lost_def\<close>)
  then have "reach ctl_init ctl_step m2"
    unfolding m2_def by (rule reach_step, intro ctl_step.check [of _ 0 2])
      (use m in \<open>simp_all add: m1_def sup_check_def\<close>)
  then have "reach ctl_init ctl_step m3"
    unfolding m3_def by (rule reach_steps [OF disconnect_steps])
  then have "reach ctl_init ctl_step m4"
    unfolding m4_def by (rule reach_step, intro ctl_step.woken [of _ 0 2])
      (use m in \<open>simp_all add: m3_def m2_def m1_def Disconnect_def disconnect_clear_def call_cancel_def\<close>)
  moreover have "stuck m4"
    using m by (simp add: stuck_def m4_def m3_def m2_def m1_def Disconnect_def disconnect_clear_def call_cancel_def)
  moreover from this have "fst (connect_begin mode (ctl m')) = Err ''already connected''"
    if "ctl_step\<^sup>*\<^sup>* m4 m'" for m' mode
    using stuck_steps [OF that] by (simp add: stuck_def connect_begin_def)
  ultimately show ?thesis unfolding stuck_def by blast
qed

text \<open>A supervisor of an earlier connection can erase a later one. There is a reachable
  state in which a tunnel is running and has not been cancelled, while the client shows
  itself disconnected, has no tunnel, and accepts another \<open>Connect\<close>.\<close>

lemma old_supervisor_erases_connection:
  "\<exists>m t. reach ctl_init ctl_step m \<and> sups m 1 = Some (Running t) \<and> 1 \<notin> cancelled (ctl m) \<and>
    \<not> st_Connected (State (ctl m)) \<and> ct_tunnel (ctl m) = None \<and> is_Ok (fst (connect_begin [] (ctl m)))"
proof -
  let ?t = "demo_tunnel ''10.66.0.3''"
  obtain m where m: "reach ctl_init ctl_step m" "pending m = {}" "sups m = [0 \<mapsto> Running (demo_tunnel [])]"
    "\<not> connecting (ctl m)" "ct_cancel (ctl m) = Some 0" "cancelled (ctl m) = {}" "ct_cfg (ctl m) = demo_config"
    using demo_connected by blast
  define m1 where "m1 = m\<lparr>ctl := Disconnect (ctl m)\<rparr>"
  have 1: "reach ctl_init ctl_step m1"
    unfolding m1_def by (rule reach_steps [OF disconnect_steps m(1)])
  define m2 where "m2 = m1\<lparr>ctl := connect_done 1 ?t ((ctl m1)\<lparr>connecting := True, lastError := [],
      ct_mode := ''proxy''\<rparr>), pending := pending m1, sups := (sups m1)(1 \<mapsto> Running ?t)\<rparr>"
  have "reach ctl_init ctl_step m2"
    unfolding m2_def by (rule demo_begin [OF 1]) (use m in \<open>simp_all add: m1_def Disconnect_def disconnect_clear_def call_cancel_def\<close>)
  moreover define m3 where "m3 = m2\<lparr>ctl := (ctl m2)\<lparr>connected := False, ct_tunnel := None\<rparr>, sups := (sups m2)(0 \<mapsto> Ended)\<rparr>"
  have "ctl_step m2 m3"
    unfolding m3_def by (rule ctl_step.lost [of _ 0 "demo_tunnel []"])
      (use m in \<open>simp_all add: m2_def m1_def Disconnect_def disconnect_clear_def call_cancel_def connect_done_def sup_lost_def\<close>)
  ultimately have "reach ctl_init ctl_step m3" by (rule reach_step)
  moreover have "sups m3 1 = Some (Running ?t)" "1 \<notin> cancelled (ctl m3)" "\<not> connected (ctl m3)"
    "ct_tunnel (ctl m3) = None" "is_Ok (fst (connect_begin [] (ctl m3)))"
    using m
    by (simp_all add: m3_def m2_def m1_def Disconnect_def disconnect_clear_def call_cancel_def connect_done_def connect_begin_def demo_config_Profile)
  ultimately show ?thesis
    by (intro exI [of _ m3] exI [of _ ?t]) (simp add: State_def Let_def case_prod_beta)
qed

text \<open>Selecting the empty name deselects. With an active server, \<open>SetActive\<close> of the empty
  name succeeds, because the empty name resolves to the active one, and leaves no server
  selected, so that the next \<open>Connect\<close> is refused.\<close>

lemma SetActive_empty_deselects:
  assumes "config_wf (ct_cfg c)" "Active (ct_cfg c) \<noteq> []" "d_mkdir d = Ok ()" "d_write d = Written"
    and "SetActive [] c d = (r, c', d')"
  shows "r = Ok () \<and> \<not> is_Ok (Profile (ct_cfg c') [])"
  using assms Profile_active [OF assms(1,2)]
  by (auto simp: SetActive_def Save_def Profile_def Let_def is_Ok_conv split: result.splits)

lemma SetActive_empty_deselects_witness:
  "\<exists>r c' d'. SetActive [] (demo_ctl None False) \<lparr>d_file = NotExist, d_mkdir = Ok (), d_write = Written\<rparr> = (r, c', d') \<and>
    r = Ok () \<and> \<not> is_Ok (Profile (ct_cfg c') [])"
proof -
  obtain r c' d' where run: "SetActive [] (demo_ctl None False)
      \<lparr>d_file = NotExist, d_mkdir = Ok (), d_write = Written\<rparr> = (r, c', d')" by (metis prod_cases3)
  from SetActive_empty_deselects [OF _ _ _ _ run] run show ?thesis
    using demo_config_wf by (auto simp: demo_ctl_def demo_config_def)
qed

end
