(* ===== verification/ClientCli.thy ===== *)
theory ClientCli
  imports Controller
begin

text \<open>
  Dialling (\<open>Connect\<close> of \<open>internal/client/tunnel.go\<close>) and the command line client,
  \<open>cmd/arnosvpn-client\<close>: its commands on the saved list of servers and \<open>connect\<close>. Flags are
  read as the package flag does. Messages are those of the sources with dashes and dots in
  ASCII; the table of \<open>list\<close> is given before its columns are aligned, and the report of a
  wrong flag is left out.
\<close>

section \<open>Dialling\<close>

record dial_request =
  dr_url :: string
  dr_ServerName :: string
  dr_header :: "(string \<times> string) list"

definition dial_request_for :: "profile \<Rightarrow> string \<Rightarrow> string \<Rightarrow> dial_request" where
  "dial_request_for p userAgent path =
     \<lparr>dr_url = ''wss://'' @ Host p @ '':'' @ FormatInt (Port p) @ path,
      dr_ServerName = (if SNI p = [] then Host p else SNI p),
      dr_header = [(''Origin'', ''https://'' @ Host p), (''User-Agent'', userAgent), (''Accept-Language'', ''en-US,en;q=0.9'')]\<rparr>"

text \<open>
  The websocket dialer answers with an error, and the status of an HTTP answer if there was
  one, or with a connection: what it gives back for the hello that is sent.
\<close>

type_synonym ws_dialer = "dial_request \<Rightarrow> (string \<times> int option) + (json \<Rightarrow> json result result)"

definition Connect :: "crypto \<Rightarrow> rand_source \<Rightarrow> rand_int \<Rightarrow> ws_dialer \<Rightarrow> int \<Rightarrow> profile \<Rightarrow> tunnel result" where
  "Connect cr rand ri dial ts p =
     bind_result (randomPath rand ri) (\<lambda>path.
       case dial (dial_request_for p (randomUserAgent ri) path) of
         Inl (e, Some code) \<Rightarrow> Err (''connect: '' @ e @ '' (HTTP '' @ FormatInt code @ '')'')
       | Inl (e, None) \<Rightarrow> Err (''connect: '' @ e)
       | Inr exchange \<Rightarrow> client_handshake cr rand ts (p_PSK p) exchange)"

section \<open>Flags\<close>

text \<open>Exit code on an error, else the values; \<open>vals\<close> starts with the defaults.\<close>

fun flag_name :: "string \<Rightarrow> string \<times> string option" where
  "flag_name [] = ([], None)"
| "flag_name (c # cs) = (case Cut (CHR ''='') cs of (a, b, found) \<Rightarrow> (c # a, if found then Some b else None))"

fun parse_flags :: "string list \<Rightarrow> string list \<Rightarrow> (string \<Rightarrow> string) \<Rightarrow> nat + (string \<Rightarrow> string)" where
  "parse_flags known [] vals = Inr vals"
| "parse_flags known (s # rest) vals =
     (if length s < 2 \<or> hd s \<noteq> CHR ''-'' then Inr vals
      else if s = ''--'' then Inr vals
      else let text = (if s ! 1 = CHR ''-'' then drop 2 s else drop 1 s)
           in if hd text = CHR ''-'' \<or> hd text = CHR ''='' then Inl 2
              else case flag_name text of
                (name, value) \<Rightarrow>
                  if name \<notin> set known then Inl (if name = ''help'' \<or> name = ''h'' then 0 else 2)
                  else case value of
                         Some v \<Rightarrow> parse_flags known rest (vals(name := v))
                       | None \<Rightarrow> (case rest of [] \<Rightarrow> Inl 2 | v # rest' \<Rightarrow> parse_flags known rest' (vals(name := v))))"

definition connect_defaults :: "string \<Rightarrow> string" where
  "connect_defaults = (\<lambda>_. [])(''mode'' := ''proxy'', ''socks'' := ''127.0.0.1:1080'', ''http'' := ''127.0.0.1:8080'',
     ''iface'' := ''arnos0'')"

section \<open>Commands\<close>

record cli_result =
  cr_code :: nat
  cr_out :: "string list"
  cr_disk :: disk

definition cli_fatal :: "string \<Rightarrow> disk \<Rightarrow> cli_result" where
  "cli_fatal e d = \<lparr>cr_code = 1, cr_out = [''error: '' @ e], cr_disk = d\<rparr>"

definition cli_ok :: "string list \<Rightarrow> disk \<Rightarrow> cli_result" where
  "cli_ok out d = \<lparr>cr_code = 0, cr_out = out, cr_disk = d\<rparr>"

definition cli_try :: "'a result \<Rightarrow> disk \<Rightarrow> ('a \<Rightarrow> cli_result) \<Rightarrow> cli_result" where
  "cli_try r d f =
     (case r of Ok v \<Rightarrow> f v | Err e \<Rightarrow> cli_fatal e d | Panic e \<Rightarrow> \<lparr>cr_code = 2, cr_out = [e], cr_disk = d\<rparr>)"

text \<open>What was printed before the rest of a command ran.\<close>

definition cli_print :: "string list \<Rightarrow> cli_result \<Rightarrow> cli_result" where
  "cli_print out r = r\<lparr>cr_out := out @ cr_out r\<rparr>"

definition load :: "disk \<Rightarrow> (client_config \<Rightarrow> cli_result) \<Rightarrow> cli_result" where
  "load d f = cli_try (LoadConfig (d_file d)) d f"

definition cli_save :: "client_config \<Rightarrow> disk \<Rightarrow> string \<Rightarrow> cli_result" where
  "cli_save c d msg = (case Save c d of (r, d1) \<Rightarrow> cli_try r d1 (\<lambda>_. cli_ok [msg] d1))"

definition list_row :: "client_config \<Rightarrow> saved_server \<Rightarrow> string" where
  "list_row c s =
     (if srv_Name s = Active c then ''*'' else '' '') @ [CHR 0x09] @ srv_Name s @ [CHR 0x09] @
     (case Profile c (srv_Name s) of Ok p \<Rightarrow> Host p @ '':'' @ FormatInt (Port p) | _ \<Rightarrow> srv_Name s)"

definition cmdList :: "disk \<Rightarrow> cli_result" where
  "cmdList d =
     load d (\<lambda>c.
       if Servers c = [] then cli_ok [''no servers yet - add one with: arnosvpn-client add <arnos://...>''] d
       else cli_ok ((''ACTIVE'' @ [CHR 0x09] @ ''NAME'' @ [CHR 0x09] @ ''ENDPOINT'') # map (list_row c) (Servers c)) d)"

definition cmdAdd :: "string list \<Rightarrow> disk \<Rightarrow> cli_result" where
  "cmdAdd args d =
     (case args of
        [] \<Rightarrow> cli_fatal ''usage: add <arnos://connect?...> [name]'' d
      | uri # names \<Rightarrow>
          load d (\<lambda>c.
            case Add (case names of name # _ \<Rightarrow> name | [] \<Rightarrow> []) uri c of
              (r, c1) \<Rightarrow> cli_try r d (\<lambda>_. cli_save c1 d (''saved. active server: '' @ Active c1))))"

definition cmdRemove :: "string list \<Rightarrow> disk \<Rightarrow> cli_result" where
  "cmdRemove args d =
     (case args of
        [] \<Rightarrow> cli_fatal ''usage: rm <name>'' d
      | name # _ \<Rightarrow> load d (\<lambda>c. cli_save (Remove name c) d (''removed '' @ name)))"

definition cmdUse :: "string list \<Rightarrow> disk \<Rightarrow> cli_result" where
  "cmdUse args d =
     (case args of
        [] \<Rightarrow> cli_fatal ''usage: use <name>'' d
      | name # _ \<Rightarrow>
          load d (\<lambda>c.
            cli_try (Profile c name) d (\<lambda>_. cli_save (c\<lparr>Active := name\<rparr>) d (''active server: '' @ name))))"

text \<open>
  What \<open>connect\<close> and \<open>gui\<close> start is outside: dialling, name lookup, the two runners, the panel;
  so is the path of the file, which \<open>main\<close> takes from \<open>DefaultConfigPath\<close>.
\<close>

record cli_env =
  cl_connect :: "profile \<Rightarrow> tunnel result"
  cl_lookup :: "string \<Rightarrow> string list result"
  cl_proxy :: "tunnel \<Rightarrow> string \<Rightarrow> string \<Rightarrow> unit result"
  cl_tun :: "tunnel \<Rightarrow> string \<Rightarrow> string \<Rightarrow> unit result"
  cl_path :: string
  cl_gui :: "string \<Rightarrow> disk \<Rightarrow> unit result \<times> disk"

definition resolve :: "(string \<Rightarrow> string list result) \<Rightarrow> string \<Rightarrow> string result" where
  "resolve lookup host =
     (if ParseIP host \<noteq> None then Ok host
      else case lookup host of
             Ok (ip # _) \<Rightarrow> Ok ip
           | Ok [] \<Rightarrow> Err (''resolve '' @ host @ '': <nil>'')
           | Err e \<Rightarrow> Err (''resolve '' @ host @ '': '' @ e)
           | Panic e \<Rightarrow> Panic e)"

text \<open>The end of \<open>cmdConnect\<close>: the run in the chosen mode.\<close>

definition connect_run :: "cli_env \<Rightarrow> (string \<Rightarrow> string) \<Rightarrow> profile \<Rightarrow> tunnel \<Rightarrow> disk \<Rightarrow> cli_result" where
  "connect_run E flags p t d =
     (if flags ''mode'' = ''proxy'' then
        cli_print [''set your system/browser proxy to SOCKS5 '' @ flags ''socks'' @ '' or HTTP '' @ flags ''http'']
          (cli_try (cl_proxy E t (flags ''socks'') (flags ''http'')) d (\<lambda>_. cli_ok [''disconnected.''] d))
      else if flags ''mode'' = ''tun'' then
        cli_try (bind_result (resolve (cl_lookup E) (Host p)) (\<lambda>ip. cl_tun E t ip (flags ''iface''))) d
          (\<lambda>_. cli_ok [''disconnected.''] d)
      else cli_fatal (''unknown mode '' @ flags ''mode'' @ '' (use proxy or tun)'') d)"

definition cmdConnect :: "cli_env \<Rightarrow> string list \<Rightarrow> disk \<Rightarrow> cli_result" where
  "cmdConnect E args d =
     (let named = (args \<noteq> [] \<and> hd args \<noteq> [] \<and> hd (hd args) \<noteq> CHR ''-'');
          name = (if named then hd args else []);
          rest = (if named then tl args else args)
      in case parse_flags [''mode'', ''socks'', ''http'', ''iface''] rest connect_defaults of
           Inl code \<Rightarrow> \<lparr>cr_code = code, cr_out = [], cr_disk = d\<rparr>
         | Inr flags \<Rightarrow>
             load d (\<lambda>c.
               cli_try (Profile c name) d (\<lambda>p.
                 cli_print [''connecting to '' @ Host p @ '':'' @ FormatInt (Port p) @ '' ('' @ flags ''mode'' @ '' mode)...'']
                   (cli_try (cl_connect E p) d (\<lambda>t.
                      cli_print [''connected - assigned '' @ LocalIP t @ ''/'' @ FormatInt (t_Mask t)]
                        (connect_run E flags p t d))))))"

definition cmdGUI :: "cli_env \<Rightarrow> string list \<Rightarrow> disk \<Rightarrow> cli_result" where
  "cmdGUI E args d =
     (case parse_flags [''addr''] args ((\<lambda>_. [])(''addr'' := ''127.0.0.1:7654'')) of
        Inl code \<Rightarrow> \<lparr>cr_code = code, cr_out = [], cr_disk = d\<rparr>
      | Inr flags \<Rightarrow>
          (case cl_gui E (flags ''addr'') d of
             (r, d1) \<Rightarrow>
               cli_print [''opening ArnosVPN control panel in your browser...''] (cli_try r d1 (\<lambda>_. cli_ok [] d1))))"

text \<open>The usage text, with its dashes in ASCII, and the program on its arguments.\<close>

definition client_usage :: "string \<Rightarrow> string list" where
  "client_usage path =
     [''arnosvpn-client - ArnosVPN desktop client (Windows/Linux)'',
      '''',
      ''Usage:'',
      ''  arnosvpn-client add <arnos://connect?...> [name]   save a server'',
      ''  arnosvpn-client list                               list saved servers'',
      ''  arnosvpn-client use <name>                         set the active server'',
      ''  arnosvpn-client rm <name>                          remove a server'',
      ''  arnosvpn-client connect [name] [flags]             connect'',
      ''  arnosvpn-client gui [--addr 127.0.0.1:7654]        open the graphical panel'',
      '''',
      ''Connect flags:'',
      ''  --mode  proxy|tun   proxy = local SOCKS5+HTTP (default); tun = system-wide'',
      ''  --socks addr        SOCKS5 listen address (default 127.0.0.1:1080)'',
      ''  --http  addr        HTTP proxy listen address (default 127.0.0.1:8080)'',
      ''  --iface name        TUN adapter name (tun mode; default '' @ [CHR 0x22] @ ''arnos0'' @ [CHR 0x22] @ '')'',
      '''',
      ''Servers are stored at:'',
      ''  '' @ path]"

definition client_main :: "cli_env \<Rightarrow> string list \<Rightarrow> disk \<Rightarrow> cli_result" where
  "client_main E args d =
     (case args of
        [] \<Rightarrow> cmdGUI E [] d
      | cmd # rest \<Rightarrow>
          if cmd = ''list'' \<or> cmd = ''ls'' then cmdList d
          else if cmd = ''add'' then cmdAdd rest d
          else if cmd = ''rm'' \<or> cmd = ''remove'' then cmdRemove rest d
          else if cmd = ''use'' then cmdUse rest d
          else if cmd = ''connect'' \<or> cmd = ''up'' then cmdConnect E rest d
          else if cmd = ''gui'' then cmdGUI E rest d
          else if cmd = ''-h'' \<or> cmd = ''--help'' \<or> cmd = ''help'' then cli_ok (client_usage (cl_path E)) d
          else \<lparr>cr_code = 2, cr_out = [''unknown command '' @ cmd, ''''] @ client_usage (cl_path E), cr_disk = d\<rparr>)"

section \<open>Lemmas\<close>

text \<open>
  The file on the disk loads, to a consistent list of UTF-8 strings, and writing it does not
  break off half-way.
\<close>

definition disk_wf :: "disk \<Rightarrow> bool" where
  "disk_wf d \<longleftrightarrow> (\<exists>c. LoadConfig (d_file d) = Ok c \<and> config_wf c \<and> config_utf8 c) \<and> (\<forall>e doc. d_write d \<noteq> Torn e doc)"

text \<open>Arguments in UTF-8, a URI among them with a UTF-8 host and name once it is decoded.\<close>

definition arg_text :: "string \<Rightarrow> bool" where
  "arg_text a \<longleftrightarrow> utf8 a \<and> (\<forall>p. ParseURI a = Ok p \<longrightarrow> utf8 (Host p) \<and> utf8 (p_Name p))"

lemma LoadConfig_settings: "LoadConfig f = Ok c \<Longrightarrow> Settings c \<noteq> None"
  by (auto simp: LoadConfig_def split: file_read.splits option.splits if_splits)

text \<open>A list that may be saved: it is loaded as it was.\<close>

definition list_ok :: "client_config \<Rightarrow> bool" where
  "list_ok c \<longleftrightarrow> config_wf c \<and> config_utf8 c \<and> Settings c \<noteq> None"

lemma Save_wf:
  assumes "disk_wf d" "list_ok c"
  shows "disk_wf (snd (Save c d))"
proof -
  obtain r d' where save: "Save c d = (r, d')" by fastforce
  have "LoadConfig (Contents (Some (marshal_config c))) = Ok c"
    using assms(2) by (simp add: Load_saved config_text_id list_ok_def)
  then show ?thesis using Save_cases [OF save] assms by (auto simp: save disk_wf_def list_ok_def)
qed

lemma Add_settings: "Settings (snd (Add name uri c)) = Settings c"
  by (auto simp: Add_def Let_def split: result.splits option.splits)

lemma Remove_settings: "Settings (Remove name c) = Settings c"
  by (simp add: Remove_def Let_def)

lemma use_wf:
  assumes "config_wf c" "Profile c name = Ok p"
  shows "config_wf (c\<lparr>Active := name\<rparr>)"
proof (cases "name = []")
  case False
  with assms(2) obtain s where "List.find (\<lambda>s. EqualFold (srv_Name s) name) (Servers c) = Some s"
    by (auto simp: Profile_def Let_def split: option.splits)
  then have "s \<in> set (Servers c)" "ToLower (srv_Name s) = ToLower name" by (auto simp: find_Some_iff EqualFold_def)
  then have "ToLower name \<in> ToLower ` srv_Name ` set (Servers c)" by (metis image_eqI)
  with assms(1) show ?thesis by (auto simp: config_wf_def)
qed (use assms(1) in \<open>auto simp: config_wf_def\<close>)

lemma Add_ok: "list_ok c \<Longrightarrow> utf8 name \<Longrightarrow> arg_text uri \<Longrightarrow> list_ok (snd (Add name uri c))"
  by (simp add: list_ok_def arg_text_def Add_wf Add_utf8 Add_settings)

lemma Remove_ok: "list_ok c \<Longrightarrow> list_ok (Remove name c)"
  by (simp add: list_ok_def Remove_wf Remove_utf8 Remove_settings)

lemma use_ok: "list_ok c \<Longrightarrow> utf8 name \<Longrightarrow> Profile c name = Ok p \<Longrightarrow> list_ok (c\<lparr>Active := name\<rparr>)"
  using use_wf by (auto simp: list_ok_def config_utf8_def)

lemma cli_try_wf:
  assumes "disk_wf d" "\<And>v. r = Ok v \<Longrightarrow> disk_wf (cr_disk (f v))"
  shows "disk_wf (cr_disk (cli_try r d f))"
  using assms by (cases r) (auto simp: cli_try_def cli_fatal_def)

lemma cli_save_wf:
  assumes "disk_wf d" "list_ok c"
  shows "disk_wf (cr_disk (cli_save c d msg))"
  using Save_wf [OF assms] by (auto simp: cli_save_def cli_ok_def intro!: cli_try_wf split: prod.splits)

lemma load_wf:
  assumes "disk_wf d" "\<And>c. list_ok c \<Longrightarrow> disk_wf (cr_disk (f c))"
  shows "disk_wf (cr_disk (load d f))"
proof -
  obtain c where "LoadConfig (d_file d) = Ok c" "config_wf c" "config_utf8 c" using assms(1) by (auto simp: disk_wf_def)
  then show ?thesis using assms(2) LoadConfig_settings by (simp add: load_def cli_try_def list_ok_def)
qed

lemmas cli_wf = load_wf cli_try_wf cli_save_wf

lemma cmdAdd_wf: "disk_wf d \<Longrightarrow> \<forall>a \<in> set args. arg_text a \<Longrightarrow> disk_wf (cr_disk (cmdAdd args d))"
proof (cases args)
  case (Cons uri names)
  assume d: "disk_wf d" and args: "\<forall>a \<in> set args. arg_text a"
  show ?thesis
    unfolding cmdAdd_def Cons list.case
  proof (rule load_wf [OF d])
    fix c assume c: "list_ok c"
    let ?name = "case names of name # _ \<Rightarrow> name | [] \<Rightarrow> []"
    obtain r c1 where add: "Add ?name uri c = (r, c1)" by fastforce
    have "utf8 ?name" using args Cons by (cases names) (auto simp: arg_text_def utf8_def)
    then have "list_ok c1" using Add_ok [OF c, of ?name uri] args Cons add by simp
    then show "disk_wf (cr_disk (case Add ?name uri c of
        (r, c1) \<Rightarrow> cli_try r d (\<lambda>_. cli_save c1 d (''saved. active server: '' @ Active c1))))"
      using add d by (simp add: cli_try_wf cli_save_wf)
  qed
qed (simp add: cmdAdd_def cli_fatal_def)

lemma cmdUse_wf: "disk_wf d \<Longrightarrow> \<forall>a \<in> set args. arg_text a \<Longrightarrow> disk_wf (cr_disk (cmdUse args d))"
  by (auto simp: cmdUse_def cli_fatal_def arg_text_def intro!: cli_wf use_ok split: list.splits)

lemma cmdRemove_wf: "disk_wf d \<Longrightarrow> disk_wf (cr_disk (cmdRemove args d))"
  by (auto simp: cmdRemove_def cli_fatal_def intro!: cli_wf Remove_ok split: list.splits)

lemma cmdConnect_disk: "cr_disk (cmdConnect E args d) = d"
proof -
  have t: "cr_disk (cli_try r d f) = d" if "\<And>v. cr_disk (f v) = d" for f :: "'a \<Rightarrow> cli_result" and r
    using that by (cases r) (simp_all add: cli_try_def cli_fatal_def)
  show ?thesis
    by (auto simp: cmdConnect_def connect_run_def Let_def load_def cli_ok_def cli_print_def cli_fatal_def t split: sum.splits)
qed

lemma cmdList_disk: "cr_disk (cmdList d) = d"
  by (auto simp: cmdList_def load_def cli_try_def cli_ok_def cli_fatal_def split: result.splits)

text \<open>A run in TUN mode that can only end with an error, as \<open>RunTUN\<close> does, makes \<open>connect\<close> fail even
  when it was the user who ended it.\<close>

lemma connect_tun_exit:
  assumes "flags ''mode'' = ''tun''" "\<And>ip. \<not> is_Ok (cl_tun E t ip (flags ''iface''))"
  shows "cr_code (connect_run E flags p t d) \<noteq> 0"
proof -
  have "\<not> is_Ok (bind_result r (\<lambda>ip. cl_tun E t ip (flags ''iface'')))" for r using assms(2) by (cases r) simp_all
  then have "bind_result r (\<lambda>ip. cl_tun E t ip (flags ''iface'')) \<noteq> Ok u" for r u by (metis is_Ok.simps(1))
  then show ?thesis
    using assms(1) by (auto simp: connect_run_def cli_try_def cli_fatal_def split: result.splits)
qed

section \<open>Properties\<close>


definition demo_cli :: cli_env where
  "demo_cli = \<lparr>cl_connect = (\<lambda>_. Err ''offline''), cl_lookup = (\<lambda>_. Ok []), cl_proxy = (\<lambda>_ _ _. Ok ()),
     cl_tun = (\<lambda>_ _ _. Ok ()), cl_path = ''servers.json'', cl_gui = (\<lambda>_ d. (Ok (), d))\<rparr>"


end
