(* ===== verification/Update.thy ===== *)
theory Update
  imports GoJson
begin

text \<open>
  Self-update, \<open>internal/client/update.go\<close>: version comparison, the query of the latest
  release and the replacement of the running binary. The HTTP answers and the outcomes of
  the file operations are arguments; the files touched are the state.
\<close>

section \<open>Versions\<close>

definition ClientVersion :: string where "ClientVersion = ''1.3.0''"

fun cut_suffix :: "string \<Rightarrow> string" where
  "cut_suffix [] = []"
| "cut_suffix (c # s) = (if c = CHR ''-'' \<or> c = CHR ''+'' then [] else c # cut_suffix s)"

definition parseVersion :: "string \<Rightarrow> int list option" where
  "parseVersion v0 =
     (let v = TrimPrefix (TrimSpace v0) ''v''
      in if v = [] then None
         else those (map (\<lambda>p. Atoi (cut_suffix p)) (Split (CHR ''.'') v)))"

fun newer :: "int list \<Rightarrow> int list \<Rightarrow> bool" where
  "newer [] [] = False"
| "newer (x # xs) [] = (if x \<noteq> 0 then x > 0 else newer xs [])"
| "newer [] (y # ys) = (if 0 \<noteq> y then 0 > y else newer [] ys)"
| "newer (x # xs) (y # ys) = (if x \<noteq> y then x > y else newer xs ys)"

definition isNewer :: "string \<Rightarrow> string \<Rightarrow> bool" where
  "isNewer a b =
     (case (parseVersion a, parseVersion b) of
        (Some pa, Some pb) \<Rightarrow> newer pa pb
      | _ \<Rightarrow> a \<noteq> [] \<and> a \<noteq> b)"

section \<open>The latest release\<close>

record gh_asset =
  a_Name :: string
  a_URL :: string

record gh_release =
  TagName :: string
  r_Name :: string
  Body :: string
  Assets :: "gh_asset list"

definition assign_asset :: "gh_asset \<Rightarrow> string \<Rightarrow> json \<Rightarrow> gh_asset option" where
  "assign_asset r f v =
     (if f = ''name'' then map_option (\<lambda>x. r\<lparr>a_Name := x\<rparr>) (get_string (a_Name r) v)
      else map_option (\<lambda>x. r\<lparr>a_URL := x\<rparr>) (get_string (a_URL r) v))"

fun get_assets :: "gh_asset list \<Rightarrow> json \<Rightarrow> gh_asset list option" where
  "get_assets old JNull = Some []"
| "get_assets old (JArr js) =
     those (map (Unmarshal assign_asset [''name'', ''browser_download_url''] \<lparr>a_Name = [], a_URL = []\<rparr>) js)"
| "get_assets old _ = None"

definition assign_release :: "gh_release \<Rightarrow> string \<Rightarrow> json \<Rightarrow> gh_release option" where
  "assign_release r f v =
     (if f = ''tag_name'' then map_option (\<lambda>x. r\<lparr>TagName := x\<rparr>) (get_string (TagName r) v)
      else if f = ''name'' then map_option (\<lambda>x. r\<lparr>r_Name := x\<rparr>) (get_string (r_Name r) v)
      else if f = ''body'' then map_option (\<lambda>x. r\<lparr>Body := x\<rparr>) (get_string (Body r) v)
      else map_option (\<lambda>x. r\<lparr>Assets := x\<rparr>) (get_assets (Assets r) v))"

definition unmarshal_release :: "json \<Rightarrow> gh_release option" where
  "unmarshal_release =
     Unmarshal assign_release [''tag_name'', ''name'', ''body'', ''assets'']
       \<lparr>TagName = [], r_Name = [], Body = [], Assets = []\<rparr>"

text \<open>An HTTP answer: status code, status line and the JSON document of the body.\<close>

record 'b http_resp =
  resp_code :: int
  resp_status :: string
  resp_body :: 'b

text \<open>Where releases are looked for; \<open>get\<close> is the HTTP client.\<close>

definition updateOwner :: string where "updateOwner = ''furyashnyy''"
definition updateRepo :: string where "updateRepo = ''ArnosVPN''"

definition latestRelease :: "(string \<Rightarrow> json option http_resp result) \<Rightarrow> gh_release result" where
  "latestRelease get =
     bind_result (get (''https://api.github.com/repos/'' @ updateOwner @ ''/'' @ updateRepo @ ''/releases/latest'')) (\<lambda>r.
       if resp_code r = 404 then Err ''no releases published yet''
       else if resp_code r \<noteq> 200 then Err (''update check failed: '' @ resp_status r)
       else case Option.bind (resp_body r) unmarshal_release of
              Some rel \<Rightarrow> Ok rel
            | None \<Rightarrow> Err ''json'')"

datatype goos = Windows | Linux | OtherOS string

fun GOOS :: "goos \<Rightarrow> string" where
  "GOOS Windows = ''windows''"
| "GOOS Linux = ''linux''"
| "GOOS (OtherOS s) = s"

fun desktopAssetName :: "goos \<Rightarrow> string" where
  "desktopAssetName Windows = ''arnosvpn-client-windows-amd64.exe''"
| "desktopAssetName Linux = ''arnosvpn-client-linux-amd64''"
| "desktopAssetName (OtherOS _) = []"

record update_info =
  ui_Current :: string
  ui_Latest :: string
  HasUpdate :: bool
  Notes :: string
  ui_Asset :: string
  AssetName :: string

definition CheckUpdate :: "goos \<Rightarrow> (string \<Rightarrow> json option http_resp result) \<Rightarrow> update_info result" where
  "CheckUpdate os get =
     bind_result (latestRelease get) (\<lambda>rel.
       let latest = TrimPrefix (TagName rel) ''v'';
           info = \<lparr>ui_Current = ClientVersion, ui_Latest = latest, HasUpdate = isNewer latest ClientVersion,
                   Notes = Body rel, ui_Asset = [], AssetName = []\<rparr>
       in case List.find (\<lambda>a. a_Name a = desktopAssetName os) (Assets rel) of
            Some a \<Rightarrow> Ok (info\<lparr>ui_Asset := a_URL a, AssetName := a_Name a\<rparr>)
          | None \<Rightarrow> Ok info)"

section \<open>Replacing the binary\<close>

text \<open>
  The files by path. What happens outside: the path of the executable and whether its links
  resolve, the temporary file, the body of the download, and for each of the operations
  whether it succeeds.
\<close>

type_synonym files = "string \<rightharpoonup> string"

record update_env =
  e_os :: goos
  e_arch :: string
  e_exe :: "string result"
  e_resolved :: "string option"
  e_temp :: "string result"
  e_download :: "string \<Rightarrow> (string \<times> unit result) http_resp result"
  e_close :: "unit result"
  e_chmod :: "unit result"
  e_rename_aside :: "unit result"
  e_rename :: "unit result"
  e_rollback :: bool

definition downloadCap :: nat where "downloadCap = 200 * 2 ^ 20"

text \<open>The body of a download is what could be read of it and how the reading ended.\<close>

definition download :: "(string \<Rightarrow> (string \<times> unit result) http_resp result) \<Rightarrow> string \<Rightarrow> string result" where
  "download get url =
     bind_result (get url) (\<lambda>r.
       if resp_code r \<noteq> 200 then Err (''download failed: '' @ resp_status r)
       else case resp_body r of
              (body, ended) \<Rightarrow>
                if downloadCap \<le> length body then Ok (take downloadCap body)
                else bind_result ended (\<lambda>_. Ok body))"

definition os_Remove :: "string \<Rightarrow> files \<Rightarrow> files" where
  "os_Remove p fs = fs(p := None)"

definition os_Rename :: "string \<Rightarrow> string \<Rightarrow> files \<Rightarrow> files" where
  "os_Rename p q fs = (fs(q := fs p))(p := None)"

definition replace_binary :: "update_env \<Rightarrow> string \<Rightarrow> string \<Rightarrow> files \<Rightarrow> unit result \<times> files" where
  "replace_binary e exe tmp fs =
     (if e_os e = Windows then
        let fs1 = os_Remove (exe @ ''.old'') fs
        in case e_rename_aside e of
             Ok _ \<Rightarrow>
               let fs2 = os_Rename exe (exe @ ''.old'') fs1
               in (case e_rename e of
                     Ok _ \<Rightarrow> (Ok (), os_Rename tmp exe fs2)
                   | _ \<Rightarrow> (Err ''replace failed'', if e_rollback e then os_Rename (exe @ ''.old'') exe fs2 else fs2))
           | _ \<Rightarrow> (Err ''replace failed'', fs1)
      else
        case e_rename e of
          Ok _ \<Rightarrow> (Ok (), os_Rename tmp exe fs)
        | _ \<Rightarrow> (Err ''replace failed'', fs))"

text \<open>The temporary file is removed at the end whatever happened.\<close>

definition ApplyUpdate :: "update_env \<Rightarrow> (string \<Rightarrow> json option http_resp result) \<Rightarrow> files \<Rightarrow> unit result \<times> files" where
  "ApplyUpdate e get fs =
     (case CheckUpdate (e_os e) get of
        Err m \<Rightarrow> (Err m, fs)
      | Panic m \<Rightarrow> (Panic m, fs)
      | Ok info \<Rightarrow>
          if \<not> HasUpdate info then (Err (''already up to date ('' @ ui_Current info @ '')''), fs)
          else if ui_Asset info = [] then (Err (''no download available for '' @ GOOS (e_os e) @ ''/'' @ e_arch e), fs)
          else case e_exe e of
            Err m \<Rightarrow> (Err m, fs)
          | Panic m \<Rightarrow> (Panic m, fs)
          | Ok exe0 \<Rightarrow>
              let exe = (case e_resolved e of Some r \<Rightarrow> r | None \<Rightarrow> exe0)
              in case e_temp e of
                   Err m \<Rightarrow> (Err (''cannot write: '' @ m), fs)
                 | Panic m \<Rightarrow> (Panic m, fs)
                 | Ok tmp \<Rightarrow>
                     (case download (e_download e) (ui_Asset info) of
                        Ok new \<Rightarrow>
                          (case e_close e of
                             Ok _ \<Rightarrow>
                               (case e_chmod e of
                                  Ok _ \<Rightarrow>
                                    (let (r, fs') = replace_binary e exe tmp (fs(tmp \<mapsto> new))
                                     in (r, os_Remove tmp fs'))
                                | m \<Rightarrow> (m, os_Remove tmp fs))
                           | m \<Rightarrow> (m, os_Remove tmp fs))
                      | Err m \<Rightarrow> (Err m, os_Remove tmp fs)
                      | Panic m \<Rightarrow> (Panic m, os_Remove tmp fs)))"

definition CleanupOldBinary :: "goos \<Rightarrow> string result \<Rightarrow> files \<Rightarrow> files" where
  "CleanupOldBinary os exe fs =
     (if os \<noteq> Windows then fs
      else case exe of Ok p \<Rightarrow> os_Remove (p @ ''.old'') fs | _ \<Rightarrow> fs)"

section \<open>Lemmas: versions\<close>

text \<open>The comparison is the lexicographic order on sequences continued by zeros.\<close>

definition component :: "int list \<Rightarrow> nat \<Rightarrow> int" where
  "component v i = (if i < length v then v ! i else 0)"

lemma component_simps [simp]:
  "component [] i = 0" "component (x # xs) 0 = x" "component (x # xs) (Suc i) = component xs i"
  by (simp_all add: component_def)

lemma ex_least_Suc:
  "(\<exists>i. P i \<and> (\<forall>j < i. Q j)) \<longleftrightarrow> P 0 \<or> Q 0 \<and> (\<exists>i. P (Suc i) \<and> (\<forall>j < i. Q (Suc j)))"
proof
  assume "\<exists>i. P i \<and> (\<forall>j < i. Q j)"
  then obtain i where i: "P i" "\<forall>j < i. Q j" by blast
  then show "P 0 \<or> Q 0 \<and> (\<exists>i. P (Suc i) \<and> (\<forall>j < i. Q (Suc j)))" by (cases i) auto
next
  assume "P 0 \<or> Q 0 \<and> (\<exists>i. P (Suc i) \<and> (\<forall>j < i. Q (Suc j)))"
  then show "\<exists>i. P i \<and> (\<forall>j < i. Q j)"
  proof
    assume "Q 0 \<and> (\<exists>i. P (Suc i) \<and> (\<forall>j < i. Q (Suc j)))"
    then obtain i where "P (Suc i)" "\<forall>j < i. Q (Suc j)" "Q 0" by blast
    then have "\<forall>j < Suc i. Q j" by (metis less_Suc_eq_0_disj)
    with \<open>P (Suc i)\<close> show ?thesis by blast
  qed blast
qed

lemma newer_iff:
  "newer v w \<longleftrightarrow> (\<exists>i. component v i > component w i \<and> (\<forall>j < i. component v j = component w j))"
proof (induction v w rule: newer.induct)
  case 1
  then show ?case by simp
next
  case (2 x xs)
  then show ?case by (subst ex_least_Suc) auto
next
  case (3 y ys)
  then show ?case by (subst ex_least_Suc) auto
next
  case (4 x xs y ys)
  then show ?case by (subst ex_least_Suc) auto
qed

lemma newer_trans: "newer u v \<Longrightarrow> newer v w \<Longrightarrow> newer u w"
proof -
  assume "newer u v" "newer v w"
  then obtain i k where i: "component u i > component v i" "\<forall>j < i. component u j = component v j"
    and k: "component v k > component w k" "\<forall>j < k. component v j = component w j"
    unfolding newer_iff by blast
  have "component u (min i k) > component w (min i k) \<and> (\<forall>j < min i k. component u j = component w j)"
    using i k by (cases i k rule: linorder_cases) (auto simp: min_def)
  then show "newer u w" unfolding newer_iff by blast
qed

lemma newer_total: "\<not> newer v w \<Longrightarrow> \<not> newer w v \<Longrightarrow> component v i = component w i"
proof (induction i rule: less_induct)
  case (less i)
  then have "\<forall>j < i. component v j = component w j" by blast
  with less.prems show ?case unfolding newer_iff by (metis linorder_neqE)
qed

section \<open>Lemmas: files\<close>

lemma replace_binary_cases:
  assumes "replace_binary e exe tmp fs = (r, fs')" "tmp \<noteq> exe" "tmp \<noteq> exe @ ''.old''" "fs exe = Some old"
  shows "r = Ok () \<and> fs' exe = fs tmp \<or> \<not> is_Ok r \<and> fs' exe = Some old \<or>
    \<not> is_Ok r \<and> e_os e = Windows \<and> \<not> e_rollback e \<and> fs' (exe @ ''.old'') = Some old"
proof -
  have "exe \<noteq> exe @ ''.old''" by simp
  then show ?thesis
    using assms
    by (auto simp: replace_binary_def os_Rename_def os_Remove_def Let_def split: if_splits result.splits)
qed

lemma ApplyUpdate_cases:
  assumes "ApplyUpdate e get fs = (r, fs')" "e_exe e = Ok exe0"
  defines "exe \<equiv> case e_resolved e of Some p \<Rightarrow> p | None \<Rightarrow> exe0"
  shows "\<not> is_Ok r \<and> fs' = fs \<or>
    (\<exists>tmp. e_temp e = Ok tmp \<and>
       (\<not> is_Ok r \<and> fs' = os_Remove tmp fs \<or>
        (\<exists>new info fs1. CheckUpdate (e_os e) get = Ok info \<and> HasUpdate info \<and> ui_Asset info \<noteq> [] \<and>
           download (e_download e) (ui_Asset info) = Ok new \<and>
           replace_binary e exe tmp (fs(tmp \<mapsto> new)) = (r, fs1) \<and> fs' = os_Remove tmp fs1)))"
  using assms unfolding ApplyUpdate_def Let_def
  by (auto simp: is_Ok_conv split: result.splits if_splits prod.splits)

section \<open>Properties\<close>

text \<open>The version comparison is a strict order. On versions that parse, \<open>isNewer\<close> is
  irreflexive and transitive, and two versions neither of which is newer agree in every
  component, missing ones counting as zero; so no cycle of updates can be offered.\<close>

lemma isNewer_strict_order:
  assumes "parseVersion a = Some u" "parseVersion b = Some v" "parseVersion c = Some w"
  shows "\<not> isNewer a a \<and> (isNewer a b \<longrightarrow> isNewer b c \<longrightarrow> isNewer a c) \<and>
    (isNewer a b \<or> isNewer b a \<or> (\<forall>i. component u i = component v i))"
  using assms newer_trans [of u v w] newer_total [of u v] newer_iff [of u u] by (auto simp: isNewer_def)

lemma isNewer_strict_order_witness:
  "isNewer ''v1.10.0'' ''1.9.2'' \<and> isNewer ''1.9.2'' ''1.9'' \<and> isNewer ''v1.10.0'' ''1.9''"
proof -
  have p: "parseVersion ''v1.10.0'' = Some [1, 10, 0]" "parseVersion ''1.9.2'' = Some [1, 9, 2]"
    "parseVersion ''1.9'' = Some [1, 9]" by code_simp+
  have "isNewer ''v1.10.0'' ''1.9.2''" "isNewer ''1.9.2'' ''1.9''" by (simp_all add: isNewer_def p)
  with isNewer_strict_order [OF p] show ?thesis by blast
qed

text \<open>C29: an update never loses the program. However the download and the file operations end,
  a successful update leaves exactly the bytes downloaded from the address of the newer
  release (at most 200 MiB of them) as the executable; a failed one leaves the old executable in place, or, when on Windows both the
  second rename and the roll-back fail, beside it with the suffix \<open>.old\<close>; and the temporary
  file is gone.\<close>

theorem update_keeps_program:
  assumes "ApplyUpdate e get fs = (r, fs')" "e_exe e = Ok exe0"
    and "exe = (case e_resolved e of Some p \<Rightarrow> p | None \<Rightarrow> exe0)" "fs exe = Some old"
    and "\<And>tmp. e_temp e = Ok tmp \<Longrightarrow> tmp \<noteq> exe \<and> tmp \<noteq> exe @ ''.old'' \<and> fs tmp = None"
  shows "(r = Ok () \<longrightarrow> (\<exists>info new. CheckUpdate (e_os e) get = Ok info \<and> HasUpdate info \<and>
      download (e_download e) (ui_Asset info) = Ok new \<and> fs' exe = Some new)) \<and>
    (\<not> is_Ok r \<longrightarrow> fs' exe = Some old \<or>
       e_os e = Windows \<and> \<not> e_rollback e \<and> fs' (exe @ ''.old'') = Some old) \<and>
    (\<forall>tmp. e_temp e = Ok tmp \<longrightarrow> fs' tmp = None)"
proof -
  from ApplyUpdate_cases [OF assms(1,2)] show ?thesis
  proof (elim disjE exE conjE)
    assume "\<not> is_Ok r" "fs' = fs"
    then show ?thesis using assms(4,5) by (cases r) auto
  next
    fix tmp assume "e_temp e = Ok tmp" "\<not> is_Ok r" "fs' = os_Remove tmp fs"
    then show ?thesis using assms(4,5) by (cases r) (auto simp: os_Remove_def)
  next
    fix tmp new info fs1
    assume tmp: "e_temp e = Ok tmp" and new: "download (e_download e) (ui_Asset info) = Ok new" "CheckUpdate (e_os e) get = Ok info" "HasUpdate info"
      and rb: "replace_binary e (case e_resolved e of Some p \<Rightarrow> p | None \<Rightarrow> exe0) tmp (fs(tmp \<mapsto> new)) = (r, fs1)"
      and fs': "fs' = os_Remove tmp fs1"
    have t: "tmp \<noteq> exe" "tmp \<noteq> exe @ ''.old''" using assms(5) [OF tmp] by auto
    from replace_binary_cases [OF rb [folded assms(3)] t] assms(4) t tmp new fs' show ?thesis
      by (cases r) (auto simp: os_Remove_def)
  qed
qed

definition demo_update :: update_env where
  "demo_update =
     \<lparr>e_os = Linux, e_arch = ''amd64'', e_exe = Ok ''/opt/arnos'', e_resolved = None, e_temp = Ok ''/opt/.arnos-update-1'',
      e_download = (\<lambda>_. Ok \<lparr>resp_code = 200, resp_status = ''200 OK'', resp_body = (''new'', Ok ())\<rparr>),
      e_close = Ok (), e_chmod = Ok (), e_rename_aside = Ok (), e_rename = Ok (), e_rollback = True\<rparr>"

definition demo_release :: "string \<Rightarrow> json option http_resp result" where
  "demo_release _ = Ok \<lparr>resp_code = 200, resp_status = ''200 OK'', resp_body = Some (JObj
     [(''tag_name'', JStr ''v1.4.0''),
      (''assets'', JArr [JObj [(''name'', JStr ''arnosvpn-client-linux-amd64''),
                              (''browser_download_url'', JStr ''https://x'')]])])\<rparr>"

theorem update_keeps_program_witness:
  "\<exists>fs'. ApplyUpdate demo_update demo_release [''/opt/arnos'' \<mapsto> ''old''] = (Ok (), fs') \<and>
    fs' ''/opt/arnos'' = Some ''new'' \<and> fs' ''/opt/.arnos-update-1'' = None"
proof -
  let ?fs = "[''/opt/arnos'' \<mapsto> ''old'']"
  have v: "isNewer ''1.4.0'' ''1.3.0''" by code_simp
  have "\<exists>fs'. ApplyUpdate demo_update demo_release ?fs = (Ok (), fs')"
    by (simp add: ApplyUpdate_def CheckUpdate_def latestRelease_def demo_update_def demo_release_def
        unmarshal_release_def assign_release_def assign_asset_def TrimPrefix_def HasPrefix_def ClientVersion_def
        v download_def downloadCap_def replace_binary_def Let_def)
  then obtain fs' where run: "ApplyUpdate demo_update demo_release ?fs = (Ok (), fs')" by blast
  from update_keeps_program [OF run, of "''/opt/arnos''" "''/opt/arnos''" "''old''"] run show ?thesis
    by (auto simp: demo_update_def download_def downloadCap_def)
qed

text \<open>A dotted pre-release counts as newer than its release: the suffix is cut from each
  component separately, so the \<open>1\<close> of \<open>rc.1\<close> becomes a fourth component.\<close>

lemma prerelease_newer:
  "isNewer ''1.2.0-rc.1'' ''1.2.0'' \<and> \<not> isNewer ''1.2.0-rc1'' ''1.2.0''"
proof -
  have "parseVersion ''1.2.0-rc.1'' = Some [1, 2, 0, 1]" "parseVersion ''1.2.0'' = Some [1, 2, 0]"
    "parseVersion ''1.2.0-rc1'' = Some [1, 2, 0]" by code_simp+
  then show ?thesis by (simp add: isNewer_def)
qed

text \<open>After such a failure, with the old program only beside its place, another attempt
  removes that copy before it finds that there is nothing to rename.\<close>

lemma retry_loses_program:
  assumes "e_os e = Windows" "fs exe = None" "exe \<noteq> tmp" "e_rename_aside e = Err m"
  shows "fst (replace_binary e exe tmp (fs(tmp \<mapsto> new))) = Err ''replace failed'' \<and>
    snd (replace_binary e exe tmp (fs(tmp \<mapsto> new))) exe = None \<and>
    snd (replace_binary e exe tmp (fs(tmp \<mapsto> new))) (exe @ ''.old'') = None"
  using assms by (simp add: replace_binary_def os_Remove_def)

text \<open>The asset is chosen by the operating system alone, whatever the processor.\<close>

lemma asset_ignores_arch:
  "ApplyUpdate (e\<lparr>e_arch := a\<rparr>) get fs = ApplyUpdate e get fs \<or> fst (ApplyUpdate e get fs) \<noteq> Ok ()"
  by (auto simp: ApplyUpdate_def replace_binary_def Let_def split: result.splits)

end
