(* ===== verification/Gui.thy ===== *)
theory Gui
  imports ClientCli Subscribe Update
begin

text \<open>
  The control panel, \<open>internal/client/gui.go\<close>: the local web server whose handlers call the
  controller, the updater and the log. One request is handled at a time here; requests and
  supervisors interleave between these steps, as the steps of the controller's machine do.
  What happens outside during a request (dialling, fetching, the clock) is an argument.
\<close>

section \<open>State, environment and answers\<close>

record gui_state =
  gs_sys :: ctl_sys
  gs_disk :: disk
  gs_log :: log_ring
  gs_files :: files

record gui_env =
  ge_clock :: string
  ge_ctx :: nat
  ge_dial :: "profile \<Rightarrow> tunnel result"
  ge_scheme :: "string \<Rightarrow> string result"
  ge_fetch :: "string \<Rightarrow> string result"
  ge_ping :: "string \<Rightarrow> int result"
  ge_release :: "string \<Rightarrow> json option http_resp result"
  ge_update :: update_env

datatype gui_response =
    Page
  | NotFound
  | BadRequest string
  | Aborted string
  | JsonState state_snapshot
  | JsonSettings settings
  | JsonAdded nat
  | JsonPing "int result"
  | JsonLines "string list"
  | JsonOk
  | JsonVersion string string
  | JsonUpdate update_info
  | JsonRestart

section \<open>Bodies\<close>

text \<open>
  A body read into a struct with one string field: the field after the members that could be
  stored, and whether all went well. Several handlers ignore the latter.
\<close>

fun decode_field :: "string \<Rightarrow> json option \<Rightarrow> string \<times> bool" where
  "decode_field f (Some (JObj ms)) =
     fold (\<lambda>(k, v) (s, ok).
             if match_field [f] k = None then (s, ok)
             else case get_string s v of Some s' \<Rightarrow> (s', ok) | None \<Rightarrow> (s, False)) ms ([], True)"
| "decode_field f (Some JNull) = ([], True)"
| "decode_field f _ = ([], False)"

definition decode_settings :: "json option \<Rightarrow> settings option" where
  "decode_settings body = Option.bind body (Unmarshal assign_settings settings_fields settings_zero)"

section \<open>Handlers\<close>

definition gui_ctl :: "gui_state \<Rightarrow> controller" where
  "gui_ctl s = ctl (gs_sys s)"

definition put_ctl :: "controller \<Rightarrow> disk \<Rightarrow> gui_state \<Rightarrow> gui_state" where
  "put_ctl c d s = s\<lparr>gs_sys := (gs_sys s)\<lparr>ctl := c\<rparr>, gs_disk := d\<rparr>"

definition gui_log :: "gui_env \<Rightarrow> string \<Rightarrow> gui_state \<Rightarrow> gui_state" where
  "gui_log E line s = s\<lparr>gs_log := log_add (ge_clock E) line (gs_log s)\<rparr>"

definition api_state :: "gui_state \<Rightarrow> gui_response \<times> gui_state" where
  "api_state s = (JsonState (State (gui_ctl s)), s)"

definition api_add :: "gui_env \<Rightarrow> json option \<Rightarrow> gui_state \<Rightarrow> gui_response \<times> gui_state" where
  "api_add E body s =
     (case decode_field ''URI'' body of
        (uri, ok) \<Rightarrow>
          if \<not> ok then (BadRequest ''invalid profile URI'', s)
          else case AddServer uri (gui_ctl s) (gs_disk s) of
            (r, c, d) \<Rightarrow>
              let s1 = put_ctl c d s;
                  s2 = (if is_Ok (fst (Add [] uri (ct_cfg (gui_ctl s)))) then gui_log E ''added server'' s1 else s1)
              in if is_Ok r then api_state s2 else (BadRequest ''invalid profile URI'', s2))"

definition api_active :: "json option \<Rightarrow> gui_state \<Rightarrow> gui_response \<times> gui_state" where
  "api_active body s =
     (case decode_field ''Name'' body of
        (name, ok) \<Rightarrow>
          if \<not> ok then (BadRequest ''no such server'', s)
          else case SetActive name (gui_ctl s) (gs_disk s) of
            (r, c, d) \<Rightarrow> if is_Ok r then api_state (put_ctl c d s) else (BadRequest ''no such server'', put_ctl c d s))"

definition api_remove :: "json option \<Rightarrow> gui_state \<Rightarrow> gui_response \<times> gui_state" where
  "api_remove body s =
     (case RemoveServer (fst (decode_field ''Name'' body)) (gui_ctl s) (gs_disk s) of
        (r, c, d) \<Rightarrow> api_state (put_ctl c d s))"

text \<open>
  \<open>Controller.Connect\<close> as a whole: begin, dial, and store the outcome; a success starts the
  supervisor of its context. A panic ends the request; the connection stays pending for good.
\<close>

definition Controller_Connect :: "gui_env \<Rightarrow> string \<Rightarrow> gui_state \<Rightarrow> unit result \<times> gui_state" where
  "Controller_Connect E mode s =
     (case connect_begin mode (gui_ctl s) of
        (Err e, c) \<Rightarrow> (Err e, s)
      | (Panic e, c) \<Rightarrow> (Panic e, s)
      | (Ok p, c) \<Rightarrow>
          let s1 = gui_log E (''connecting to '' @ Host p @ '':'' @ FormatInt (Port p) @ '' ('' @ ct_mode c @ '' mode)'')
                     (put_ctl c (gs_disk s) s)
          in case ge_dial E p of
               Ok t \<Rightarrow>
                 (Ok (), gui_log E (''connected, assigned '' @ LocalIP t)
                    (s1\<lparr>gs_sys := (gs_sys s1)\<lparr>ctl := connect_done (ge_ctx E) t (gui_ctl s1),
                                               sups := (sups (gs_sys s1))(ge_ctx E \<mapsto> Running t)\<rparr>\<rparr>))
             | Err e \<Rightarrow>
                 (Err e, gui_log E (''connect failed: '' @ e)
                    (s1\<lparr>gs_sys := (gs_sys s1)\<lparr>ctl := connect_failed e (gui_ctl s1)\<rparr>\<rparr>))
             | Panic e \<Rightarrow> (Panic e, s1\<lparr>gs_sys := (gs_sys s1)\<lparr>pending := insert (ge_ctx E) (pending (gs_sys s1))\<rparr>\<rparr>))"

definition api_connect :: "gui_env \<Rightarrow> json option \<Rightarrow> gui_state \<Rightarrow> gui_response \<times> gui_state" where
  "api_connect E body s =
     (case Controller_Connect E (fst (decode_field ''Mode'' body)) s of
        (Ok _, s1) \<Rightarrow> api_state s1
      | (Err e, s1) \<Rightarrow> (BadRequest e, s1)
      | (Panic e, s1) \<Rightarrow> (Aborted e, s1))"

definition api_disconnect :: "gui_state \<Rightarrow> gui_response \<times> gui_state" where
  "api_disconnect s = api_state (put_ctl (Disconnect (gui_ctl s)) (gs_disk s) s)"

definition api_settings :: "string \<Rightarrow> json option \<Rightarrow> gui_state \<Rightarrow> gui_response \<times> gui_state" where
  "api_settings method body s =
     (let answer = \<lambda>s. (JsonSettings (the_settings (ct_cfg (gui_ctl s))), s)
      in if method = ''POST'' then
           (case decode_settings body of
              None \<Rightarrow> (BadRequest ''bad settings'', s)
            | Some new \<Rightarrow>
                (case SetSettings new (gui_ctl s) (gs_disk s) of
                   (Ok _, c, d) \<Rightarrow> answer (put_ctl c d s)
                 | (Err e, c, d) \<Rightarrow> (BadRequest e, put_ctl c d s)
                 | (Panic e, c, d) \<Rightarrow> (Aborted e, put_ctl c d s)))
         else answer s)"

definition api_subscribe :: "gui_env \<Rightarrow> json option \<Rightarrow> gui_state \<Rightarrow> gui_response \<times> gui_state" where
  "api_subscribe E body s =
     (case decode_field ''URL'' body of
        (url, ok) \<Rightarrow>
          if \<not> ok \<or> url = [] then (BadRequest ''missing subscription URL'', s)
          else case Subscribe (ge_scheme E url) (ge_fetch E url) (ct_cfg (gui_ctl s)) (gs_disk s) of
            (n, r, cfg, d) \<Rightarrow>
              let s1 = put_ctl ((gui_ctl s)\<lparr>ct_cfg := cfg\<rparr>) d s;
                  s2 = (if n > 0 then gui_log E (''subscription: added '' @ FormatInt (int n) @ '' server(s)'') s1 else s1)
              in (case r of Ok _ \<Rightarrow> JsonAdded n | Err e \<Rightarrow> BadRequest e | Panic e \<Rightarrow> Aborted e, s2))"

definition api_ping :: "gui_env \<Rightarrow> json option \<Rightarrow> gui_state \<Rightarrow> gui_response \<times> gui_state" where
  "api_ping E body s =
     (JsonPing (Ping (ge_ping E) (gui_ctl s) (fst (decode_field ''Name'' body))), s)"

definition api_update_apply :: "gui_env \<Rightarrow> gui_state \<Rightarrow> gui_response \<times> gui_state" where
  "api_update_apply E s =
     (case ApplyUpdate (ge_update E) (ge_release E) (gs_files s) of
        (Ok _, fs) \<Rightarrow> (JsonRestart, s\<lparr>gs_files := fs\<rparr>)
      | (Err e, fs) \<Rightarrow> (BadRequest e, s\<lparr>gs_files := fs\<rparr>)
      | (Panic e, fs) \<Rightarrow> (Aborted e, s\<lparr>gs_files := fs\<rparr>))"

text \<open>The routes of \<open>RunGUI\<close>: path, method and body of a request.\<close>

definition gui_handle :: "gui_env \<Rightarrow> string \<Rightarrow> string \<Rightarrow> json option \<Rightarrow> gui_state \<Rightarrow> gui_response \<times> gui_state" where
  "gui_handle E path method body s =
     (if path = ''/api/state'' then api_state s
      else if path = ''/api/add'' then api_add E body s
      else if path = ''/api/active'' then api_active body s
      else if path = ''/api/remove'' then api_remove body s
      else if path = ''/api/connect'' then api_connect E body s
      else if path = ''/api/disconnect'' then api_disconnect s
      else if path = ''/api/settings'' then api_settings method body s
      else if path = ''/api/subscribe'' then api_subscribe E body s
      else if path = ''/api/ping'' then api_ping E body s
      else if path = ''/api/logs'' then (JsonLines (log_Lines (gs_log s)), s)
      else if path = ''/api/logs/clear'' then (JsonOk, s\<lparr>gs_log := log_clear (gs_log s)\<rparr>)
      else if path = ''/api/version'' then (JsonVersion ClientVersion (GOOS (e_os (ge_update E))), s)
      else if path = ''/api/update/check'' then
        (case CheckUpdate (e_os (ge_update E)) (ge_release E) of
           Ok info \<Rightarrow> (JsonUpdate info, s)
         | Err e \<Rightarrow> (BadRequest e, s)
         | Panic e \<Rightarrow> (Aborted e, s))
      else if path = ''/api/update/apply'' then api_update_apply E s
      else if path = ''/'' then (Page, s)
      else (NotFound, s))"

section \<open>Lemmas: handlers as steps of the controller\<close>

lemma gs_sys_simps [simp]:
  "gs_sys (gui_log E line s) = gs_sys s" "gs_disk (gui_log E line s) = gs_disk s"
  "gs_sys (put_ctl c d s) = (gs_sys s)\<lparr>ctl := c\<rparr>" "gs_disk (put_ctl c d s) = d"
  "gui_ctl (put_ctl c d s) = c" "gui_ctl (gui_log E line s) = gui_ctl s"
  by (simp_all add: gui_log_def put_ctl_def gui_ctl_def)

lemma snd_api_state [simp]: "snd (api_state s) = s"
  by (simp add: api_state_def)

lemma edit_steps: "c = (gui_ctl s)\<lparr>ct_cfg := cfg\<rparr> \<Longrightarrow> ctl_step\<^sup>*\<^sup>* (gs_sys s) ((gs_sys s)\<lparr>ctl := c\<rparr>)"
  using edit [of "gs_sys s" cfg] by (simp add: gui_ctl_def r_into_rtranclp)

lemma no_step: "(gs_sys s)\<lparr>ctl := gui_ctl s\<rparr> = gs_sys s"
  by (simp add: gui_ctl_def)

text \<open>The operations that edit the list or the settings change nothing else of the controller.\<close>

lemma edits_only_cfg:
  "AddServer uri c d = (r, c', d') \<Longrightarrow> c' = c\<lparr>ct_cfg := ct_cfg c'\<rparr>"
  "SetActive name c d = (r, c', d') \<Longrightarrow> c' = c\<lparr>ct_cfg := ct_cfg c'\<rparr>"
  "RemoveServer name c d = (r, c', d') \<Longrightarrow> c' = c\<lparr>ct_cfg := ct_cfg c'\<rparr>"
  "SetSettings new c d = (r, c', d') \<Longrightarrow> c' = c\<lparr>ct_cfg := ct_cfg c'\<rparr>"
  by (auto simp: AddServer_def SetActive_def RemoveServer_def SetSettings_def Let_def
      split: prod.splits result.splits)

lemma connect_steps:
  assumes "ge_ctx E \<notin> pending (gs_sys s)" "sups (gs_sys s) (ge_ctx E) = None"
  shows "ctl_step\<^sup>*\<^sup>* (gs_sys s) (gs_sys (snd (Controller_Connect E mode s)))"
proof (cases "connect_begin mode (gui_ctl s)")
  case (Pair r c)
  show ?thesis
  proof (cases r)
    case (Ok p)
    let ?m = "gs_sys s" and ?ctx = "ge_ctx E"
    let ?m1 = "?m\<lparr>ctl := c, pending := insert ?ctx (pending ?m)\<rparr>"
    have 1: "ctl_step ?m ?m1"
      using Pair Ok assms by (intro begin_connect [of mode _ p]) (simp_all add: gui_ctl_def)
    have p: "pending ?m - {?ctx} = pending ?m" using assms(1) by simp
    show ?thesis
    proof (cases "ge_dial E p")
      case (Ok t)
      have "ctl_step ?m1 (?m\<lparr>ctl := connect_done ?ctx t c, sups := (sups ?m)(?ctx \<mapsto> Running t)\<rparr>)"
        using dial_done [of ?ctx ?m1 t] p by simp
      with 1 show ?thesis
        using Pair \<open>r = Ok p\<close> Ok by (simp add: Controller_Connect_def Let_def)
    next
      case (Err e)
      have "ctl_step ?m1 (?m\<lparr>ctl := connect_failed e c\<rparr>)" using dial_failed [of ?ctx ?m1 e] p by simp
      with 1 show ?thesis using Pair \<open>r = Ok p\<close> Err by (simp add: Controller_Connect_def Let_def)
    next
      case (Panic e)
      with 1 show ?thesis
        using Pair \<open>r = Ok p\<close> by (simp add: Controller_Connect_def Let_def r_into_rtranclp)
    qed
  qed (use Pair in \<open>simp_all add: Controller_Connect_def\<close>)
qed

section \<open>Lemmas: the saved list\<close>

definition list_wf :: "client_config \<Rightarrow> bool" where
  "list_wf cfg \<longleftrightarrow> config_wf cfg \<and> Settings cfg \<noteq> None"

text \<open>
  What a request may do to the file: nothing, write the list now in memory, or, where the
  disk breaks a write off, leave what was written so far.
\<close>

definition file_step :: "disk \<Rightarrow> client_config \<Rightarrow> disk \<Rightarrow> bool" where
  "file_step d cfg d' \<longleftrightarrow> d' = d \<or> d' = d\<lparr>d_file := Contents (Some (marshal_config cfg))\<rparr> \<or>
     (\<exists>e doc. d_write d = Torn e doc \<and> d' = d\<lparr>d_file := Contents doc\<rparr>)"

lemma file_step_refl [simp]: "file_step d cfg d"
  by (simp add: file_step_def)

lemma Save_step: "Save cfg d = (r, d') \<Longrightarrow> file_step d cfg d'"
  using Save_cases [of cfg d r d'] by (auto simp: file_step_def)

lemma Add_list_wf: "list_wf cfg \<Longrightarrow> list_wf (snd (Add name uri cfg))"
  by (simp add: list_wf_def Add_wf Add_settings)

lemma add_lines_list_wf: "list_wf cfg \<Longrightarrow> list_wf (snd (add_lines ls cfg))"
proof (induction ls arbitrary: cfg)
  case (Cons l ls)
  then show ?case
    using Add_list_wf [of cfg "[]" "TrimSpace l"] by (auto simp: Let_def split: prod.splits; metis snd_conv)
qed simp

text \<open>An operation that edits the list keeps it consistent and touches the file as allowed.\<close>

definition edit_ok :: "client_config \<Rightarrow> disk \<Rightarrow> client_config \<Rightarrow> disk \<Rightarrow> bool" where
  "edit_ok cfg d cfg' d' \<longleftrightarrow> (list_wf cfg \<longrightarrow> list_wf cfg') \<and> file_step d cfg' d'"

lemma edit_ok_refl [simp]: "edit_ok cfg d cfg d"
  by (simp add: edit_ok_def)

lemma edit_ok_Save: "(list_wf cfg \<Longrightarrow> list_wf cfg') \<Longrightarrow> Save cfg' d = (r, d') \<Longrightarrow> edit_ok cfg d cfg' d'"
  by (simp add: edit_ok_def Save_step)

lemma ops_edit_ok:
  "AddServer uri c d = (r, c', d') \<Longrightarrow> edit_ok (ct_cfg c) d (ct_cfg c') d'"
  "SetActive name c d = (r, c', d') \<Longrightarrow> edit_ok (ct_cfg c) d (ct_cfg c') d'"
  "RemoveServer name c d = (r, c', d') \<Longrightarrow> edit_ok (ct_cfg c) d (ct_cfg c') d'"
  "SetSettings new c d = (r, c', d') \<Longrightarrow> edit_ok (ct_cfg c) d (ct_cfg c') d'"
proof -
  have "edit_ok (ct_cfg c) d (snd (Add [] uri (ct_cfg c))) d" by (simp add: edit_ok_def Add_list_wf)
  then show "edit_ok (ct_cfg c) d (ct_cfg c') d'" if "AddServer uri c d = (r, c', d')"
    using that Add_list_wf [of "ct_cfg c" "[]" uri] edit_ok_Save [of "ct_cfg c" "snd (Add [] uri (ct_cfg c))" d]
    by (auto simp: AddServer_def split: prod.splits result.splits)
  have "list_wf ((ct_cfg c)\<lparr>Active := name\<rparr>)" if "list_wf (ct_cfg c)" "Profile (ct_cfg c) name = Ok p" for p
    using that use_wf by (simp add: list_wf_def)
  then show "edit_ok (ct_cfg c) d (ct_cfg c') d'" if "SetActive name c d = (r, c', d')"
    using that edit_ok_Save [of "ct_cfg c" "(ct_cfg c)\<lparr>Active := name\<rparr>" d]
    by (auto simp: SetActive_def Let_def split: prod.splits result.splits)
  show "edit_ok (ct_cfg c) d (ct_cfg c') d'" if "RemoveServer name c d = (r, c', d')"
    using that edit_ok_Save [of "ct_cfg c" "Remove name (ct_cfg c)" d] Remove_wf Remove_settings
    by (auto simp: RemoveServer_def list_wf_def Let_def split: prod.splits)
  show "edit_ok (ct_cfg c) d (ct_cfg c') d'" if "SetSettings new c d = (r, c', d')"
  proof -
    have wf: "list_wf (ct_cfg c) \<Longrightarrow> list_wf ((ct_cfg c)\<lparr>Settings := Some x\<rparr>)" for x by (simp add: list_wf_def config_wf_def)
    obtain x where "SetSettings new c d = (case Save ((ct_cfg c)\<lparr>Settings := Some x\<rparr>) d of
        (r, d1) \<Rightarrow> (r, c\<lparr>ct_cfg := (ct_cfg c)\<lparr>Settings := Some x\<rparr>\<rparr>, d1))"
      unfolding SetSettings_def Let_def by blast
    then show ?thesis using that edit_ok_Save [OF wf] by (auto split: prod.splits)
  qed
qed

lemma Subscribe_edit_ok:
  assumes "Subscribe scheme resp cfg d = (n, r, cfg', d')"
  shows "edit_ok cfg d cfg' d'"
proof -
  have "list_wf cfg \<longrightarrow> list_wf c" if "add_lines ls cfg = (k, c)" for ls k c
    using add_lines_list_wf [of cfg ls] that by simp
  then show ?thesis
    using assms by (auto simp: Subscribe_def Let_def edit_ok_def Save_step split: prod.splits result.splits if_splits)
qed

lemma connect_cfg: "ct_cfg (gui_ctl (snd (Controller_Connect E mode s))) = ct_cfg (gui_ctl s)"
  "gs_disk (snd (Controller_Connect E mode s)) = gs_disk s"
proof -
  have b: "ct_cfg (snd (connect_begin mode c)) = ct_cfg c" for c
    by (auto simp: connect_begin_def split: result.splits)
  show "ct_cfg (gui_ctl (snd (Controller_Connect E mode s))) = ct_cfg (gui_ctl s)"
    using b [of "gui_ctl s"]
    by (auto simp: Controller_Connect_def Let_def gui_ctl_def connect_done_def connect_failed_def gui_log_def put_ctl_def
        split: prod.splits result.splits)
  show "gs_disk (snd (Controller_Connect E mode s)) = gs_disk s"
    by (auto simp: Controller_Connect_def Let_def gui_log_def put_ctl_def split: prod.splits result.splits)
qed

section \<open>Lemmas: every request\<close>

text \<open>
  A request is some steps of the controller, keeps the list consistent, and leaves the file
  alone, writes that list to it or loses it to a broken write.
\<close>

definition sound :: "gui_state \<Rightarrow> gui_state \<Rightarrow> bool" where
  "sound s s' \<longleftrightarrow> ctl_step\<^sup>*\<^sup>* (gs_sys s) (gs_sys s') \<and>
     edit_ok (ct_cfg (gui_ctl s)) (gs_disk s) (ct_cfg (gui_ctl s')) (gs_disk s')"

lemma sound_refl [simp]: "sound s s" "sound s (gui_log E line s)" "sound s (s\<lparr>gs_files := fs\<rparr>)"
  "sound s (s\<lparr>gs_log := lr\<rparr>)"
  by (simp_all add: sound_def gui_ctl_def)

lemma sound_log: "sound s s' \<Longrightarrow> sound s (gui_log E line s')"
  by (simp add: sound_def)

lemma sound_edit:
  assumes "c = (gui_ctl s)\<lparr>ct_cfg := ct_cfg c\<rparr>" "edit_ok (ct_cfg (gui_ctl s)) (gs_disk s) (ct_cfg c) d"
  shows "sound s (put_ctl c d s)"
  using assms edit_steps [OF assms(1)] by (simp add: sound_def)

lemma api_sound:
  "sound s (snd (api_add E body s))"
  "sound s (snd (api_active body s))"
  "sound s (snd (api_remove body s))"
  "sound s (snd (api_settings method body s))"
  "sound s (snd (api_subscribe E body s))"
  "sound s (snd (api_disconnect s))"
proof -
  note ed = edits_only_cfg and wf = ops_edit_ok
  show "sound s (snd (api_add E body s))"
    using ed(1) wf(1)
    by (auto simp: api_add_def Let_def split: prod.splits intro!: sound_log sound_edit)
  show "sound s (snd (api_active body s))"
    using ed(2) wf(2) by (auto simp: api_active_def split: prod.splits intro!: sound_edit)
  show "sound s (snd (api_remove body s))"
    using ed(3) wf(3) by (auto simp: api_remove_def split: prod.splits intro!: sound_edit)
  show "sound s (snd (api_settings method body s))"
    using ed(4) wf(4)
    by (auto simp: api_settings_def Let_def split: prod.splits result.splits option.splits intro!: sound_edit)
  show "sound s (snd (api_subscribe E body s))"
    using Subscribe_edit_ok
    by (auto simp: api_subscribe_def Let_def split: prod.splits intro!: sound_log sound_edit)
  have "ct_cfg (Disconnect (gui_ctl s)) = ct_cfg (gui_ctl s)" by (simp add: ctl_ops split: option.splits)
  then show "sound s (snd (api_disconnect s))"
    using disconnect_steps [of "gs_sys s"] by (simp add: sound_def api_disconnect_def gui_ctl_def)
qed

lemma api_connect_sound:
  assumes "ge_ctx E \<notin> pending (gs_sys s)" "sups (gs_sys s) (ge_ctx E) = None"
  shows "sound s (snd (api_connect E body s))"
proof -
  let ?mode = "fst (decode_field ''Mode'' body)"
  have "snd (api_connect E body s) = snd (Controller_Connect E ?mode s)"
    by (auto simp: api_connect_def split: prod.splits result.splits)
  then show ?thesis
    using connect_steps [OF assms, of ?mode] connect_cfg [of E ?mode s] by (simp add: sound_def)
qed

text \<open>Every request, to whatever path and with whatever body.\<close>

lemma request_sound:
  assumes "ge_ctx E \<notin> pending (gs_sys s)" "sups (gs_sys s) (ge_ctx E) = None"
  shows "sound s (snd (gui_handle E path method body s))"
  using api_sound [of s] api_connect_sound [OF assms, of body]
  by (auto simp: gui_handle_def api_ping_def api_update_apply_def split: prod.splits result.splits)

end
