(* ===== verification/Panel.thy ===== *)
theory Panel
  imports Gui ServerStart
begin

text \<open>
  The run of the control panel, \<open>RunGUI\<close> of \<open>internal/client/gui.go\<close>: its start, the requests
  it serves while connections go on behind it, and its end, as a state machine. It refines the
  controller's machine.
\<close>

section \<open>Start and end\<close>

datatype panel_phase = PanelUp | PanelStopping | PanelDown "unit result"

record panel =
  pn_gui :: gui_state
  pn_url :: string
  pn_phase :: panel_phase

text \<open>
  Up to the listening: the controller is made, the leftover of an update is removed, the address
  is bound. \<open>listen\<close> gives the address that was bound.
\<close>

definition RunGUI :: "goos \<Rightarrow> string result \<Rightarrow> (string \<Rightarrow> string result) \<Rightarrow> string \<Rightarrow> disk \<Rightarrow> files \<Rightarrow> panel result \<times> files" where
  "RunGUI os exe listen addr d fs =
     (case NewController (d_file d) of
        Err e \<Rightarrow> (Err e, fs)
      | Panic e \<Rightarrow> (Panic e, fs)
      | Ok c \<Rightarrow>
          let fs1 = CleanupOldBinary os exe fs
          in case listen addr of
               Err e \<Rightarrow> (Err (''listen '' @ addr @ '': '' @ e), fs1)
             | Panic e \<Rightarrow> (Panic e, fs1)
             | Ok a \<Rightarrow>
                 (Ok \<lparr>pn_gui = \<lparr>gs_sys = \<lparr>ctl = c, pending = {}, cancelling = {#}, sups = Map.empty\<rparr>, gs_disk = d,
                        gs_log = guiLog, gs_files = fs1\<rparr>,
                     pn_url = ''http://'' @ a, pn_phase = PanelUp\<rparr>, fs1))"

definition serve_result :: "string \<Rightarrow> unit result" where
  "serve_result e = (if e = ErrServerClosed then Ok () else Err e)"

definition openBrowser :: "goos \<Rightarrow> string \<Rightarrow> string list" where
  "openBrowser os url =
     (if os = Windows then [''rundll32'', ''url.dll,FileProtocolHandler'', url]
      else if os = OtherOS ''darwin'' then [''open'', url] else [''xdg-open'', url])"

section \<open>The machine\<close>

text \<open>
  A request is served as a whole, with a fresh context for a connection it may start. In the
  background, supervisors and requests that are under way take steps of the controller, and
  the outcome of the next write to the file may change. When the context of the panel ends, its
  goroutine disconnects, then shuts the server down; \<open>Serve\<close> returns at once, and with it
  \<open>RunGUI\<close>.
\<close>

definition with_disk :: "disk \<Rightarrow> panel \<Rightarrow> panel" where
  "with_disk d p = p\<lparr>pn_gui := (pn_gui p)\<lparr>gs_disk := d\<rparr>\<rparr>"

inductive panel_step :: "panel \<Rightarrow> panel \<Rightarrow> bool" where
  request: "pn_phase p \<in> {PanelUp, PanelStopping} \<Longrightarrow>
    ge_ctx E \<notin> pending (gs_sys (pn_gui p)) \<Longrightarrow> sups (gs_sys (pn_gui p)) (ge_ctx E) = None \<Longrightarrow>
    gui_handle E path method body (pn_gui p) = (resp, g) \<Longrightarrow> panel_step p (p\<lparr>pn_gui := g\<rparr>)"
| background: "pn_phase p \<in> {PanelUp, PanelStopping} \<Longrightarrow> ctl_step (gs_sys (pn_gui p)) m \<Longrightarrow>
    ct_cfg (ctl m) = ct_cfg (gui_ctl (pn_gui p)) \<Longrightarrow> panel_step p (p\<lparr>pn_gui := (pn_gui p)\<lparr>gs_sys := m\<rparr>\<rparr>)"
| disk: "\<forall>e doc. w \<noteq> Torn e doc \<Longrightarrow>
    panel_step p (with_disk ((gs_disk (pn_gui p))\<lparr>d_mkdir := r, d_write := w\<rparr>) p)"
| stop: "pn_phase p = PanelUp \<Longrightarrow>
    panel_step p (p\<lparr>pn_gui := snd (api_disconnect (pn_gui p)), pn_phase := PanelStopping\<rparr>)"
| shut: "pn_phase p = PanelStopping \<Longrightarrow> panel_step p (p\<lparr>pn_phase := PanelDown (serve_result ErrServerClosed)\<rparr>)"
| fail: "pn_phase p = PanelUp \<Longrightarrow> panel_step p (p\<lparr>pn_phase := PanelDown (serve_result e)\<rparr>)"

text \<open>A panel started on a file with a consistent list.\<close>

definition panel_init :: "panel \<Rightarrow> bool" where
  "panel_init p \<longleftrightarrow> (\<exists>os exe listen addr d fs fs'. RunGUI os exe listen addr d fs = (Ok p, fs') \<and>
     config_wf (ct_cfg (gui_ctl (pn_gui p))) \<and> (\<forall>e doc. d_write d \<noteq> Torn e doc))"

section \<open>Lemmas\<close>

text \<open>The file holds a consistent list, or the image of one.\<close>

definition file_saved :: "disk \<Rightarrow> bool" where
  "file_saved d \<longleftrightarrow> (\<exists>cfg. list_wf cfg \<and> (LoadConfig (d_file d) = Ok cfg \<or> d_file d = Contents (Some (marshal_config cfg)))) \<and>
     (\<forall>e doc. d_write d \<noteq> Torn e doc)"

definition panel_inv :: "panel \<Rightarrow> bool" where
  "panel_inv p \<longleftrightarrow> list_wf (ct_cfg (gui_ctl (pn_gui p))) \<and> file_saved (gs_disk (pn_gui p))"

lemma file_saved_step: "file_saved d \<Longrightarrow> file_step d cfg d' \<Longrightarrow> list_wf cfg \<Longrightarrow> file_saved d'"
  by (auto simp: file_saved_def file_step_def)

lemma sound_inv:
  assumes "sound (pn_gui p) g" "panel_inv p"
  shows "panel_inv (p\<lparr>pn_gui := g\<rparr>)" "panel_inv (p\<lparr>pn_gui := g, pn_phase := ph\<rparr>)"
  using assms file_saved_step by (auto simp: sound_def edit_ok_def panel_inv_def)

lemma RunGUI_Ok:
  assumes "RunGUI os exe listen addr d fs = (Ok p, fs')"
  shows "NewController (d_file d) = Ok (gui_ctl (pn_gui p)) \<and> gs_disk (pn_gui p) = d \<and> pn_phase p = PanelUp \<and>
    pending (gs_sys (pn_gui p)) = {} \<and> cancelling (gs_sys (pn_gui p)) = {#} \<and> sups (gs_sys (pn_gui p)) = Map.empty"
  using assms by (auto simp: RunGUI_def Let_def gui_ctl_def split: result.splits)

lemma panel_inv_init: "panel_init p \<Longrightarrow> panel_inv p"
proof -
  assume "panel_init p"
  then obtain os exe listen addr d fs fs' where run: "RunGUI os exe listen addr d fs = (Ok p, fs')"
    and wf: "config_wf (ct_cfg (gui_ctl (pn_gui p)))" "\<forall>e doc. d_write d \<noteq> Torn e doc"
    by (auto simp: panel_init_def)
  have "LoadConfig (d_file d) = Ok (ct_cfg (gui_ctl (pn_gui p)))"
    using RunGUI_Ok [OF run] by (auto simp: NewController_def bind_result_Ok_conv dest!: sym [of _ "gui_ctl (pn_gui p)"])
  with wf RunGUI_Ok [OF run] LoadConfig_settings show ?thesis
    by (auto simp: panel_inv_def list_wf_def file_saved_def)
qed

lemma panel_inv_step:
  assumes "panel_step p p'" "panel_inv p"
  shows "panel_inv p'"
  using assms(1)
proof cases
  case (request E path meth doc resp g)
  then show ?thesis using sound_inv(1) [OF _ assms(2)] request_sound [of E "pn_gui p" path meth doc] by simp
next
  case stop
  then show ?thesis using sound_inv(2) [OF api_sound(6) assms(2)] by simp
next
  case (disk w r)
  then show ?thesis using assms(2) by (auto simp: panel_inv_def with_disk_def file_saved_def gui_ctl_def)
qed (use assms(2) in \<open>simp_all add: panel_inv_def gui_ctl_def\<close>)

lemma panel_refines_step:
  assumes "panel_step p p'"
  shows "ctl_step\<^sup>*\<^sup>* (gs_sys (pn_gui p)) (gs_sys (pn_gui p'))"
  using assms
proof cases
  case (request E path meth doc resp g)
  then show ?thesis using request_sound [of E "pn_gui p" path meth doc] by (simp add: sound_def)
next
  case stop
  then show ?thesis using api_sound(6) [of "pn_gui p"] by (simp add: sound_def)
qed (auto simp: with_disk_def)

interpretation panel: simulation panel_init panel_step panel_inv ctl_init ctl_step "\<lambda>p. gs_sys (pn_gui p)"
proof
  show "panel_inv p" if "panel_init p" for p
    using that by (rule panel_inv_init)
  show "panel_inv p'" if "panel_step p p'" "panel_inv p" for p p'
    using that by (rule panel_inv_step)
  show "ctl_init (gs_sys (pn_gui p))" if "panel_init p" for p
    using that RunGUI_Ok by (fastforce simp: panel_init_def ctl_init_def gui_ctl_def)
  show "ctl_step\<^sup>*\<^sup>* (gs_sys (pn_gui p)) (gs_sys (pn_gui p'))" if "panel_step p p'" for p p'
    using that by (rule panel_refines_step)
qed

section \<open>A concrete panel\<close>

definition demo_disk :: disk where
  "demo_disk = \<lparr>d_file = Contents (Some (marshal_config demo_config)), d_mkdir = Ok (), d_write = Written\<rparr>"

definition demo_gui :: gui_state where
  "demo_gui = \<lparr>gs_sys = \<lparr>ctl = (demo_ctl None False)\<lparr>ct_mode := []\<rparr>, pending = {}, cancelling = {#}, sups = Map.empty\<rparr>,
     gs_disk = demo_disk, gs_log = guiLog, gs_files = CleanupOldBinary Linux (Err []) Map.empty\<rparr>"

definition demo_panel :: panel where
  "demo_panel = \<lparr>pn_gui = demo_gui, pn_url = ''http://127.0.0.1:7654'', pn_phase = PanelUp\<rparr>"

definition demo_gui_env :: gui_env where
  "demo_gui_env = \<lparr>ge_clock = ''12:00:00'', ge_ctx = 1, ge_dial = (\<lambda>_. Ok (demo_tunnel ''10.66.0.2'')),
     ge_scheme = (\<lambda>_. Ok ''https''), ge_fetch = (\<lambda>_. Err []), ge_ping = (\<lambda>_. Ok 5), ge_release = (\<lambda>_. Err []),
     ge_update = demo_update\<rparr>"

lemma demo_panel_init: "panel_init demo_panel"
proof -
  have "RunGUI Linux (Err []) Ok ''127.0.0.1:7654'' demo_disk Map.empty =
      (Ok demo_panel, CleanupOldBinary Linux (Err []) Map.empty)"
    using demo_load by (simp add: RunGUI_def demo_disk_def demo_panel_def demo_gui_def Let_def)
  moreover have "config_wf (ct_cfg (gui_ctl (pn_gui demo_panel)))"
    using demo_config_wf by (simp add: demo_panel_def demo_gui_def gui_ctl_def demo_ctl_def)
  ultimately show ?thesis unfolding panel_init_def by (metis demo_disk_def disk.select_convs(3) write_outcome.distinct(3))
qed

text \<open>A request to connect in TUN mode, and its answer.\<close>

definition connect_tun :: "json option" where
  "connect_tun = Some (JObj [(''mode'', JStr ''tun'')])"

lemma demo_connect:
  "\<exists>g. gui_handle demo_gui_env ''/api/connect'' ''POST'' connect_tun demo_gui = (JsonState (State (gui_ctl g)), g) \<and>
    connected (gui_ctl g) \<and> ct_mode (gui_ctl g) = ''tun'' \<and> sups (gs_sys g) 1 = Some (Running (demo_tunnel ''10.66.0.2''))"
proof -
  let ?s = demo_gui
  have c: "gui_ctl ?s = (demo_ctl None False)\<lparr>ct_mode := []\<rparr>" by (simp add: demo_gui_def gui_ctl_def)
  have mode: "fst (decode_field ''Mode'' connect_tun) = ''tun''" by code_simp
  have started: "connect_begin ''tun'' (gui_ctl ?s) =
      (Ok demo_profile, (demo_ctl None False)\<lparr>connecting := True, lastError := [], ct_mode := ''tun''\<rparr>)"
    by (simp add: connect_begin_def connect_mode_def c demo_ctl_def demo_config_Profile)
  have dial: "ge_dial demo_gui_env demo_profile = Ok (demo_tunnel ''10.66.0.2'')" "ge_ctx demo_gui_env = 1"
    by (simp_all add: demo_gui_env_def)
  obtain g where g: "Controller_Connect demo_gui_env ''tun'' ?s = (Ok (), g)" "connected (gui_ctl g)"
    "ct_mode (gui_ctl g) = ''tun''" "sups (gs_sys g) 1 = Some (Running (demo_tunnel ''10.66.0.2''))"
    unfolding Controller_Connect_def started
    by (simp add: Let_def dial) (simp add: gui_ctl_def connect_done_def gui_log_def put_ctl_def demo_ctl_def)
  have "gui_handle demo_gui_env ''/api/connect'' ''POST'' connect_tun ?s = (JsonState (State (gui_ctl g)), g)"
    by (simp add: gui_handle_def api_connect_def mode g(1) api_state_def)
  with g(2-4) show ?thesis by blast
qed

lemma demo_panel_connected:
  "\<exists>g. reach panel_init panel_step (demo_panel\<lparr>pn_gui := g\<rparr>) \<and> connected (gui_ctl g) \<and> ct_mode (gui_ctl g) = ''tun'' \<and>
    sups (gs_sys g) 1 = Some (Running (demo_tunnel ''10.66.0.2''))"
proof -
  obtain g where g: "gui_handle demo_gui_env ''/api/connect'' ''POST'' connect_tun demo_gui = (JsonState (State (gui_ctl g)), g)"
    "connected (gui_ctl g)" "ct_mode (gui_ctl g) = ''tun''" "sups (gs_sys g) 1 = Some (Running (demo_tunnel ''10.66.0.2''))"
    using demo_connect by blast
  have "panel_step demo_panel (demo_panel\<lparr>pn_gui := g\<rparr>)"
    using request [of demo_panel demo_gui_env "''/api/connect''" "''POST''" connect_tun _ g] g(1)
    by (simp add: demo_panel_def demo_gui_env_def demo_gui_def)
  with demo_panel_init g(2-4) show ?thesis by (blast intro: reach_init reach_step)
qed

section \<open>Properties\<close>



text \<open>The panel does not wait for its tunnel. Ended while a tunnel is up in TUN mode,
  \<open>RunGUI\<close> can return without an error, and the program end, while the supervisor has not yet
  come to take the routes back.\<close>

lemma panel_quits_before_cleanup:
  "\<exists>p t. reach panel_init panel_step p \<and> pn_phase p = PanelDown (Ok ()) \<and> ct_mode (gui_ctl (pn_gui p)) = ''tun'' \<and>
    sups (gs_sys (pn_gui p)) 1 = Some (Running t)"
proof -
  obtain g where g: "reach panel_init panel_step (demo_panel\<lparr>pn_gui := g\<rparr>)" "ct_mode (gui_ctl g) = ''tun''"
    "sups (gs_sys g) 1 = Some (Running (demo_tunnel ''10.66.0.2''))"
    using demo_panel_connected by blast
  define p1 where "p1 = demo_panel\<lparr>pn_gui := snd (api_disconnect g), pn_phase := PanelStopping\<rparr>"
  have "panel_step (demo_panel\<lparr>pn_gui := g\<rparr>) p1"
    using stop [of "demo_panel\<lparr>pn_gui := g\<rparr>"] by (simp add: p1_def demo_panel_def)
  with g(1) have "reach panel_init panel_step p1" by (rule reach_step)
  moreover have "panel_step p1 (p1\<lparr>pn_phase := PanelDown (Ok ())\<rparr>)"
    using shut [of p1] by (simp add: p1_def serve_result_def)
  ultimately have "reach panel_init panel_step (p1\<lparr>pn_phase := PanelDown (Ok ())\<rparr>)" by (rule reach_step)
  moreover have "sups (gs_sys (pn_gui p1)) 1 = Some (Running (demo_tunnel ''10.66.0.2''))"
    "ct_mode (gui_ctl (pn_gui p1)) = ''tun''"
    using g(2,3) by (simp_all add: p1_def api_disconnect_def ctl_ops split: option.splits)
  ultimately show ?thesis by (intro exI [of _ "p1\<lparr>pn_phase := PanelDown (Ok ())\<rparr>"]) simp
qed

end
