(* ===== verification/ClientTun.thy ===== *)
theory ClientTun
  imports HostCommands ClientTunnel GoNet
begin

text \<open>
  TUN mode of the client: \<open>RunTUN\<close> (\<open>internal/client/tundev.go\<close>) and the addresses and routes
  it programs on Linux (\<open>tun_linux.go\<close>) and Windows (\<open>tun_windows.go\<close>). Commands run on a
  host that is an argument: a command line (program first) and a host give an outcome and the
  host after it. A configuration returns the function that takes it back, as in the sources.
\<close>

type_synonym 'h commands = "string list \<Rightarrow> 'h \<Rightarrow> unit result \<times> 'h"

section \<open>Linux\<close>

fun scan_route :: "string list \<Rightarrow> string \<times> string \<Rightarrow> string \<times> string" where
  "scan_route (f # v # fs) (gw, dev) =
     scan_route (v # fs) (if f = ''via'' then (v, dev) else if f = ''dev'' then (gw, v) else (gw, dev))"
| "scan_route _ p = p"

definition defaultRoute :: "string result \<Rightarrow> (string \<times> string) result" where
  "defaultRoute out =
     bind_result out (\<lambda>text.
       case scan_route (Fields text) ([], []) of
         (gw, dev) \<Rightarrow>
           if gw = [] \<or> dev = [] then Err (''could not parse default route: '' @ text) else Ok (gw, dev))"

definition linux_steps :: "string \<Rightarrow> string \<Rightarrow> int \<Rightarrow> string \<Rightarrow> string \<Rightarrow> string \<Rightarrow> string list list" where
  "linux_steps name localIP maskLen serverIP gw dev =
     [[''ip'', ''addr'', ''add'', localIP @ ''/'' @ FormatInt maskLen, ''dev'', name],
      [''ip'', ''link'', ''set'', ''dev'', name, ''up''],
      [''ip'', ''route'', ''add'', serverIP @ ''/32'', ''via'', gw, ''dev'', dev],
      [''ip'', ''route'', ''add'', ''0.0.0.0/1'', ''dev'', name],
      [''ip'', ''route'', ''add'', ''128.0.0.0/1'', ''dev'', name]]"

definition delRoute :: "string list \<Rightarrow> string list" where
  "delRoute add = map (\<lambda>a. if a = ''add'' then ''del'' else a) add"

definition cleanup :: "'h commands \<Rightarrow> string list list \<Rightarrow> 'h \<Rightarrow> 'h" where
  "cleanup run cmds h = run_undo (\<lambda>c h. snd (run c h)) cmds h"

definition configureTUN_linux ::
  "'h commands \<Rightarrow> string result \<Rightarrow> string \<Rightarrow> string \<Rightarrow> int \<Rightarrow> string list \<Rightarrow> string \<Rightarrow> 'h \<Rightarrow> ('h \<Rightarrow> 'h) result \<times> 'h"
where
  "configureTUN_linux run out name localIP maskLen dns serverIP h =
     (case defaultRoute out of
        Err e \<Rightarrow> (Err e, h)
      | Panic e \<Rightarrow> (Panic e, h)
      | Ok (gw, dev) \<Rightarrow>
          (case run_steps run delRoute (linux_steps name localIP maskLen serverIP gw dev) [] h of
             (Ok _, undo, h1) \<Rightarrow> (Ok (cleanup run undo), h1)
           | (Err e, undo, h1) \<Rightarrow> (Err e, cleanup run undo h1)
           | (Panic e, undo, h1) \<Rightarrow> (Panic e, h1)))"

section \<open>Windows\<close>

definition maskToDotted :: "int \<Rightarrow> string result" where
  "maskToDotted prefixBits =
     (let n = wrap64 (32 - prefixBits)
      in if n < 0 then Panic ''negative shift amount''
         else Ok (dotted (put_be32 (push_bit (nat n) 0xffffffff))))"

definition defaultGateway :: "string result \<Rightarrow> string result" where
  "defaultGateway out =
     (case out of
        Err e \<Rightarrow> Err (''find default gateway: '' @ e)
      | Panic e \<Rightarrow> Panic e
      | Ok text \<Rightarrow> let gw = TrimSpace text in if gw = [] then Err ''no default gateway found'' else Ok gw)"

definition windows_steps :: "string \<Rightarrow> string \<Rightarrow> string \<Rightarrow> string \<Rightarrow> string \<Rightarrow> string list list" where
  "windows_steps name localIP netmask serverIP origGW =
     [[''netsh'', ''interface'', ''ip'', ''set'', ''address'', ''name='' @ name, ''static'', localIP, netmask],
      [''route'', ''add'', serverIP, ''mask'', ''255.255.255.255'', origGW, ''metric'', ''1''],
      [''netsh'', ''interface'', ''ipv4'', ''add'', ''route'', ''0.0.0.0/1'', name],
      [''netsh'', ''interface'', ''ipv4'', ''add'', ''route'', ''128.0.0.0/1'', name]]"

definition winUndo :: "string \<Rightarrow> string list \<Rightarrow> string list option" where
  "winUndo serverIP add =
     (if hd add = ''route'' then Some [''route'', ''delete'', serverIP]
      else if hd add = ''netsh'' then Some (map (\<lambda>a. if a = ''add'' then ''delete'' else a) add)
      else None)"

definition winCleanup :: "'h commands \<Rightarrow> string list option list \<Rightarrow> 'h \<Rightarrow> 'h" where
  "winCleanup run cmds h =
     run_undo (\<lambda>c h. case c of Some args \<Rightarrow> snd (run args h) | None \<Rightarrow> h) cmds h"

definition dns_command :: "string \<Rightarrow> string \<Rightarrow> string list" where
  "dns_command name d = [''netsh'', ''interface'', ''ip'', ''add'', ''dns'', ''name='' @ name, d, ''validate=no'']"

definition configureTUN_windows ::
  "'h commands \<Rightarrow> string result \<Rightarrow> string \<Rightarrow> string \<Rightarrow> int \<Rightarrow> string list \<Rightarrow> string \<Rightarrow> 'h \<Rightarrow> ('h \<Rightarrow> 'h) result \<times> 'h"
where
  "configureTUN_windows run out name localIP maskLen dns serverIP h =
     (case bind_result (defaultGateway out) (\<lambda>gw. bind_result (maskToDotted maskLen) (\<lambda>netmask. Ok (gw, netmask))) of
        Err e \<Rightarrow> (Err e, h)
      | Panic e \<Rightarrow> (Panic e, h)
      | Ok (origGW, netmask) \<Rightarrow>
          (case run_steps run (winUndo serverIP) (windows_steps name localIP netmask serverIP origGW) [] h of
             (Ok _, undo, h1) \<Rightarrow>
               (Ok (winCleanup run undo), fold (\<lambda>d h. snd (run (dns_command name d) h)) dns h1)
           | (Err e, undo, h1) \<Rightarrow> (Err e, winCleanup run undo h1)
           | (Panic e, undo, h1) \<Rightarrow> (Panic e, h1)))"

text \<open>Other systems (\<open>tun_other.go\<close>).\<close>

definition configureTUN_other :: "'h \<Rightarrow> ('h \<Rightarrow> 'h) result \<times> 'h" where
  "configureTUN_other h = (Err ''TUN mode is not supported on this OS; use --mode proxy'', h)"

section \<open>The run\<close>

text \<open>
  \<open>create\<close> is the outcome of opening the adapter and its name, \<open>configure\<close> the configuration for
  this system, \<open>pumped\<close> the run of the tunnel until it ends. The deferred cleanup runs on
  every way out after the configuration.
\<close>

definition RunTUN ::
  "string result \<Rightarrow> (string \<Rightarrow> 'h \<Rightarrow> ('h \<Rightarrow> 'h) result \<times> 'h) \<Rightarrow> ('h \<Rightarrow> unit result \<times> 'h) \<Rightarrow> 'h \<Rightarrow> unit result \<times> 'h" where
  "RunTUN create configure pumped h =
     (case create of
        Err e \<Rightarrow> (Err (''create TUN (need admin/root; or use --mode proxy): '' @ e), h)
      | Panic e \<Rightarrow> (Panic e, h)
      | Ok name \<Rightarrow>
          (case configure name h of
             (Err e, h1) \<Rightarrow> (Err (''configure '' @ name @ '': '' @ e), h1)
           | (Panic e, h1) \<Rightarrow> (Panic e, h1)
           | (Ok undo, h1) \<Rightarrow> (case pumped h1 of (r, h2) \<Rightarrow> (r, undo h2))))"

text \<open>A run whose pump has ended, as it does when the user disconnects and the adapter is closed,
  ends with an error: there is no other way out.\<close>

lemma RunTUN_error:
  assumes "\<And>h. \<exists>up down first. pump up down first = Some (fst (pumped h))"
  shows "\<not> is_Ok (fst (RunTUN create configure pumped h))"
proof -
  have "\<not> is_Ok r" if "pumped g = (r, g')" for g g' r
    using pump_returns_error assms [of g] that by auto
  then show ?thesis by (auto simp: RunTUN_def split: result.splits prod.splits)
qed

section \<open>What is relied on about the commands\<close>

text \<open>
  \<open>view\<close> reads the addresses and routes off the host, as the arguments they were added with.
  An add command enters its entry or fails and changes nothing, a delete command takes the
  entry that was added last away; bringing a link up, setting an adapter's address and adding a
  name server touch neither.
\<close>

type_synonym net_entry = "string \<times> string list"

definition adds_entry :: "'h commands \<Rightarrow> ('h \<Rightarrow> net_entry list) \<Rightarrow> string list \<Rightarrow> net_entry \<Rightarrow> bool" where
  "adds_entry run view cmd e \<longleftrightarrow>
     (\<forall>h. (is_Ok (fst (run cmd h)) \<longrightarrow> e \<notin> set (view h) \<longrightarrow> view (snd (run cmd h)) = view h @ [e]) \<and>
          (\<not> is_Ok (fst (run cmd h)) \<longrightarrow> view (snd (run cmd h)) = view h))"

definition deletes_entry :: "'h commands \<Rightarrow> ('h \<Rightarrow> net_entry list) \<Rightarrow> string list \<Rightarrow> net_entry \<Rightarrow> bool" where
  "deletes_entry run view cmd e \<longleftrightarrow>
     (\<forall>h xs. view h = xs @ [e] \<longrightarrow> e \<notin> set xs \<longrightarrow> view (snd (run cmd h)) = xs)"

definition keeps_entries :: "'h commands \<Rightarrow> ('h \<Rightarrow> net_entry list) \<Rightarrow> string list \<Rightarrow> bool" where
  "keeps_entries run view cmd \<longleftrightarrow> (\<forall>h. view (snd (run cmd h)) = view h)"

definition iproute_ok :: "'h commands \<Rightarrow> ('h \<Rightarrow> net_entry list) \<Rightarrow> bool" where
  "iproute_ok run view \<longleftrightarrow>
     (\<forall>obj args. adds_entry run view (''ip'' # obj # ''add'' # args) (obj, args) \<and>
                  deletes_entry run view (''ip'' # obj # ''del'' # args) (obj, args)) \<and>
     (\<forall>args. keeps_entries run view (''ip'' # ''link'' # ''set'' # args))"

definition winroute_ok :: "'h commands \<Rightarrow> ('h \<Rightarrow> net_entry list) \<Rightarrow> bool" where
  "winroute_ok run view \<longleftrightarrow>
     (\<forall>dest args. adds_entry run view (''route'' # ''add'' # dest # args) (''host'', [dest]) \<and>
                   deletes_entry run view [''route'', ''delete'', dest] (''host'', [dest])) \<and>
     (\<forall>args. adds_entry run view (''netsh'' # ''interface'' # ''ipv4'' # ''add'' # ''route'' # args) (''route'', args) \<and>
              deletes_entry run view (''netsh'' # ''interface'' # ''ipv4'' # ''delete'' # ''route'' # args) (''route'', args)) \<and>
     (\<forall>op args. keeps_entries run view (''netsh'' # ''interface'' # ''ip'' # op # args))"

text \<open>The entry a command adds.\<close>

fun linux_entry :: "string list \<Rightarrow> net_entry option" where
  "linux_entry (prog # obj # op # args) = (if op = ''add'' then Some (obj, args) else None)"
| "linux_entry _ = None"

fun windows_entry :: "string list \<Rightarrow> net_entry option" where
  "windows_entry (prog # a # b # args) =
     (if prog = ''route'' then Some (''host'', [b])
      else if b = ''ipv4'' then Some (''route'', drop 2 args) else None)"
| "windows_entry _ = None"

section \<open>Lemmas: Linux\<close>

lemma slash_not_add [simp]: "x @ CHR ''/'' # y \<noteq> ''add''"
proof
  assume eq: "x @ CHR ''/'' # y = ''add''"
  have "CHR ''/'' \<in> set (x @ CHR ''/'' # y)" by simp
  then show False unfolding eq by simp
qed

lemmas slash_not_add' [simp] = slash_not_add [symmetric]

text \<open>A command with its undo command as a step.\<close>

lemma add_step_ok:
  assumes "eff s = Some e" "adds_entry run view s e"
    and "\<And>h. unexec (undo_of s) h = snd (run u h)" "deletes_entry run view u e"
  shows "step_ok run view eff s \<and> undo_ok unexec undo_of view eff s"
  using assms by (auto simp: step_ok_def undo_ok_def adds_entry_def deletes_entry_def)

lemma keep_step_ok:
  assumes "eff s = None" "keeps_entries run view s"
    and "\<And>h. unexec (undo_of s) h = snd (run u h)" "keeps_entries run view u"
  shows "step_ok run view eff s \<and> undo_ok unexec undo_of view eff s"
  using assms by (auto simp: step_ok_def undo_ok_def keeps_entries_def)

lemma delRoute_id: "''add'' \<notin> set args \<Longrightarrow> delRoute args = args"
  by (induction args) (auto simp: delRoute_def)

lemma linux_add_ok:
  assumes "iproute_ok run view" "obj \<noteq> ''add''" "''add'' \<notin> set args"
  shows "step_ok run view linux_entry (''ip'' # obj # ''add'' # args) \<and>
    undo_ok (\<lambda>c h. snd (run c h)) delRoute view linux_entry (''ip'' # obj # ''add'' # args)"
proof -
  have "delRoute (''ip'' # obj # ''add'' # args) = ''ip'' # obj # ''del'' # args"
    using assms(2) delRoute_id [OF assms(3)] by (simp add: delRoute_def)
  with assms(1) show ?thesis
    by (intro add_step_ok [of _ _ "(obj, args)" _ _ _ _ "''ip'' # obj # ''del'' # args"]) (simp_all add: iproute_ok_def)
qed

lemma linux_link_ok:
  assumes "iproute_ok run view" "''add'' \<notin> set args"
  shows "step_ok run view linux_entry (''ip'' # ''link'' # ''set'' # args) \<and>
    undo_ok (\<lambda>c h. snd (run c h)) delRoute view linux_entry (''ip'' # ''link'' # ''set'' # args)"
  using assms delRoute_id [of "''ip'' # ''link'' # ''set'' # args"]
  by (intro keep_step_ok [of _ _ _ _ _ _ "''ip'' # ''link'' # ''set'' # args"]) (simp_all add: iproute_ok_def)

definition linux_entries :: "string \<Rightarrow> string \<Rightarrow> int \<Rightarrow> string \<Rightarrow> string \<Rightarrow> string \<Rightarrow> net_entry list" where
  "linux_entries name localIP maskLen serverIP gw dev =
     [(''addr'', [localIP @ ''/'' @ FormatInt maskLen, ''dev'', name]),
      (''route'', [serverIP @ ''/32'', ''via'', gw, ''dev'', dev]),
      (''route'', [''0.0.0.0/1'', ''dev'', name]), (''route'', [''128.0.0.0/1'', ''dev'', name])]"

lemma linux_steps_entries:
  "List.map_filter linux_entry (linux_steps name localIP maskLen serverIP gw dev) =
     linux_entries name localIP maskLen serverIP gw dev"
  by (simp add: linux_steps_def linux_entries_def)

lemma linux_steps_ok:
  assumes "iproute_ok run view" "name \<noteq> ''add''" "gw \<noteq> ''add''" "dev \<noteq> ''add''"
  shows "\<forall>s \<in> set (linux_steps name localIP maskLen serverIP gw dev).
    step_ok run view linux_entry s \<and> undo_ok (\<lambda>c h. snd (run c h)) delRoute view linux_entry s"
  using assms linux_add_ok [OF assms(1)] linux_link_ok [OF assms(1)]
  by (simp add: linux_steps_def)

text \<open>
  What a configuration achieves: a failure leaves the entries as they were; a success has
  added its entries, and the function it returns takes them away again.
\<close>

definition configured :: "('h \<Rightarrow> net_entry list) \<Rightarrow> net_entry list \<Rightarrow> 'h \<Rightarrow> ('h \<Rightarrow> 'h) result \<times> 'h \<Rightarrow> bool" where
  "configured view entries h res \<longleftrightarrow>
     (\<forall>e. fst res = Err e \<longrightarrow> view (snd res) = view h) \<and>
     (\<forall>undo. fst res = Ok undo \<longrightarrow> view (snd res) = view h @ entries \<and>
        (\<forall>g. view g = view (snd res) \<longrightarrow> view (undo g) = view h))"

lemma configured_by_steps:
  assumes "run_steps run undo_of ss [] h = (r, undo, h1)"
    and "\<forall>s \<in> set ss. step_ok run view eff s \<and> undo_ok unexec undo_of view eff s"
    and "distinct (List.map_filter eff ss)" "set (List.map_filter eff ss) \<inter> set (view h) = {}"
    and "\<And>g. view (post g) = view g"
  shows "configured view (List.map_filter eff ss) h
    (case r of Ok _ \<Rightarrow> (Ok (run_undo unexec undo), post h1) | Err e \<Rightarrow> (Err e, run_undo unexec undo h1) | Panic e \<Rightarrow> (Panic e, h1))"
proof -
  from run_steps_reversible [OF assms(1-4)]
  have undone: "view (run_undo unexec undo g) = view h" if "view g = view h1" for g using that by blast
  from run_steps_reversible [OF assms(1-4)]
  have "is_Ok r \<Longrightarrow> view h1 = view h @ List.map_filter eff ss" by blast
  then show ?thesis using undone undone [OF refl] assms(5) by (cases r) (simp_all add: configured_def)
qed

lemma configure_linux_view:
  assumes "iproute_ok run view" "name \<noteq> ''add''" "defaultRoute out = Ok (gw, dev)" "gw \<noteq> ''add''" "dev \<noteq> ''add''"
    and "set (linux_entries name localIP maskLen serverIP gw dev) \<inter> set (view h) = {}"
  shows "configured view (linux_entries name localIP maskLen serverIP gw dev) h
    (configureTUN_linux run out name localIP maskLen dns serverIP h)"
proof -
  let ?ss = "linux_steps name localIP maskLen serverIP gw dev"
  obtain r1 undo h1 where run: "run_steps run delRoute ?ss [] h = (r1, undo, h1)"
    by (cases "run_steps run delRoute ?ss [] h") auto
  have "configureTUN_linux run out name localIP maskLen dns serverIP h =
      (case r1 of Ok _ \<Rightarrow> (Ok (run_undo (\<lambda>c h. snd (run c h)) undo), h1)
       | Err e \<Rightarrow> (Err e, run_undo (\<lambda>c h. snd (run c h)) undo h1) | Panic e \<Rightarrow> (Panic e, h1))"
    unfolding configureTUN_linux_def assms(3) result.case prod.case run cleanup_def ..
  moreover have "distinct (List.map_filter linux_entry ?ss)" by (simp add: linux_steps_entries linux_entries_def)
  ultimately show ?thesis
    using configured_by_steps [OF run linux_steps_ok [OF assms(1,2,4,5)], of "\<lambda>h. h"] assms(6)
    by (simp add: linux_steps_entries)
qed

section \<open>Lemmas: Windows\<close>

abbreviation win_unexec :: "'h commands \<Rightarrow> string list option \<Rightarrow> 'h \<Rightarrow> 'h" where
  "win_unexec run \<equiv> (\<lambda>c h. case c of Some args \<Rightarrow> snd (run args h) | None \<Rightarrow> h)"

lemma winroute_okD:
  assumes "winroute_ok run view"
  shows "adds_entry run view (''route'' # ''add'' # dest # args) (''host'', [dest])"
    and "deletes_entry run view [''route'', ''delete'', dest] (''host'', [dest])"
    and "adds_entry run view (''netsh'' # ''interface'' # ''ipv4'' # ''add'' # ''route'' # args) (''route'', args)"
    and "deletes_entry run view (''netsh'' # ''interface'' # ''ipv4'' # ''delete'' # ''route'' # args) (''route'', args)"
    and "keeps_entries run view (''netsh'' # ''interface'' # ''ip'' # op # args)"
  using assms by (simp_all add: winroute_ok_def)

lemma windows_steps_ok:
  assumes "winroute_ok run view" "name \<noteq> ''add''" "localIP \<noteq> ''add''" "netmask \<noteq> ''add''"
  shows "\<forall>s \<in> set (windows_steps name localIP netmask serverIP gw).
    step_ok run view windows_entry s \<and> undo_ok (win_unexec run) (winUndo serverIP) view windows_entry s"
proof -
  note w = winroute_okD [OF assms(1)]
  have 1: "step_ok run view windows_entry s \<and> undo_ok (win_unexec run) (winUndo serverIP) view windows_entry s"
    if "s = [''netsh'', ''interface'', ''ip'', ''set'', ''address'', ''name='' @ name, ''static'', localIP, netmask]" for s
    using that assms
    by (intro keep_step_ok [of _ _ _ _ _ _ s]) (simp_all add: w winUndo_def)
  have 2: "step_ok run view windows_entry s \<and> undo_ok (win_unexec run) (winUndo serverIP) view windows_entry s"
    if "s = ''route'' # ''add'' # serverIP # args" for s args
    using that by (intro add_step_ok [of _ _ "(''host'', [serverIP])" _ _ _ _ "[''route'', ''delete'', serverIP]"])
      (simp_all add: w winUndo_def)
  have 3: "step_ok run view windows_entry s \<and> undo_ok (win_unexec run) (winUndo serverIP) view windows_entry s"
    if "s = [''netsh'', ''interface'', ''ipv4'', ''add'', ''route'', net, name]" "net \<noteq> ''add''" for s net
    using that assms(2)
    by (intro add_step_ok [of _ _ "(''route'', [net, name])" _ _ _ _ "[''netsh'', ''interface'', ''ipv4'', ''delete'', ''route'', net, name]"])
      (simp_all add: w winUndo_def)
  show ?thesis using 1 2 3 by (simp add: windows_steps_def)
qed

definition windows_entries :: "string \<Rightarrow> string \<Rightarrow> net_entry list" where
  "windows_entries name serverIP =
     [(''host'', [serverIP]), (''route'', [''0.0.0.0/1'', name]), (''route'', [''128.0.0.0/1'', name])]"

lemma windows_steps_entries:
  "List.map_filter windows_entry (windows_steps name localIP netmask serverIP gw) = windows_entries name serverIP"
  by (simp add: windows_steps_def windows_entries_def)

lemma configure_windows_view:
  assumes "winroute_ok run view" "name \<noteq> ''add''" "localIP \<noteq> ''add''" "netmask \<noteq> ''add''"
    and "defaultGateway out = Ok gw" "maskToDotted maskLen = Ok netmask"
    and "set (windows_entries name serverIP) \<inter> set (view h) = {}"
  shows "configured view (windows_entries name serverIP) h
    (configureTUN_windows run out name localIP maskLen dns serverIP h)"
proof -
  let ?ss = "windows_steps name localIP netmask serverIP gw"
  obtain r1 undo h1 where run: "run_steps run (winUndo serverIP) ?ss [] h = (r1, undo, h1)"
    by (cases "run_steps run (winUndo serverIP) ?ss [] h") auto
  let ?post = "\<lambda>h1. fold (\<lambda>d h. snd (run (dns_command name d) h)) dns h1"
  have post: "view (?post g) = view g" for g
    using winroute_okD(5) [OF assms(1)]
    by (induction dns arbitrary: g) (simp_all add: dns_command_def keeps_entries_def)
  have "configureTUN_windows run out name localIP maskLen dns serverIP h =
      (case r1 of Ok _ \<Rightarrow> (Ok (run_undo (win_unexec run) undo), ?post h1)
       | Err e \<Rightarrow> (Err e, run_undo (win_unexec run) undo h1) | Panic e \<Rightarrow> (Panic e, h1))"
    unfolding configureTUN_windows_def assms(5,6) bind_result_simps result.case prod.case run winCleanup_def ..
  moreover have "distinct (List.map_filter windows_entry ?ss)"
    by (simp add: windows_steps_entries windows_entries_def)
  ultimately show ?thesis
    using configured_by_steps [OF run windows_steps_ok [OF assms(1-4)], of ?post] post assms(7)
    by (simp add: windows_steps_entries)
qed

section \<open>Lemmas: the run\<close>

lemma RunTUN_restores:
  assumes "\<And>name. create = Ok name \<Longrightarrow> configured view entries h (configure name h)"
    and "\<And>g. view (snd (pumped g)) = view g" "RunTUN create configure pumped h = (r, h')" "\<And>e. r \<noteq> Panic e"
  shows "view h' = view h"
proof (cases create)
  case (Ok name)
  obtain c h1 where conf: "configure name h = (c, h1)" by fastforce
  have ok: "configured view entries h (c, h1)" using assms(1) Ok conf by metis
  obtain r2 h2 where pumped: "pumped h1 = (r2, h2)" by fastforce
  have h2: "view h2 = view h1" using assms(2) [of h1] pumped by simp
  have run: "(r, h') = (case c of Err e \<Rightarrow> (Err (''configure '' @ name @ '': '' @ e), h1) | Panic e \<Rightarrow> (Panic e, h1)
      | Ok undo \<Rightarrow> (r2, undo h2))"
    using assms(3) unfolding RunTUN_def Ok result.case conf prod.case pumped by (rule sym)
  show ?thesis
  proof (cases c)
    case (Ok undo)
    have "view (undo h2) = view h" using ok h2 unfolding configured_def Ok fst_conv snd_conv by blast
    with run Ok show ?thesis by simp
  next
    case (Err e)
    have "view h1 = view h" using ok unfolding configured_def Err fst_conv snd_conv by blast
    with run Err show ?thesis by simp
  next
    case (Panic e)
    with run assms(4) show ?thesis by simp
  qed
qed (use assms(3,4) in \<open>auto simp: RunTUN_def\<close>)

section \<open>A concrete host\<close>

text \<open>A host that is its list of entries; every command succeeds.\<close>

definition entry_host :: "net_entry list commands" where
  "entry_host cmd h =
     (Ok (), case cmd of
               _ # obj # op # args \<Rightarrow>
                 if op = ''add'' then h @ [(obj, args)] else if op = ''del'' then remove1 (obj, args) h else h
             | _ \<Rightarrow> h)"

lemma entry_host_ok: "iproute_ok entry_host (\<lambda>h. h)"
  by (simp add: iproute_ok_def adds_entry_def deletes_entry_def keeps_entries_def entry_host_def remove1_append)

section \<open>Properties\<close>



text \<open>The same on Windows, for the host route and the two halves of the default route.\<close>

lemma tun_routes_restored_windows:
  assumes "winroute_ok run view" "defaultGateway out = Ok gw" "maskToDotted (t_Mask t) = Ok netmask"
    and "name \<noteq> ''add''" "LocalIP t \<noteq> ''add''" "netmask \<noteq> ''add''"
    and "set (windows_entries name serverIP) \<inter> set (view h) = {}"
    and "\<forall>g. view (snd (pumped g)) = view g" "\<forall>e. r \<noteq> Panic e"
    and "RunTUN (Ok name) (\<lambda>name. configureTUN_windows run out name (LocalIP t) (t_Mask t) (t_DNS t) serverIP) pumped h = (r, h')"
  shows "view h' = view h \<and>
    (\<forall>undo h1. configureTUN_windows run out name (LocalIP t) (t_Mask t) (t_DNS t) serverIP h = (Ok undo, h1) \<longrightarrow>
       view h1 = view h @ windows_entries name serverIP)"
proof -
  let ?conf = "configureTUN_windows run out name (LocalIP t) (t_Mask t) (t_DNS t) serverIP"
  have c: "configured view (windows_entries name serverIP) h (?conf h)"
    by (rule configure_windows_view [OF assms(1,4-6,2,3,7)])
  have "view h' = view h"
    by (rule RunTUN_restores [where create = "Ok name" and h = h, OF _ _ assms(10)]) (use assms(8,9) c in auto)
  then show ?thesis using c by (auto simp: configured_def)
qed

text \<open>C37: the dotted mask given to netsh is the network mask of the assigned prefix length,
  and 0.0.0.0 for a negative one; a length above 32, which the server may send, panics.\<close>

theorem maskToDotted_CIDRMask:
  assumes "- (2 ^ 62) \<le> n" "n < 2 ^ 63"
  shows "maskToDotted n = (if 32 < n then Panic ''negative shift amount'' else Ok (dotted (CIDRMask (nat n) 4)))"
proof -
  have wrap: "wrap64 (32 - n) = 32 - n" using assms by (intro wrap64_id) (simp add: in_int64_def)
  consider (high) "32 < n" | (mid) "0 \<le> n" "n \<le> 32" | (neg) "n < 0" by linarith
  then show ?thesis
  proof cases
    case high
    then show ?thesis by (simp add: maskToDotted_def wrap)
  next
    case mid
    have all: "list_all (\<lambda>k. maskToDotted (int k) = Ok (dotted (CIDRMask k 4))) [0..<33]" by code_simp
    have "nat n \<in> set [0..<33]" using mid by simp
    with all have "maskToDotted (int (nat n)) = Ok (dotted (CIDRMask (nat n) 4))" unfolding list_all_iff by blast
    with mid show ?thesis by simp
  next
    case neg
    have "32 \<le> nat (32 - n)" using neg by simp
    then have "push_bit (nat (32 - n)) (0xffffffff :: u32) = 0"
      by (intro bit_word_eqI) (simp add: bit_push_bit_iff)
    moreover have "dotted (put_be32 0) = dotted (CIDRMask 0 4)" by code_simp
    ultimately show ?thesis using neg by (simp add: maskToDotted_def wrap)
  qed
qed

theorem maskToDotted_CIDRMask_witness:
  "maskToDotted 24 = Ok ''255.255.255.0'' \<and> maskToDotted 33 = Panic ''negative shift amount''"
proof -
  have "dotted (CIDRMask 24 4) = ''255.255.255.0''" by code_simp
  then show ?thesis using maskToDotted_CIDRMask [of 24] maskToDotted_CIDRMask [of 33] by simp
qed

end
