(* ===== verification/Relay.thy ===== *)
theory Relay
  imports Prelude
begin

text \<open>
  \<open>relay\<close> of \<open>internal/client/proxy.go\<close>: two goroutines copy between two connections, and the
  call returns when the first of them ends. A direction is what its source still sends and
  what has been written to its sink; \<open>io.Copy\<close> moves some bytes on, ends at the end of the
  input, or breaks off, losing what it had in hand at most.
\<close>

section \<open>The machine\<close>

record copying =
  todo :: bytes
  sent_on :: bytes
  cp_ended :: bool

record relay_state =
  to_b :: copying
  to_a :: copying
  rl_returned :: bool

inductive copy_step :: "copying \<Rightarrow> copying \<Rightarrow> bool" where
  chunk: "\<not> cp_ended c \<Longrightarrow> todo c = xs @ ys \<Longrightarrow> xs \<noteq> [] \<Longrightarrow>
    copy_step c (c\<lparr>todo := ys, sent_on := sent_on c @ xs\<rparr>)"
| eof: "\<not> cp_ended c \<Longrightarrow> todo c = [] \<Longrightarrow> copy_step c (c\<lparr>cp_ended := True\<rparr>)"
| broken: "\<not> cp_ended c \<Longrightarrow> copy_step c (c\<lparr>cp_ended := True\<rparr>)"

inductive relay_step :: "relay_state \<Rightarrow> relay_state \<Rightarrow> bool" where
  copy_to_b: "copy_step (to_b s) c \<Longrightarrow> relay_step s (s\<lparr>to_b := c\<rparr>)"
| copy_to_a: "copy_step (to_a s) c \<Longrightarrow> relay_step s (s\<lparr>to_a := c\<rparr>)"
| return: "cp_ended (to_b s) \<or> cp_ended (to_a s) \<Longrightarrow> \<not> rl_returned s \<Longrightarrow> relay_step s (s\<lparr>rl_returned := True\<rparr>)"

inductive_cases copy_stepE: "copy_step c c'"

text \<open>Side \<open>a\<close> is going to send \<open>A\<close>, side \<open>b\<close> is going to send \<open>B\<close>.\<close>

definition start_copy :: "bytes \<Rightarrow> copying" where
  "start_copy xs = \<lparr>todo = xs, sent_on = [], cp_ended = False\<rparr>"

definition relay :: "bytes \<Rightarrow> bytes \<Rightarrow> relay_state" where
  "relay A B = \<lparr>to_b = start_copy A, to_a = start_copy B, rl_returned = False\<rparr>"

section \<open>Lemmas\<close>

definition relay_inv :: "bytes \<Rightarrow> bytes \<Rightarrow> relay_state \<Rightarrow> bool" where
  "relay_inv A B s \<longleftrightarrow> sent_on (to_b s) @ todo (to_b s) = A \<and> sent_on (to_a s) @ todo (to_a s) = B \<and>
     (rl_returned s \<longrightarrow> cp_ended (to_b s) \<or> cp_ended (to_a s))"

lemma copy_step_stream: "copy_step c c' \<Longrightarrow> sent_on c' @ todo c' = sent_on c @ todo c"
  by (elim copy_stepE) auto

lemma copy_step_continues: "copy_step c c' \<Longrightarrow> \<not> cp_ended c"
  by (elim copy_stepE)

interpretation relaying: safe_system "\<lambda>s. s = relay A B" relay_step "relay_inv A B" for A B
proof
  show "relay_inv A B s" if "s = relay A B" for s
    using that by (simp add: relay_inv_def relay_def start_copy_def)
  show "relay_inv A B s'" if "relay_step s s'" "relay_inv A B s" for s s'
    using that
  proof cases
    case (copy_to_b c)
    then show ?thesis
      using that(2) copy_step_stream [of "to_b s" c] copy_step_continues [of "to_b s" c] by (auto simp: relay_inv_def)
  next
    case (copy_to_a c)
    then show ?thesis
      using that(2) copy_step_stream [of "to_a s" c] copy_step_continues [of "to_a s" c] by (auto simp: relay_inv_def)
  qed (use that(2) in \<open>auto simp: relay_inv_def\<close>)
qed

text \<open>A direction that has not ended can be copied to its end.\<close>

lemma copy_finish:
  assumes "\<not> cp_ended c"
  shows "copy_step\<^sup>*\<^sup>* c (c\<lparr>todo := [], sent_on := sent_on c @ todo c, cp_ended := True\<rparr>)"
proof -
  let ?c = "c\<lparr>todo := [], sent_on := sent_on c @ todo c\<rparr>"
  have "copy_step\<^sup>*\<^sup>* c ?c"
  proof (cases "todo c = []")
    case False
    then show ?thesis using chunk [of c "todo c" "[]"] assms by (simp add: r_into_rtranclp)
  next
    case True
    then have "?c = c" by (cases c) simp
    then show ?thesis by simp
  qed
  moreover have "copy_step ?c (?c\<lparr>cp_ended := True\<rparr>)" using assms by (intro eof) simp_all
  ultimately show ?thesis by simp
qed

lemma relay_copies:
  "copy_step\<^sup>*\<^sup>* (to_b s) c \<Longrightarrow> relay_step\<^sup>*\<^sup>* s (s\<lparr>to_b := c\<rparr>)"
  "copy_step\<^sup>*\<^sup>* (to_a s) d \<Longrightarrow> relay_step\<^sup>*\<^sup>* s (s\<lparr>to_a := d\<rparr>)"
proof -
  show "relay_step\<^sup>*\<^sup>* s (s\<lparr>to_b := c\<rparr>)" if "copy_step\<^sup>*\<^sup>* (to_b s) c"
    using that
  proof (induction rule: rtranclp_induct)
    case (step c d)
    then show ?case using copy_to_b [of "s\<lparr>to_b := c\<rparr>" d] by simp
  qed simp
  show "relay_step\<^sup>*\<^sup>* s (s\<lparr>to_a := d\<rparr>)" if "copy_step\<^sup>*\<^sup>* (to_a s) d"
    using that
  proof (induction rule: rtranclp_induct)
    case (step c d)
    then show ?case using copy_to_a [of "s\<lparr>to_a := c\<rparr>" d] by simp
  qed simp
qed

text \<open>Each side gets a prefix of what the other has sent, whatever breaks when; and while no
  direction has ended, the relay can still deliver everything and return.\<close>

lemma relay_prefix:
  assumes "reach (\<lambda>s. s = relay A B) relay_step s"
  shows "(\<exists>x. A = sent_on (to_b s) @ x) \<and> (\<exists>y. B = sent_on (to_a s) @ y) \<and>
    (rl_returned s \<longrightarrow> cp_ended (to_b s) \<or> cp_ended (to_a s))"
  using relaying.reach_inv [OF assms] by (auto simp: relay_inv_def)

lemma relay_can_finish:
  assumes "reach (\<lambda>s. s = relay A B) relay_step s" "\<not> cp_ended (to_b s)" "\<not> cp_ended (to_a s)"
  shows "\<exists>s'. relay_step\<^sup>*\<^sup>* s s' \<and> sent_on (to_b s') = A \<and> sent_on (to_a s') = B \<and> rl_returned s'"
proof -
  let ?done = "\<lambda>c. c\<lparr>todo := [], sent_on := sent_on c @ todo c, cp_ended := True\<rparr>"
  have inv: "relay_inv A B s" by (rule relaying.reach_inv [OF assms(1)])
  let ?s1 = "s\<lparr>to_b := ?done (to_b s)\<rparr>"
  let ?s2 = "?s1\<lparr>to_a := ?done (to_a s)\<rparr>"
  have 1: "relay_step\<^sup>*\<^sup>* s ?s1" by (rule relay_copies(1) [OF copy_finish [OF assms(2)]])
  have 2: "relay_step\<^sup>*\<^sup>* ?s1 ?s2" using relay_copies(2) [of ?s1] copy_finish [OF assms(3)] by simp
  have 3: "relay_step\<^sup>*\<^sup>* ?s2 (?s2\<lparr>rl_returned := True\<rparr>)"
  proof -
    have "\<not> rl_returned ?s2" using inv assms(2,3) by (simp add: relay_inv_def)
    then show ?thesis using return [of ?s2] by (simp add: r_into_rtranclp)
  qed
  from 1 2 3 have "relay_step\<^sup>*\<^sup>* s (?s2\<lparr>rl_returned := True\<rparr>)" by (meson rtranclp_trans)
  with inv show ?thesis by (intro exI [of _ "?s2\<lparr>rl_returned := True\<rparr>"]) (simp add: relay_inv_def)
qed

text \<open>A peer that has sent all it has and closes its half of the connection ends the relay before
  the answer comes back.\<close>

lemma relay_half_close:
  "\<exists>s. reach (\<lambda>s. s = relay A B) relay_step s \<and> rl_returned s \<and> sent_on (to_b s) = A \<and> sent_on (to_a s) = []"
proof -
  let ?s1 = "(relay A B)\<lparr>to_b := \<lparr>todo = [], sent_on = A, cp_ended = True\<rparr>\<rparr>"
  have "relay_step\<^sup>*\<^sup>* (relay A B) ?s1"
    using relay_copies(1) [OF copy_finish, of "relay A B"] by (simp add: relay_def start_copy_def)
  moreover have "reach (\<lambda>s. s = relay A B) relay_step (relay A B)" by (rule reach_init) simp
  ultimately have "reach (\<lambda>s. s = relay A B) relay_step ?s1" by (rule reach_steps)
  moreover have "relay_step ?s1 (?s1\<lparr>rl_returned := True\<rparr>)" by (rule return) (simp_all add: relay_def)
  ultimately have "reach (\<lambda>s. s = relay A B) relay_step (?s1\<lparr>rl_returned := True\<rparr>)" by (rule reach_step)
  then show ?thesis by (intro exI [of _ "?s1\<lparr>rl_returned := True\<rparr>"]) (simp add: relay_def start_copy_def)
qed

end
