(* ===== verification/Proxy.thy ===== *)
theory Proxy
  imports ClientTunnel GoNet Relay
begin

text \<open>
  The local proxies of the client: the SOCKS5 server and the life of its listeners
  (\<open>internal/client/proxy.go\<close>) and the HTTP proxy (\<open>internal/client/http_proxy.go\<close>). The
  dialer, the user-space network stack and the listening sockets are arguments; the HTTP
  request arrives parsed, as \<open>http.ReadRequest\<close> delivers it.
\<close>

section \<open>SOCKS5\<close>

text \<open>\<open>io.ReadFull\<close> on what the peer sends until it closes.\<close>

definition ReadFull :: "nat \<Rightarrow> bytes \<Rightarrow> (bytes \<times> bytes) option" where
  "ReadFull n inp = (if n \<le> length inp then Some (take n inp, drop n inp) else None)"

definition Uint16 :: "bytes \<Rightarrow> u16" where
  "Uint16 b = push_bit 8 (ucast (b ! 0)) OR ucast (b ! 1)"

definition readSOCKSAddr :: "byte \<Rightarrow> bytes \<Rightarrow> (string \<times> bytes) option" where
  "readSOCKSAddr atyp inp =
     (if atyp = 0x01 then map_option (\<lambda>(b, r). (IP_String b, r)) (ReadFull 4 inp)
      else if atyp = 0x04 then map_option (\<lambda>(b, r). (IP_String b, r)) (ReadFull 16 inp)
      else if atyp = 0x03 then
        (case ReadFull 1 inp of
           None \<Rightarrow> None
         | Some (b, r) \<Rightarrow> map_option (\<lambda>(s, r'). (string_of_bytes s, r')) (ReadFull (unat (b ! 0)) r))
      else None)"

text \<open>
  A handled connection: what was written to the peer, the address dialled, and the bytes of
  the peer that the relay takes over. \<open>wr i\<close> tells whether the write number \<open>i\<close> succeeds.
\<close>

record socks_run =
  so_written :: "bytes list"
  so_dialled :: "string option"
  so_relayed :: "bytes option"

definition socks_reply :: "byte \<Rightarrow> bytes" where
  "socks_reply code = [0x05, code, 0x00, 0x01, 0, 0, 0, 0, 0, 0]"

definition socks_greet :: "bytes \<Rightarrow> bytes option" where
  "socks_greet inp =
     (case ReadFull 2 inp of
        None \<Rightarrow> None
      | Some (b, r) \<Rightarrow> if b ! 0 \<noteq> 0x05 then None else map_option snd (ReadFull (unat (b ! 1)) r))"

definition handleSOCKS :: "(string \<Rightarrow> unit result) \<Rightarrow> (nat \<Rightarrow> bool) \<Rightarrow> bytes \<Rightarrow> socks_run" where
  "handleSOCKS dial wr inp =
     (case socks_greet inp of
        None \<Rightarrow> \<lparr>so_written = [], so_dialled = None, so_relayed = None\<rparr>
      | Some r1 \<Rightarrow>
          let hello = [0x05, 0x00]; stop = \<lparr>so_written = [hello], so_dialled = None, so_relayed = None\<rparr>
          in if \<not> wr 0 then stop
             else case ReadFull 4 r1 of
               None \<Rightarrow> stop
             | Some (b, r2) \<Rightarrow>
                 if b ! 0 \<noteq> 0x05 then stop
                 else if b ! 1 \<noteq> 0x01 then stop\<lparr>so_written := [hello, socks_reply 0x07]\<rparr>
                 else case readSOCKSAddr (b ! 3) r2 of
                   None \<Rightarrow> stop
                 | Some (host, r3) \<Rightarrow>
                     (case ReadFull 2 r3 of
                        None \<Rightarrow> stop
                      | Some (p, r4) \<Rightarrow>
                          let target = JoinHostPort host (FormatInt (int (unat (Uint16 p))))
                          in if \<not> is_Ok (dial target) then
                               \<lparr>so_written = [hello, socks_reply 0x05], so_dialled = Some target, so_relayed = None\<rparr>
                             else \<lparr>so_written = [hello, socks_reply 0x00], so_dialled = Some target,
                                    so_relayed = (if wr 1 then Some r4 else None)\<rparr>))"

section \<open>The HTTP proxy\<close>

definition withPort :: "string \<Rightarrow> string \<Rightarrow> string" where
  "withPort host def = (if SplitHostPort host \<noteq> None then host else JoinHostPort host def)"

record http_request =
  rq_Method :: string
  rq_Host :: string

text \<open>
  What \<open>http.ReadRequest\<close> leaves of the client's bytes after a request: those its buffered
  reader has already taken from the connection, and those still to come from it.
\<close>

record http_input =
  in_buffered :: bytes
  in_rest :: bytes

text \<open>\<open>hp_relayed\<close> is what the relay can read from the client, where it is reached.\<close>

record http_run =
  hp_written :: "string list"
  hp_dialled :: "string option"
  hp_forwarded :: bool
  hp_relayed :: "bytes option"

definition http_reply :: "string \<Rightarrow> string" where
  "http_reply status = ''HTTP/1.1 '' @ status @ [CR, LF, CR, LF]"

text \<open>
  \<open>forward\<close> tells whether the request could be written to the origin server. Nothing is done
  for a connection without a request. The relay reads from the connection, not from the
  buffered reader.
\<close>

definition handleHTTPConnect ::
  "(string \<Rightarrow> unit result) \<Rightarrow> bool \<Rightarrow> bool \<Rightarrow> (http_request \<times> http_input) option \<Rightarrow> http_run" where
  "handleHTTPConnect dial wr forward req =
     (case req of
        None \<Rightarrow> \<lparr>hp_written = [], hp_dialled = None, hp_forwarded = False, hp_relayed = None\<rparr>
      | Some (r, inp) \<Rightarrow>
          if rq_Method r = ''CONNECT'' then
            let target = withPort (rq_Host r) ''443''
            in if \<not> is_Ok (dial target) then
                 \<lparr>hp_written = [http_reply ''502 Bad Gateway''], hp_dialled = Some target,
                  hp_forwarded = False, hp_relayed = None\<rparr>
               else \<lparr>hp_written = [http_reply ''200 Connection established''], hp_dialled = Some target,
                      hp_forwarded = False, hp_relayed = (if wr then Some (in_rest inp) else None)\<rparr>
          else
            let target = withPort (rq_Host r) ''80''
            in if \<not> is_Ok (dial target) then
                 \<lparr>hp_written = [http_reply ''502 Bad Gateway''], hp_dialled = Some target,
                  hp_forwarded = False, hp_relayed = None\<rparr>
               else \<lparr>hp_written = [], hp_dialled = Some target, hp_forwarded = forward,
                      hp_relayed = (if forward then Some (in_rest inp) else None)\<rparr>)"

section \<open>The run of the proxies\<close>

text \<open>
  The state of a run: the addresses with an open listener in the process, the accept loops of
  the run (each blocked in \<open>Accept\<close> on its listener), the channel of results, whether the
  context was cancelled, the value \<open>RunProxy\<close> returned, and how often \<open>Accept\<close> has failed.
\<close>

record proxy_state =
  pr_bound :: "string set"
  pr_loops :: "string set"
  pr_errc :: "unit result list"
  pr_done :: bool
  pr_returned :: "unit result option"
  pr_accept_errs :: nat

definition listen_addr_step ::
  "(string set \<Rightarrow> string \<Rightarrow> unit result) \<Rightarrow> string \<Rightarrow> string \<Rightarrow> string set \<times> string set \<Rightarrow> (string set \<times> string set) result"
where
  "listen_addr_step listen kind addr bl =
     (case bl of (bound, loops) \<Rightarrow>
        if addr = [] then Ok (bound, loops)
        else case listen bound addr of
               Ok _ \<Rightarrow> Ok (insert addr bound, insert addr loops)
             | Err e \<Rightarrow> Err (''listen '' @ kind @ '' '' @ addr @ '': '' @ e)
             | Panic e \<Rightarrow> Panic e)"

text \<open>
  The start of \<open>RunProxy\<close>: the assigned address, the name servers that parse, the network
  stack, then the listeners. An error returns at once; a listener opened before it stays
  open, with its accept loop.
\<close>

definition proxy_dns :: "tunnel \<Rightarrow> netip list" where
  "proxy_dns t = List.map_filter ParseAddr (t_DNS t)"

definition RunProxy ::
  "(netip \<Rightarrow> netip list \<Rightarrow> int \<Rightarrow> unit result) \<Rightarrow> (string set \<Rightarrow> string \<Rightarrow> unit result) \<Rightarrow> tunnel \<Rightarrow> string \<Rightarrow> string
    \<Rightarrow> string set \<Rightarrow> proxy_state" where
  "RunProxy netstack listen t socksAddr httpAddr bound =
     (let st = \<lambda>b l r. \<lparr>pr_bound = b, pr_loops = l, pr_errc = [], pr_done = False, pr_returned = r, pr_accept_errs = 0\<rparr>
      in case ParseAddr (LocalIP t) of
           None \<Rightarrow> st bound {} (Some (Err (''assigned IP '' @ LocalIP t)))
         | Some localIP \<Rightarrow>
             (case netstack localIP (proxy_dns t) (t_MTU t) of
                Err e \<Rightarrow> st bound {} (Some (Err (''create netstack: '' @ e)))
              | Panic e \<Rightarrow> st bound {} (Some (Panic e))
              | Ok _ \<Rightarrow>
                  (case listen_addr_step listen ''socks'' socksAddr (bound, {}) of
                     Err e \<Rightarrow> st bound {} (Some (Err e))
                   | Panic e \<Rightarrow> st bound {} (Some (Panic e))
                   | Ok (b1, l1) \<Rightarrow>
                       (case listen_addr_step listen ''http'' httpAddr (b1, l1) of
                          Err e \<Rightarrow> st b1 l1 (Some (Err e))
                        | Panic e \<Rightarrow> st b1 l1 (Some (Panic e))
                        | Ok (b2, l2) \<Rightarrow> st b2 l2 None))))"

text \<open>
  What can happen then: \<open>acceptLoop\<close> takes a connection and goes on, or its \<open>Accept\<close> fails,
  upon which it closes its listener and reports nil when its context is done (the parent
  was cancelled or \<open>RunProxy\<close> has returned), else the error; the pump ends; the context is
  cancelled; and \<open>RunProxy\<close> returns when it sees either.
\<close>

inductive proxy_step :: "proxy_state \<Rightarrow> proxy_state \<Rightarrow> bool" where
  accepted: "addr \<in> pr_loops s \<Longrightarrow> proxy_step s s"
| accept_failed: "addr \<in> pr_loops s \<Longrightarrow>
    proxy_step s (s\<lparr>pr_loops := pr_loops s - {addr}, pr_bound := pr_bound s - {addr},
      pr_errc := pr_errc s @ [if pr_done s \<or> pr_returned s \<noteq> None then Ok () else Err e],
      pr_accept_errs := Suc (pr_accept_errs s)\<rparr>)"
| pump_ended: "proxy_step s (s\<lparr>pr_errc := pr_errc s @ [r]\<rparr>)"
| cancelled_ctx: "proxy_step s (s\<lparr>pr_done := True\<rparr>)"
| return_done: "pr_done s \<Longrightarrow> pr_returned s = None \<Longrightarrow> proxy_step s (s\<lparr>pr_returned := Some (Ok ())\<rparr>)"
| return_err: "pr_errc s = r # rs \<Longrightarrow> pr_returned s = None \<Longrightarrow>
    proxy_step s (s\<lparr>pr_errc := rs, pr_returned := Some r\<rparr>)"

section \<open>What a SOCKS5 client sends\<close>

datatype socks_dest = IPv4 byte byte byte byte | IPv6 bytes | DomainName string

fun dest_ok :: "socks_dest \<Rightarrow> bool" where
  "dest_ok (IPv4 a b c d) = True"
| "dest_ok (IPv6 b) = (length b = 16)"
| "dest_ok (DomainName s) = (length s \<le> 255)"

fun encode_dest :: "socks_dest \<Rightarrow> bytes" where
  "encode_dest (IPv4 a b c d) = [0x01, a, b, c, d]"
| "encode_dest (IPv6 b) = 0x04 # b"
| "encode_dest (DomainName s) = 0x03 # word_of_nat (length s) # bytes_of_string s"

fun dest_host :: "socks_dest \<Rightarrow> string" where
  "dest_host (IPv4 a b c d) = IP_String [a, b, c, d]"
| "dest_host (IPv6 b) = IP_String b"
| "dest_host (DomainName s) = s"

definition put_be16 :: "u16 \<Rightarrow> bytes" where
  "put_be16 p = [ucast (drop_bit 8 p), ucast p]"

text \<open>A greeting with any methods, then a CONNECT request, then the payload.\<close>

definition socks_input :: "bytes \<Rightarrow> byte \<Rightarrow> socks_dest \<Rightarrow> u16 \<Rightarrow> bytes \<Rightarrow> bytes" where
  "socks_input methods rsv dest port payload =
     [0x05, word_of_nat (length methods)] @ methods @ [0x05, 0x01, rsv] @ encode_dest dest @ put_be16 port @ payload"

definition socks_target :: "socks_dest \<Rightarrow> u16 \<Rightarrow> string" where
  "socks_target dest port = JoinHostPort (dest_host dest) (FormatInt (int (unat port)))"

section \<open>Lemmas: SOCKS5\<close>

lemma ReadFull_conv: "ReadFull n inp = Some (b, r) \<longleftrightarrow> inp = b @ r \<and> length b = n"
  by (auto simp: ReadFull_def)

lemma ReadFull_append [simp]: "length b = n \<Longrightarrow> ReadFull n (b @ r) = Some (b, r)"
  by (simp add: ReadFull_conv)

lemma Uint16_put_be16 [simp, wire]: "Uint16 (put_be16 p) = p"
  by (rule bit_word_eqI) (auto simp: Uint16_def put_be16_def bit_simps)

lemma put_be16_Uint16: "length b = 2 \<Longrightarrow> put_be16 (Uint16 b) = b"
proof -
  assume "length b = 2"
  then obtain x y where b: "b = [x, y]" by (auto simp: length_Suc_conv numeral_2_eq_2)
  show ?thesis
    unfolding b Uint16_def put_be16_def
    by (simp, intro conjI; rule bit_word_eqI; auto simp add: bit_simps)
qed

lemma length_put_be16 [simp]: "length (put_be16 p) = 2"
  by (simp add: put_be16_def)

lemma byte_length [simp]: "n \<le> 255 \<Longrightarrow> unat (word_of_nat n :: byte) = n"
  by (simp add: unat_of_nat)

lemma socks_greet_conv:
  "socks_greet inp = Some r \<longleftrightarrow>
     (\<exists>methods. length methods \<le> 255 \<and> inp = [0x05, word_of_nat (length methods)] @ methods @ r)"
proof
  assume "socks_greet inp = Some r"
  then obtain b r' m where b: "ReadFull 2 inp = Some (b, r')" "b ! 0 = 0x05" "ReadFull (unat (b ! 1)) r' = Some (m, r)"
    by (auto simp: socks_greet_def split: option.splits prod.splits if_splits)
  then have "b = [b ! 0, b ! 1]" "length m = unat (b ! 1)"
    by (auto simp: ReadFull_conv length_Suc_conv numeral_2_eq_2)
  moreover have "unat (b ! 1) \<le> 255" using unat_byte_less [of "b ! 1"] by linarith
  ultimately have "length m \<le> 255 \<and> inp = [0x05, word_of_nat (length m)] @ m @ r"
    using b by (auto simp: ReadFull_conv)
  then show "\<exists>methods. length methods \<le> 255 \<and> inp = [0x05, word_of_nat (length methods)] @ methods @ r" by blast
next
  assume "\<exists>methods. length methods \<le> 255 \<and> inp = [0x05, word_of_nat (length methods)] @ methods @ r"
  then obtain m where m: "length m \<le> 255" "inp = [0x05, word_of_nat (length m)] @ (m @ r)" by auto
  have "ReadFull 2 inp = Some ([0x05, word_of_nat (length m)], m @ r)" unfolding m(2) by (rule ReadFull_append) simp
  with m(1) show "socks_greet inp = Some r" by (simp add: socks_greet_def)
qed

lemma readSOCKSAddr_conv:
  "(\<exists>b. inp = b # r \<and> readSOCKSAddr b r = Some (host, r')) \<longleftrightarrow>
     (\<exists>dest. dest_ok dest \<and> inp = encode_dest dest @ r' \<and> host = dest_host dest)" if "inp = b0 # r"
proof
  assume "\<exists>b. inp = b # r \<and> readSOCKSAddr b r = Some (host, r')"
  then obtain b where b: "inp = b # r" "readSOCKSAddr b r = Some (host, r')" by blast
  then consider (v4) x where "b = 0x01" "ReadFull 4 r = Some (x, r')" "host = IP_String x"
    | (v6) x where "b = 0x04" "ReadFull 16 r = Some (x, r')" "host = IP_String x"
    | (name) l q s where "b = 0x03" "ReadFull 1 r = Some (l, q)" "ReadFull (unat (l ! 0)) q = Some (s, r')"
      "host = string_of_bytes s"
    by (auto simp: readSOCKSAddr_def split: if_splits option.splits prod.splits)
  then show "\<exists>dest. dest_ok dest \<and> inp = encode_dest dest @ r' \<and> host = dest_host dest"
  proof cases
    case v4
    then obtain x0 x1 x2 x3 where "x = [x0, x1, x2, x3]" "r = x @ r'"
      by (auto simp: ReadFull_conv length_Suc_conv numeral_eq_Suc)
    with v4 b show ?thesis by (intro exI [of _ "IPv4 x0 x1 x2 x3"]) simp
  next
    case v6
    with b show ?thesis by (intro exI [of _ "IPv6 x"]) (simp add: ReadFull_conv)
  next
    case name
    then have l: "r = l ! 0 # s @ r'" "length s = unat (l ! 0)" by (auto simp: ReadFull_conv length_Suc_conv)
    moreover have "length s \<le> 255" using l(2) unat_byte_less [of "l ! 0"] by linarith
    ultimately show ?thesis using name b
      by (intro exI [of _ "DomainName (string_of_bytes s)"]) simp
  qed
next
  assume "\<exists>dest. dest_ok dest \<and> inp = encode_dest dest @ r' \<and> host = dest_host dest"
  then obtain dest where d: "dest_ok dest" "inp = encode_dest dest @ r'" "host = dest_host dest" by blast
  show "\<exists>b. inp = b # r \<and> readSOCKSAddr b r = Some (host, r')"
  proof (cases dest)
    case (IPv4 x0 x1 x2 x3)
    then have "r = [x0, x1, x2, x3] @ r'" "b0 = 0x01" using d that by auto
    then show ?thesis using d that IPv4 ReadFull_append [of "[x0, x1, x2, x3]" 4 r']
      by (simp add: readSOCKSAddr_def)
  next
    case (IPv6 x)
    then show ?thesis using d that by (auto simp: readSOCKSAddr_def)
  next
    case (DomainName s)
    then have r: "r = [word_of_nat (length s)] @ (bytes_of_string s @ r')" "b0 = 0x03" using d that by auto
    have "ReadFull 1 r = Some ([word_of_nat (length s)], bytes_of_string s @ r')"
      unfolding r(1) by (rule ReadFull_append) simp
    then show ?thesis using d that DomainName r(2) by (simp add: readSOCKSAddr_def)
  qed
qed

text \<open>The whole dialogue as one parser.\<close>

definition socks_parse :: "bytes \<Rightarrow> (string \<times> bytes) option" where
  "socks_parse inp =
     Option.bind (socks_greet inp) (\<lambda>r1.
       Option.bind (ReadFull 4 r1) (\<lambda>(b, r2).
         if b ! 0 \<noteq> 0x05 \<or> b ! 1 \<noteq> 0x01 then None
         else Option.bind (readSOCKSAddr (b ! 3) r2) (\<lambda>(host, r3).
           map_option (\<lambda>(p, r4). (JoinHostPort host (FormatInt (int (unat (Uint16 p)))), r4)) (ReadFull 2 r3))))"

lemma handleSOCKS_parse:
  "so_dialled (handleSOCKS dial wr inp) = (if wr 0 then map_option fst (socks_parse inp) else None)"
  "so_relayed (handleSOCKS dial wr inp) =
     (case socks_parse inp of
        Some (target, rest) \<Rightarrow> if wr 0 \<and> wr 1 \<and> is_Ok (dial target) then Some rest else None
      | None \<Rightarrow> None)"
  by (auto simp: handleSOCKS_def socks_parse_def Let_def split: option.splits prod.splits)

lemma request_header:
  "ReadFull 4 r1 = Some (b, r2) \<and> b ! 0 = 0x05 \<and> b ! 1 = 0x01 \<Longrightarrow> \<exists>rsv. r1 = [0x05, 0x01, rsv] @ (b ! 3 # r2)"
  by (auto simp: ReadFull_conv length_Suc_conv numeral_eq_Suc)

lemma socks_parse_conv:
  "socks_parse inp = Some (target, payload) \<longleftrightarrow>
     (\<exists>methods rsv dest port. length methods \<le> 255 \<and> dest_ok dest \<and>
        inp = socks_input methods rsv dest port payload \<and> target = socks_target dest port)"
proof
  assume "socks_parse inp = Some (target, payload)"
  then obtain r1 b r2 host r3 p where
    1: "socks_greet inp = Some r1" and 2: "ReadFull 4 r1 = Some (b, r2) \<and> b ! 0 = 0x05 \<and> b ! 1 = 0x01"
    and 3: "readSOCKSAddr (b ! 3) r2 = Some (host, r3)" and 4: "ReadFull 2 r3 = Some (p, payload)"
    and t: "target = JoinHostPort host (FormatInt (int (unat (Uint16 p))))"
    by (auto simp: socks_parse_def Option.bind_eq_Some_conv split: if_splits prod.splits)
  from 1 obtain methods where m: "length methods \<le> 255" "inp = [0x05, word_of_nat (length methods)] @ methods @ r1"
    by (auto simp: socks_greet_conv)
  from 2 obtain rsv where r: "r1 = [0x05, 0x01, rsv] @ (b ! 3 # r2)" using request_header by blast
  from readSOCKSAddr_conv [of "b ! 3 # r2" "b ! 3" r2 host r3] 3 obtain dest
    where d: "dest_ok dest" "b ! 3 # r2 = encode_dest dest @ r3" "host = dest_host dest" by auto
  have p: "r3 = put_be16 (Uint16 p) @ payload" using 4 by (simp add: ReadFull_conv put_be16_Uint16)
  show "\<exists>methods rsv dest port. length methods \<le> 255 \<and> dest_ok dest \<and>
      inp = socks_input methods rsv dest port payload \<and> target = socks_target dest port"
    using m r d p t
    by (intro exI [of _ methods] exI [of _ rsv] exI [of _ dest] exI [of _ "Uint16 p"])
      (simp add: socks_input_def socks_target_def)
next
  assume "\<exists>methods rsv dest port. length methods \<le> 255 \<and> dest_ok dest \<and>
      inp = socks_input methods rsv dest port payload \<and> target = socks_target dest port"
  then obtain methods rsv dest port where m: "length methods \<le> 255" and d: "dest_ok dest"
    and i: "inp = socks_input methods rsv dest port payload" and t: "target = socks_target dest port" by blast
  obtain atyp r2 where e: "encode_dest dest @ put_be16 port @ payload = atyp # r2" by (cases dest) auto
  let ?r1 = "[0x05, 0x01, rsv] @ (atyp # r2)"
  have 1: "socks_greet inp = Some ?r1" unfolding socks_greet_conv using m i e by (auto simp: socks_input_def)
  have 2: "ReadFull 4 ?r1 = Some ([0x05, 0x01, rsv, atyp], r2)" by (simp add: ReadFull_conv)
  have 3: "readSOCKSAddr atyp r2 = Some (dest_host dest, put_be16 port @ payload)"
    using readSOCKSAddr_conv [of "atyp # r2" atyp r2 "dest_host dest" "put_be16 port @ payload"] d e by auto
  show "socks_parse inp = Some (target, payload)"
    unfolding socks_parse_def 1 by (simp add: 2 [simplified] 3 t socks_target_def)
qed

section \<open>Lemmas: the listeners\<close>

text \<open>A second listener on an address in use is refused, as bind(2) does.\<close>

definition exclusive_ports :: "(string set \<Rightarrow> string \<Rightarrow> unit result) \<Rightarrow> bool" where
  "exclusive_ports listen \<longleftrightarrow> (\<forall>bound addr. addr \<in> bound \<longrightarrow> (\<exists>e. listen bound addr = Err e))"

lemma proxy_step_bound:
  assumes "proxy_step s s'"
  shows "pr_accept_errs s \<le> pr_accept_errs s' \<and> (pr_accept_errs s' = pr_accept_errs s \<longrightarrow> pr_bound s' = pr_bound s)"
  using assms by cases simp_all

lemma proxy_steps_bound:
  assumes "proxy_step\<^sup>*\<^sup>* s s'" "pr_accept_errs s' = 0"
  shows "pr_accept_errs s = 0 \<and> pr_bound s' = pr_bound s"
  using assms
proof (induction rule: converse_rtranclp_induct)
  case (step s u)
  then show ?case using proxy_step_bound [OF step.hyps(1)] by simp
qed simp

lemma RunProxy_loops:
  "pr_loops (RunProxy netstack listen t socksAddr httpAddr bound) \<subseteq> pr_bound (RunProxy netstack listen t socksAddr httpAddr bound)"
  by (auto simp: RunProxy_def listen_addr_step_def Let_def split: option.splits result.splits prod.splits if_splits)

lemma RunProxy_running:
  assumes "pr_returned (RunProxy netstack listen t socksAddr httpAddr bound) = None" "socksAddr \<noteq> []"
  shows "socksAddr \<in> pr_loops (RunProxy netstack listen t socksAddr httpAddr bound)"
  using assms
  by (auto simp: RunProxy_def listen_addr_step_def Let_def split: option.splits result.splits prod.splits if_splits)

lemma RunProxy_in_use:
  assumes "exclusive_ports listen" "socksAddr \<noteq> []" "socksAddr \<in> bound"
    "ParseAddr (LocalIP t) = Some ip" "netstack ip (proxy_dns t) (t_MTU t) = Ok ()"
  shows "\<exists>e. pr_returned (RunProxy netstack listen t socksAddr httpAddr bound) = Some (Err e)"
proof -
  obtain e where "listen bound socksAddr = Err e" using assms(1,3) by (auto simp: exclusive_ports_def)
  with assms show ?thesis by (simp add: RunProxy_def listen_addr_step_def)
qed

section \<open>Properties\<close>

text \<open>C25: the SOCKS5 server dials exactly what its peer asks for. An address is dialled if and
  only if the peer has sent a greeting and a CONNECT request, for an IPv4 or IPv6 address or
  a name, and it is the address of that request; the connection is relayed if and only if the
  dial and both replies succeeded, and then from the first byte after the request on.\<close>

theorem socks_connect:
  "(so_dialled (handleSOCKS dial wr inp) = Some target \<longleftrightarrow> wr 0 \<and>
      (\<exists>methods rsv dest port payload. length methods \<le> 255 \<and> dest_ok dest \<and>
         inp = socks_input methods rsv dest port payload \<and> target = socks_target dest port)) \<and>
   (so_relayed (handleSOCKS dial wr inp) = Some payload \<longleftrightarrow> wr 0 \<and> wr 1 \<and>
      (\<exists>methods rsv dest port. length methods \<le> 255 \<and> dest_ok dest \<and>
         inp = socks_input methods rsv dest port payload \<and> is_Ok (dial (socks_target dest port))))"
proof -
  have "so_dialled (handleSOCKS dial wr inp) = Some target \<longleftrightarrow> wr 0 \<and> (\<exists>payload. socks_parse inp = Some (target, payload))"
    by (auto simp: handleSOCKS_parse)
  moreover have "so_relayed (handleSOCKS dial wr inp) = Some payload \<longleftrightarrow>
      wr 0 \<and> wr 1 \<and> (\<exists>target. socks_parse inp = Some (target, payload) \<and> is_Ok (dial target))"
    by (auto simp: handleSOCKS_parse split: option.splits)
  ultimately show ?thesis unfolding socks_parse_conv by blast
qed

text \<open>C40: the listeners of a run survive it. Whatever ends a run of the proxies (a lost
  tunnel, a cancelled context), its SOCKS5 address stays bound as long as \<open>Accept\<close> has not
  failed, because the accept loops look at their context only then; so the run that follows a
  reconnect finds the address in use and ends with an error.\<close>

theorem reconnect_finds_port_bound:
  assumes "exclusive_ports listen" "socksAddr \<noteq> []"
    and "pr_returned (RunProxy netstack listen t socksAddr httpAddr bound) = None"
    and "proxy_step\<^sup>*\<^sup>* (RunProxy netstack listen t socksAddr httpAddr bound) s" "pr_accept_errs s = 0"
    and "ParseAddr (LocalIP t') = Some ip" "netstack ip (proxy_dns t') (t_MTU t') = Ok ()"
  shows "\<exists>e. pr_returned (RunProxy netstack listen t' socksAddr httpAddr (pr_bound s)) = Some (Err e)"
proof -
  have "socksAddr \<in> pr_bound s"
    using proxy_steps_bound [OF assms(4,5)] RunProxy_running [OF assms(3,2)]
      RunProxy_loops [of netstack listen t socksAddr httpAddr bound] by auto
  with assms show ?thesis by (intro RunProxy_in_use)
qed

definition demo_listen :: "string set \<Rightarrow> string \<Rightarrow> unit result" where
  "demo_listen bound addr = (if addr \<in> bound then Err ''address already in use'' else Ok ())"

definition proxy_tunnel :: tunnel where
  "proxy_tunnel = \<lparr>t_session = toy_session False, rxBytes = 0, txBytes = 0, LocalIP = ''10.66.0.2'', t_Mask = 24,
     t_Gateway = ''10.66.0.1'', t_DNS = [''1.1.1.1''], t_MTU = 1380, readLimit = 0\<rparr>"

theorem reconnect_finds_port_bound_witness:
  "\<exists>s e. proxy_step\<^sup>*\<^sup>* (RunProxy (\<lambda>_ _ _. Ok ()) demo_listen proxy_tunnel ''127.0.0.1:1080'' [] {}) s \<and>
    pr_returned s = Some (Err ''tunnel lost'') \<and>
    pr_returned (RunProxy (\<lambda>_ _ _. Ok ()) demo_listen proxy_tunnel ''127.0.0.1:1080'' [] (pr_bound s)) = Some (Err e)"
proof -
  let ?run = "RunProxy (\<lambda>_ _ _. Ok ()) demo_listen proxy_tunnel ''127.0.0.1:1080'' []"
  have ip: "ParseAddr (LocalIP proxy_tunnel) = Some (Addr4 [10, 66, 0, 2])"
    unfolding proxy_tunnel_def by code_simp
  have run: "?run {} = \<lparr>pr_bound = {''127.0.0.1:1080''}, pr_loops = {''127.0.0.1:1080''}, pr_errc = [], pr_done = False,
      pr_returned = None, pr_accept_errs = 0\<rparr>"
    using ip by (simp add: RunProxy_def listen_addr_step_def demo_listen_def)
  let ?s1 = "(?run {})\<lparr>pr_errc := pr_errc (?run {}) @ [Err ''tunnel lost'']\<rparr>"
  let ?s2 = "?s1\<lparr>pr_errc := [], pr_returned := Some (Err ''tunnel lost'')\<rparr>"
  have "proxy_step (?run {}) ?s1" by (rule pump_ended)
  moreover have "proxy_step ?s1 ?s2" by (rule return_err) (simp_all add: run)
  ultimately have steps: "proxy_step\<^sup>*\<^sup>* (?run {}) ?s2" by (meson converse_rtranclp_into_rtranclp rtranclp.rtrancl_refl)
  have ex: "exclusive_ports demo_listen" by (simp add: exclusive_ports_def demo_listen_def)
  have "\<exists>e. pr_returned (?run (pr_bound ?s2)) = Some (Err e)"
    by (rule reconnect_finds_port_bound [OF ex _ _ steps _ ip]) (simp_all add: run)
  with steps show ?thesis by (intro exI [of _ ?s2]) auto
qed

text \<open>A host that is already bracketed gets a second pair of brackets.\<close>

lemma withPort_brackets: "withPort ''[::1]'' ''443'' = ''[[::1]]:443''"
  by code_simp

section \<open>The relay behind the proxies\<close>

text \<open>Through the SOCKS5 server the remote end gets a prefix of what the client has sent after its
  request, and can get all of it.\<close>

lemma socks_relay:
  assumes "so_relayed (handleSOCKS dial wr (socks_input methods rsv dest port payload)) = Some A"
    and "length methods \<le> 255" "dest_ok dest" "reach (\<lambda>s. s = relay A B) relay_step s"
  shows "\<exists>x. payload = sent_on (to_b s) @ x"
proof -
  have "socks_parse (socks_input methods rsv dest port payload) = Some (socks_target dest port, payload)"
    using assms(2,3) unfolding socks_parse_conv by blast
  then have "A = payload" using assms(1) by (auto simp: handleSOCKS_parse split: if_splits)
  then show ?thesis using relay_prefix [OF assms(4)] by blast
qed

text \<open>The HTTP proxy loses what the client sent right behind its request: bytes that came in with
  the request are in the buffered reader and are never relayed, in either branch.\<close>

lemma http_loses_buffered:
  assumes "hp_relayed (handleHTTPConnect dial wr forward (Some (r, inp))) = Some A"
    and "reach (\<lambda>s. s = relay A B) relay_step s"
  shows "\<exists>x. in_rest inp = sent_on (to_b s) @ x"
  using assms(1) relay_prefix [OF assms(2)]
  by (auto simp: handleHTTPConnect_def Let_def split: if_splits)

lemma http_loses_buffered_witness:
  "\<exists>s. reach (\<lambda>s. s = relay [2, 3] B) relay_step s \<and> (\<forall>x. [1, 2, 3] \<noteq> sent_on (to_b s) @ x) \<and>
    hp_relayed (handleHTTPConnect (\<lambda>_. Ok ()) True True
      (Some (\<lparr>rq_Method = ''CONNECT'', rq_Host = ''h:443''\<rparr>, \<lparr>in_buffered = [1], in_rest = [2, 3]\<rparr>))) = Some [2, 3]"
proof -
  let ?r = "\<lparr>rq_Method = ''CONNECT'', rq_Host = ''h:443''\<rparr>" and ?i = "\<lparr>in_buffered = [1], in_rest = [2, 3]\<rparr>"
  have run: "hp_relayed (handleHTTPConnect (\<lambda>_. Ok ()) True True (Some (?r, ?i))) = Some [2, 3]"
    by (simp add: handleHTTPConnect_def Let_def)
  obtain s where s: "reach (\<lambda>s. s = relay [2, 3] B) relay_step s" "sent_on (to_b s) = [2, 3]"
    using relay_half_close by blast
  have "\<exists>x. in_rest ?i = sent_on (to_b s) @ x" by (rule http_loses_buffered [OF run s(1)])
  with s run show ?thesis by (intro exI [of _ s]) simp
qed

end
