(* ===== verification/Spec2Isabelle.thy ===== *)
theory Spec2Isabelle
  imports Leases ServerStart Panel ClientTun Proxy
begin

text \<open>
  ArnosVPN: a verification development of the tunnel server and the desktop client.

  \<^bold>\<open>The program.\<close> A server gives clients an address in a private IPv4 network and carries
  their packets inside a websocket. A client proves knowledge of a pre-shared key in its
  hello, both sides derive session keys from the key and two salts, and from then on packets
  travel as sealed frames. The server has a TUN device, an address pool, a replay guard for
  hellos and one reader and one writer per client; it configures the host's packet filter when
  it comes up and prints a connect URI. The client imports such URIs into a list, dials the
  active server and runs the tunnel either behind local proxies or as a TUN device with
  routes; a supervisor redials a lost tunnel; a local web panel and a command line drive it.

  \<^bold>\<open>Foundations.\<close>
  \<^item> \<open>Prelude\<close>: results (a value, an error, or a panic), bytes and words, the locales
    \<open>codec\<close> (an encoding with its decoder), \<open>safe_system\<close> (an inductive invariant of a
    step relation) and \<open>simulation\<close> (a machine that refines another), and \<open>reach\<close>, the
    reachable states.
  \<^item> \<open>GoStrings\<close>, \<open>GoBase64\<close>, \<open>GoSha256\<close>, \<open>GoNet\<close>, \<open>GoJson\<close>, \<open>GoUrl\<close>, \<open>GoPath\<close>: what the sources
    use of the Go library. Strings are byte strings; JSON is modelled at the level of
    documents with the rules of struct decoding (unknown members skipped, names matched up to
    case, last one counts), and a string that is written has its ill-formed bytes replaced,
    as \<open>json_text\<close> does.

  \<^bold>\<open>The server.\<close>
  \<^item> \<open>Protocol\<close> (\<open>internal/protocol/protocol.go\<close>, \<open>crypto.go\<close>): constants, the authenticated
    text, key derivation, sealing and opening of frames with 64-bit counters. HKDF and the
    AEAD are the record \<open>crypto\<close>, an argument, and so is the source of randomness. Lemmas:
    nonces never repeat, a frame opens once, forged frames leave no trace.
  \<^item> \<open>Pool\<close> (\<open>internal/server/pool.go\<close>): the allocator on 32-bit words, as an instance of the
    locale \<open>address_pool\<close>; when it finds an address, fails, and panics.
  \<^item> \<open>Replay\<close> (\<open>internal/server/replay.go\<close>): the table of hellos, as an instance of
    \<open>replay_filter\<close>; its memory is bounded.
  \<^item> \<open>ServerConfig\<close> (\<open>internal/config/config.go\<close>): \<open>Load\<close> and the persistence of the key.
  \<^item> \<open>Messages\<close>, \<open>Server\<close> (\<open>internal/protocol/protocol.go\<close>, \<open>internal/server/server.go\<close>): control messages, the handshake
    with all its error paths, registration, the TUN reader, and the reader and writer of a client as
    functions on the server's state and on a client object.
  \<^item> \<open>ServerMachine\<close>: the interleaving of all connections and of the TUN reader as the step
    relation \<open>sys_step\<close>, whose invariant says who holds which address.
  \<^item> \<open>Leases\<close>: the abstract table of leases, and that the server refines it.
  \<^item> \<open>HostCommands\<close>, \<open>HostNet\<close> (\<open>internal/server/nat.go\<close>): commands with their undo lists in
    general, and the packet filter rules.
  \<^item> \<open>Cert\<close> (\<open>internal/cert\<close>): the choice of provider, Traefik's store, reloading.
  \<^item> \<open>ServerStart\<close> (\<open>internal/server/tun.go\<close>, \<open>New\<close>, \<open>Close\<close>, \<open>Serve\<close> of \<open>server.go\<close>,
    \<open>cmd/arnosvpn-server\<close>, \<open>cmd/arnosvpnctl\<close>): start and end of a server process and the
    operator's helper.

  \<^bold>\<open>The client.\<close>
  \<^item> \<open>ClientTunnel\<close> (\<open>internal/client/tunnel.go\<close>, \<open>pump.go\<close>, \<open>fingerprint.go\<close>): the client's side of
    the handshake, packet input and output, the pump.
  \<^item> \<open>Channel\<close>: both ends together. A handshake leaves mirrored sessions, and packets arrive
    unchanged and in order in both directions.
  \<^item> \<open>Provision\<close> (\<open>internal/provision/provision.go\<close>): connect URIs, their parser, QR codes.
  \<^item> \<open>ClientConfig\<close> (\<open>internal/client/config.go\<close>, \<open>logbuf.go\<close>): the server list, settings and
    their file, whose writing may break off; the log ring.
  \<^item> \<open>Subscribe\<close> (\<open>subscribe.go\<close>), \<open>Update\<close> (\<open>update.go\<close>): fetching a list of servers under the
    address check, and replacing the program by a newer release.
  \<^item> \<open>Controller\<close> (\<open>controller.go\<close>): the operations of the desktop controller and, as the step
    relation \<open>ctl_step\<close>, their interleaving with any number of supervisors.
  \<^item> \<open>Relay\<close>, \<open>Proxy\<close> (\<open>proxy.go\<close>, \<open>http_proxy.go\<close>), \<open>ClientTun\<close> (\<open>tundev.go\<close>, \<open>tun_linux.go\<close>,
    \<open>tun_windows.go\<close>, \<open>tun_other.go\<close>): the two modes in which a tunnel is run.
  \<^item> \<open>ClientCli\<close> (\<open>Connect\<close> of \<open>tunnel.go\<close>, \<open>cmd/arnosvpn-client\<close>), \<open>Gui\<close>, \<open>Panel\<close> (\<open>gui.go\<close>): dialling,
    the command line, the panel's handlers, and the run of the panel as a machine that refines
    \<open>ctl_step\<close>.

  This theory composes them: a server that came up never gives an address twice, a client
  with the printed URI gets a working tunnel from it, and replies to a client's packet come back
  through the reader loop, its channel and its writer to the client's own device.

  \<^bold>\<open>Conventions.\<close> An operation returns a \<open>result\<close> and, where it changes state, the new
  state. Go's \<open>int\<close> is an integer with its 64-bit wrap-around written out where it matters;
  \<open>uint32\<close>, \<open>uint64\<close> and bytes are words. Locks are left out where a definition is one critical
  section; where the code releases its lock, the step relations have separate steps. Times are
  nanoseconds since 1970. Error texts are those of the sources, without wrapped causes where these
  come from a library, and with dashes and quotes in ASCII.

  \<^bold>\<open>Recursion and bounds.\<close> All functions are total, and no fuel is used: the scan of the pool
  runs at most as often as the pool has addresses, the loops over packets, frames, steps and lines
  recurse on the list of what arrives, and loops that run for ever in the program (the
  supervisor, the accept loops, the relay, the TUN reader among the clients) are step relations.

  \<^bold>\<open>What is assumed.\<close> Code outside the repository is an argument, and a theorem that relies on
  its behaviour names it as a hypothesis: that opening inverts sealing and that frames nobody has
  sealed do not open (crypto); that iptables adds and deletes the rule it is given
  (\<open>iptables_ok\<close>) and ip adds and deletes addresses and routes (\<open>iproute_ok\<close>); that a TUN device
  does not touch the packet filter (\<open>tun_neutral\<close>); that an address in use cannot be bound a
  second time (\<open>exclusive_ports\<close>); that \<open>range\<close> over a map visits each entry. Each is shown to
  hold on a concrete instance.

  \<^bold>\<open>Not modelled.\<close> Timeouts and deadlines; the text of the flag package; paths in the manner of
  Windows; the HTTP and websocket packages, the QR codes, the user-space network stack, the
  TUN packages and autocert, which are packages the program calls; the page of the panel, the
  Android application (Kotlin), scripts and deployment files, which are not Go.
\<close>

section \<open>A started server\<close>

text \<open>The machine of a server that has just come up: no connection yet.\<close>

definition started :: "running \<Rightarrow> sys" where
  "started ru = \<lparr>m_srv = ru_server ru, m_phase = (\<lambda>_. Fresh), m_tun = None\<rparr>"

text \<open>The network leaves between 2 and 31 bits to the hosts.\<close>

definition serviceable :: "server_config \<Rightarrow> bool" where
  "serviceable cfg \<longleftrightarrow>
     (\<exists>pool. newIPPool (TunnelCIDR cfg) (Gateway cfg) = Ok pool \<and>
        2 \<le> mask_bits (pool_network pool) - mask_ones (pool_network pool) \<and>
        mask_bits (pool_network pool) - mask_ones (pool_network pool) \<le> 31)"

lemma started_init:
  assumes "New E cfg h = (Ok ru, h')" "serviceable cfg"
  shows "sys_init (started ru)"
proof -
  obtain pool where pool: "newIPPool (TunnelCIDR cfg) (Gateway cfg) = Ok pool"
    and ru: "ru_server ru = \<lparr>srv_cfg = cfg, srv_pool = pool, srv_replay = newReplayGuard,
      srv_clients = Map.empty, srv_heap = Map.empty\<rparr>"
    using New_server [OF assms(1)] by blast
  have "pool_wf pool \<and> pool_assigned pool = {}"
    using assms(2) newIPPool_wf [OF pool] pool by (auto simp: serviceable_def)
  with ru show ?thesis by (simp add: sys_init_def started_def)
qed

lemma usable_nonempty:
  assumes "pool_wf p"
  shows "usable p \<noteq> {}"
proof -
  have b: "unat (pool_base p) + unat (pool_size p) \<le> 2 ^ 32" "4 \<le> unat (pool_size p)"
    using assms by (auto simp: pool_wf_def)
  then have small: "unat (pool_base p) + 1 < 2 ^ 32" "unat (pool_base p) + 2 < 2 ^ 32" by linarith+
  have u1: "unat (pool_base p + 1) = unat (pool_base p) + 1"
    using small(1) by (simp add: unat_word_ariths)
  have u2: "unat (pool_base p + 2) = unat (pool_base p) + 2"
    using small(2) by (simp add: unat_word_ariths)
  have ne: "pool_base p + 1 \<noteq> pool_base p + 2" by simp
  have "pool_base p + 1 \<in> usable p \<or> pool_base p + 2 \<in> usable p"
  proof (cases "pool_gateway p = pool_base p + 1")
    case True
    with ne have "pool_base p + 2 \<noteq> pool_gateway p" by simp
    with u2 b(2) have "pool_base p + 2 \<in> usable p" by (simp add: usable_def)
    then show ?thesis ..
  next
    case False
    with u1 b(2) have "pool_base p + 1 \<in> usable p" by (simp add: usable_def)
    then show ?thesis ..
  qed
  then show ?thesis by blast
qed

lemma ParseCIDR_mask:
  assumes "ParseCIDR s = Some n"
  shows "mask_ones n \<le> mask_bits n \<and> mask_bits n \<le> 128"
proof -
  obtain addr plen found where cut: "Cut (CHR ''/'') s = (addr, plen, found)"
    by (rule prod_cases3)
  show ?thesis
  proof (cases "ParseAddr addr")
    case None
    with assms cut show ?thesis by (simp add: ParseCIDR_def split: if_splits)
  next
    case (Some a)
    have "BitLen a \<le> 128" by (cases a) simp_all
    with assms cut Some show ?thesis by (auto simp: ParseCIDR_def Let_def split: if_splits)
  qed
qed

lemma Ones_bound:
  assumes "newIPPool cidr gw = Ok p"
  shows "Ones p \<le> 128"
proof -
  have "ParseCIDR cidr = Some (pool_network p)"
    using assms by (auto simp: newIPPool_def Let_def split: option.splits if_splits)
  from ParseCIDR_mask [OF this] show ?thesis by (simp add: Ones_def)
qed

text \<open>What the server answers to a hello over a working connection, with its random salt.\<close>

definition server_answer :: "crypto \<Rightarrow> rand_source \<Rightarrow> int \<Rightarrow> int \<Rightarrow> server \<Rightarrow> json \<Rightarrow> json result result" where
  "server_answer cr rand now now' srv doc =
     (case (handshake cr rand now now' (Ok (TextMessage (Some doc))) (\<lambda>_. Ok ()) srv, rand SaltLen) of
        ((Ok c, _), Ok salt) \<Rightarrow> Ok (Ok (marshal_welcome (make_welcome srv salt (c_ip c))))
      | ((Err e, _), _) \<Rightarrow> Ok (Ok (marshal_error e))
      | _ \<Rightarrow> Ok (Err ''closed''))"

section \<open>Properties\<close>

text \<open>A started server never gives an address twice. From a successful start on a network
  that leaves 2 to 31 bits to the hosts, through every interleaving of handshakes, packets,
  failures and disconnects of any number of clients, the addresses marked as assigned are
  exactly those held by connections, no two connections hold the same one, and a packet is
  routed to a connection only if the connection holds the packet's destination.\<close>

lemma started_server_safe:
  assumes "New E cfg h = (Ok ru, h')" "serviceable cfg" "(sys_step cr)\<^sup>*\<^sup>* (started ru) m"
  shows "pool_assigned (srv_pool (m_srv m)) = ran (holds m) \<and> exclusive (holds m) \<and>
    (\<forall>a i. srv_clients (m_srv m) a = Some i \<longrightarrow> holds m i = Some a)"
proof -
  have "sys_inv (started ru)" using started_init [OF assms(1,2)] by (rule srv.inv_init)
  with assms(3) have "sys_inv m" by (rule srv.steps_inv)
  then show ?thesis by (auto simp: sys_inv_def)
qed

lemma started_server_safe_witness:
  "\<exists>ru h'. New rule_net start_cfg [] = (Ok ru, h') \<and> pool_assigned (srv_pool (m_srv (started ru))) = ran (holds (started ru))"
proof -
  obtain ru h' where new: "New rule_net start_cfg [] = (Ok ru, h')"
    using rule_net_New [of start_cfg] by (auto simp: start_cfg_def)
  have "serviceable start_cfg"
    using newIPPool_default by (simp add: serviceable_def start_cfg_def default_pool_def)
  from started_server_safe [OF new this, of toy_crypto "started ru"] new show ?thesis by auto
qed



text \<open>C8: replies come back. In every reachable state of the server, when a client's packet has been
  forwarded to the TUN device, then replies to its source address that the device gives back
  (IPv4 packets that fit the reader's buffer, not more than the client's channel holds) are
  sealed for this client, leave on its connection when its writer empties the channel, and
  reach the client's own device unchanged and in order.\<close>

theorem replies_reach_sender:
  assumes "reach sys_init (sys_step cr) m" "m_phase m i = Serving" "srv_heap (m_srv m) i = Some c"
    and "snd (read_step cr c msg) = Some pkt"
    and replies: "\<forall>(q, pr) \<in> set rs. 20 \<le> length q \<and> length q \<le> n \<and> length q < 65536 \<and> ip_version q = 4 \<and>
      ip_dst q = ip_src pkt" "length rs \<le> sendCap"
    and channel: "aead_correct cr" "in_step k (c_session c) (t_session t)" "k + length rs \<le> 2 ^ 64" "c_send c = []"
  shows "\<exists>srv' c'. tun_loop cr n (m_srv m) (map Ok rs) = Continue srv' \<and> srv_heap srv' i = Some c' \<and>
    (\<forall>out l. writeLoop cr c' (replicate (length rs) (Write (Dequeued True))) = (out, l) \<longrightarrow>
       (\<exists>t'. pump_down cr (\<lambda>_. Ok ()) 0 t (map Ok (on_wire out)) = (Ok (), t', map fst rs)))"
proof -
  have inv: "sys_inv m" by (rule srv.reach_inv [OF assms(1)])
  have "holds m i = Some (ip_src pkt)" using assms(2-4) by (simp add: holds_def held_def read_step_forwards)
  then have table: "srv_clients (m_srv m) (ip_src pkt) = Some i" using inv assms(2) by (simp add: sys_inv_def)
  have fits: "\<forall>(q, pr) \<in> set rs. 20 \<le> length q \<and> length q \<le> n \<and> ip_version q = 4 \<and> ip_dst q = ip_src pkt"
    "\<forall>r \<in> set rs. length (fst r) < 65536" using replies(1) by auto
  from tun_loop_to_client [OF table assms(3) fits(1)] obtain srv' where
    "tun_loop cr n (m_srv m) (map Ok rs) = Continue srv'" "srv_heap srv' i = Some (deliver_all cr rs c)"
    unfolding deliver_all_def by blast
  with queue_reaches_device [OF channel(1,2,4) fits(2) channel(3) replies(2)] show ?thesis by blast
qed

theorem replies_reach_sender_witness:
  "\<exists>m c msg pkt srv' c' t t' q out l. reach sys_init (sys_step toy_crypto) m \<and>
    snd (read_step toy_crypto c msg) = Some pkt \<and> ip_dst q = ip_src pkt \<and>
    tun_loop toy_crypto 1500 (m_srv m) [Ok (q, toy_pad)] = Continue srv' \<and> srv_heap srv' 0 = Some c' \<and>
    writeLoop toy_crypto c' [Write (Dequeued True)] = (out, l) \<and>
    pump_down toy_crypto (\<lambda>_. Ok ()) 0 t (map Ok (on_wire out)) = (Ok (), t', [q])"
proof -
  obtain m c msg pkt s where m: "reach sys_init (sys_step toy_crypto) m" "m_phase m 0 = Serving"
    "srv_heap (m_srv m) 0 = Some c" "snd (read_step toy_crypto c msg) = Some pkt"
    and c: "c_send c = []" "in_step 0 (c_session c) s" using demo_serving by blast
  define t where "t = toy_tunnel\<lparr>t_session := s\<rparr>"
  define q where "q = [0x45] @ replicate 11 0 @ put_be32 0 @ put_be32 (ip_src pkt)"
  from c(2) have t: "in_step 0 (c_session c) (t_session t)" by (simp add: t_def)
  from replies_reach_sender [OF m _ _ toy_correct t _ c(1), of "[(q, toy_pad)]" 1500] ip_fields [OF q_def]
  obtain srv' c' where run: "tun_loop toy_crypto 1500 (m_srv m) [Ok (q, toy_pad)] = Continue srv'" "srv_heap srv' 0 = Some c'"
    "\<And>out l. writeLoop toy_crypto c' [Write (Dequeued True)] = (out, l) \<Longrightarrow>
      \<exists>t'. pump_down toy_crypto (\<lambda>_. Ok ()) 0 t (map Ok (on_wire out)) = (Ok (), t', [q])"
    by (auto simp: sendCap_def)
  obtain out l where out: "writeLoop toy_crypto c' [Write (Dequeued True)] = (out, l)" by fastforce
  from run(3) [OF this] obtain t' where "pump_down toy_crypto (\<lambda>_. Ok ()) 0 t (map Ok (on_wire out)) = (Ok (), t', [q])" ..
  with run(1,2) out m(1,4) ip_fields(4) [OF q_def] show ?thesis by (intro exI conjI)
qed

end
